theory Spec2Isabelle
  imports Complex_Main "HOL-Library.Sublist"
begin

section \<open>Strings and numbers of the pricing engine\<close>

text \<open>
  The pricing engine (\<^verbatim>\<open>services/pricingEngine\<close>) works on JavaScript strings and
  numbers. Strings are modelled as \<^typ>\<open>string\<close>; the model covers ASCII text, which is
  what cabinet codes are made of: case conversion acts on the letters a-z and A-Z only,
  and the white space of \<^verbatim>\<open>\s\<close> and \<^verbatim>\<open>trim\<close> is tab, line feed, vertical tab, form feed,
  carriage return and space. Numbers are modelled as exact rationals: the engine computes
  with IEEE doubles, which lie next to the exact values. Where the engine rounds a computed
  amount to cents, the double decides on which side of a half cent the amount falls; the
  model leaves that open (see \<open>toFixed2\<close> below).
\<close>

definition isDigit :: "char \<Rightarrow> bool" where
  "isDigit c \<longleftrightarrow> c \<in> set ''0123456789''"

definition isUpper :: "char \<Rightarrow> bool" where
  "isUpper c \<longleftrightarrow> c \<in> set ''ABCDEFGHIJKLMNOPQRSTUVWXYZ''"

definition isUpperOrDigit :: "char \<Rightarrow> bool" where
  "isUpperOrDigit c \<longleftrightarrow> isUpper c \<or> isDigit c"

definition isSpace :: "char \<Rightarrow> bool" where
  "isSpace c \<longleftrightarrow> c \<in> set [CHR 0x09, CHR 0x0A, CHR 0x0B, CHR 0x0C, CHR 0x0D, CHR '' '']"

definition toUpperChar :: "char \<Rightarrow> char" where
  "toUpperChar c =
     (case map_of (zip ''abcdefghijklmnopqrstuvwxyz'' ''ABCDEFGHIJKLMNOPQRSTUVWXYZ'') c of
        Some u \<Rightarrow> u | None \<Rightarrow> c)"

definition toLowerChar :: "char \<Rightarrow> char" where
  "toLowerChar c =
     (case map_of (zip ''ABCDEFGHIJKLMNOPQRSTUVWXYZ'' ''abcdefghijklmnopqrstuvwxyz'') c of
        Some l \<Rightarrow> l | None \<Rightarrow> c)"

definition toUpperCase :: "string \<Rightarrow> string" where
  "toUpperCase s = map toUpperChar s"

definition toLowerCase :: "string \<Rightarrow> string" where
  "toLowerCase s = map toLowerChar s"

definition trim :: "string \<Rightarrow> string" where
  "trim s = rev (dropWhile isSpace (rev (dropWhile isSpace s)))"

text \<open>\<^verbatim>\<open>s.includes(w)\<close>, \<^verbatim>\<open>s.startsWith(w)\<close> and the test of a pattern that ends in \<^verbatim>\<open>$\<close>.\<close>

definition includesStr :: "string \<Rightarrow> string \<Rightarrow> bool" where
  "includesStr s w \<longleftrightarrow> sublist w s"

definition startsWith :: "string \<Rightarrow> string \<Rightarrow> bool" where
  "startsWith s w \<longleftrightarrow> prefix w s"

definition endsWith :: "string \<Rightarrow> string \<Rightarrow> bool" where
  "endsWith s w \<longleftrightarrow> suffix w s"

text \<open>The longest run of characters of a class at the front of a text, and what follows it:
  what a greedy \<^verbatim>\<open>\d+\<close>, \<^verbatim>\<open>[A-Z]+\<close> or \<^verbatim>\<open>\s*\<close> consumes when the next element of the pattern
  cannot start with a character of that class.\<close>

definition spanC :: "(char \<Rightarrow> bool) \<Rightarrow> string \<Rightarrow> string \<times> string" where
  "spanC p s = (takeWhile p s, dropWhile p s)"

subsection \<open>Replacing matches of a pattern\<close>

text \<open>
  A regular expression is modelled by its anchored matcher: given the text from a position
  on, the matcher returns the length of the match that the backtracking engine finds at
  that position and the text that replaces it, or \<open>None\<close> when there is no match there.
  \<^verbatim>\<open>replace\<close> with a pattern without the \<^verbatim>\<open>g\<close> flag rewrites the leftmost match;
  with the flag it rewrites every match, resuming the search behind each one. All patterns
  of the engine used with \<^verbatim>\<open>g\<close> match at least one character.
\<close>

type_synonym matcher = "string \<Rightarrow> (nat \<times> string) option"

fun replaceFirst :: "matcher \<Rightarrow> string \<Rightarrow> string" where
  "replaceFirst m [] = (case m [] of Some (n, r) \<Rightarrow> r | None \<Rightarrow> [])"
| "replaceFirst m (c # cs) =
     (case m (c # cs) of
        Some (n, r) \<Rightarrow> r @ drop n (c # cs)
      | None \<Rightarrow> c # replaceFirst m cs)"

fun replaceAll :: "matcher \<Rightarrow> string \<Rightarrow> string" where
  "replaceAll m [] = []"
| "replaceAll m (c # cs) =
     (case m (c # cs) of
        Some (n, r) \<Rightarrow> r @ replaceAll m (drop (n - 1) cs)
      | None \<Rightarrow> c # replaceAll m cs)"

text \<open>A literal text as a pattern, and a pattern that must reach the end of the text.\<close>

definition lit :: "string \<Rightarrow> string \<Rightarrow> matcher" where
  "lit w r s = (if prefix w s then Some (length w, r) else None)"

definition atEnd :: "string list \<Rightarrow> string \<Rightarrow> matcher" where
  "atEnd ws r s = (if s \<in> set ws then Some (length s, r) else None)"

text \<open>\<^verbatim>\<open>/(?<!\d)\./g\<close>: every dot that does not follow a digit is removed; the first argument
  is the character before the current position.\<close>

fun removeDotsNotAfterDigit :: "char option \<Rightarrow> string \<Rightarrow> string" where
  "removeDotsNotAfterDigit p [] = []"
| "removeDotsNotAfterDigit p (c # cs) =
     (if c = CHR ''.'' \<and> \<not> (case p of Some d \<Rightarrow> isDigit d | None \<Rightarrow> False)
      then removeDotsNotAfterDigit (Some c) cs
      else c # removeDotsNotAfterDigit (Some c) cs)"

text \<open>\<^verbatim>\<open>/\.(?!\d)/g\<close>: every dot that is not followed by a digit is removed.\<close>

fun removeDotsNotBeforeDigit :: "string \<Rightarrow> string" where
  "removeDotsNotBeforeDigit [] = []"
| "removeDotsNotBeforeDigit (c # cs) =
     (if c = CHR ''.'' \<and> \<not> (case cs of d # _ \<Rightarrow> isDigit d | [] \<Rightarrow> False)
      then removeDotsNotBeforeDigit cs
      else c # removeDotsNotBeforeDigit cs)"

section \<open>The code normalizer\<close>

text \<open>The matchers of the patterns of \<^verbatim>\<open>normalizeNKBACode\<close>, in the order of the source.\<close>

definition reSpaces :: "string \<Rightarrow> matcher" where
  \<comment> \<open>\<^verbatim>\<open>/\s+/g\<close>\<close>
  "reSpaces r s = (let n = length (takeWhile isSpace s) in if 0 < n then Some (n, r) else None)"

definition reLetterSpaceDigit :: matcher where
  \<comment> \<open>\<^verbatim>\<open>/([A-Z])\s+(\d)/g\<close> with replacement \<^verbatim>\<open>$1$2\<close>\<close>
  "reLetterSpaceDigit s =
     (case s of
        [] \<Rightarrow> None
      | c # cs \<Rightarrow>
          (case spanC isSpace cs of
             (ws, d # _) \<Rightarrow>
               if isUpper c \<and> ws \<noteq> [] \<and> isDigit d then Some (length ws + 2, [c, d]) else None
           | (ws, []) \<Rightarrow> None))"

definition reLettersThenDigits :: "string \<Rightarrow> matcher" where
  \<comment> \<open>\<^verbatim>\<open>/([A-Z]+)10(\d{2})/\<close> and \<^verbatim>\<open>/([A-Z]+)0(\d{2})/\<close> with replacement \<^verbatim>\<open>$1$2\<close>; the
     first argument is the text between the letters and the two digits\<close>
  "reLettersThenDigits mid s =
     (case spanC isUpper s of
        (ls, rest) \<Rightarrow>
          (if ls \<noteq> [] \<and> prefix mid rest then
             (case drop (length mid) rest of
                d1 # d2 # _ \<Rightarrow>
                  if isDigit d1 \<and> isDigit d2
                  then Some (length ls + length mid + 2, ls @ [d1, d2]) else None
              | _ \<Rightarrow> None)
           else None))"

definition testLettersThenDigits :: "string \<Rightarrow> string \<Rightarrow> bool" where
  \<comment> \<open>\<^verbatim>\<open>/^[A-Z]+10\d{2}/.test\<close> and \<^verbatim>\<open>/^[A-Z]+0\d{2}/.test\<close>\<close>
  "testLettersThenDigits mid s \<longleftrightarrow> reLettersThenDigits mid s \<noteq> None"

definition reDepthNotation :: matcher where
  \<comment> \<open>\<^verbatim>\<open>/\s*X\s*\d+\s*DP/g\<close>\<close>
  "reDepthNotation s =
     (case spanC isSpace s of
        (w1, []) \<Rightarrow> None
      | (w1, c # s1) \<Rightarrow>
          (case spanC isSpace s1 of
             (w2, s2) \<Rightarrow>
               (case spanC isDigit s2 of
                  (ds, s3) \<Rightarrow>
                    (case spanC isSpace s3 of
                       (w3, s4) \<Rightarrow>
                         if c = CHR ''X'' \<and> ds \<noteq> [] \<and> prefix ''DP'' s4
                         then Some (length w1 + 1 + length w2 + length ds + length w3 + 2, [])
                         else None))))"

definition reTrayDivider :: matcher where
  \<comment> \<open>\<^verbatim>\<open>/\d*TD/g\<close>\<close>
  "reTrayDivider s =
     (case spanC isDigit s of
        (ds, rest) \<Rightarrow> if prefix ''TD'' rest then Some (length ds + 2, []) else None)"

definition reConstruction :: "string \<Rightarrow> matcher" where
  \<comment> \<open>\<^verbatim>\<open>/([0-9]+)AH(-?[0-9A-Z]+)?$/\<close> with replacement \<^verbatim>\<open>$1\<close>, and the same for VH and PH:
     the digits, the two letters, and then either the end of the text or an optional dash
     and letters and digits up to the end\<close>
  "reConstruction tag s =
     (case spanC isDigit s of
        (ds, rest) \<Rightarrow>
          (if ds \<noteq> [] \<and> prefix tag rest then
             (let tl = drop (length tag) rest;
                  body = (case tl of c # cs \<Rightarrow> if c = CHR ''-'' then cs else tl | [] \<Rightarrow> [])
              in if tl = [] \<or> (body \<noteq> [] \<and> list_all isUpperOrDigit body)
                 then Some (length s, ds) else None)
           else None))"

definition normalizeNKBACode :: "string \<Rightarrow> string" where
  "normalizeNKBACode rawCode =
     (if rawCode = [] then []
      else
        let code = trim (toUpperCase rawCode);
            \<comment> \<open>1. common OCR symbol errors\<close>
            code = replaceAll (lit ''$'' ''B'') code;
            \<comment> \<open>the three characters of a wrongly decoded euro sign; they are not ASCII, and
               stand here as the three bytes of the sign\<close>
            code = replaceAll (lit [CHR 0xE2, CHR 0x82, CHR 0xAC] ''E'') code;
            code = replaceAll (lit ''@'' ''0'') code;
            code = trim (replaceAll (reSpaces '' '') code);
            code = replaceAll reLetterSpaceDigit code;
            \<comment> \<open>2. a spurious 1 or 0 before a two-digit size\<close>
            code = (if testLettersThenDigits ''10'' code
                    then replaceFirst (reLettersThenDigits ''10'') code else code);
            code = (if testLettersThenDigits ''0'' code
                    then replaceFirst (reLettersThenDigits ''0'') code else code);
            \<comment> \<open>3. directional and cosmetic suffixes\<close>
            code = replaceFirst (atEnd [''-2B'', ''2B''] []) code;
            code = replaceFirst (atEnd [''(L)'', ''(R)''] []) code;
            code = replaceAll reDepthNotation code;
            code = replaceAll reTrayDivider code;
            code = replaceAll (lit ''ROT'' []) code;
            code = removeDotsNotBeforeDigit (removeDotsNotAfterDigit None code);
            \<comment> \<open>construction types\<close>
            code = replaceFirst (reConstruction ''AH'') code;
            code = replaceFirst (reConstruction ''VH'') code;
            code = replaceFirst (reConstruction ''PH'') code;
            code = replaceFirst (atEnd [''HD''] []) code;
            code = (if startsWith code ''DHW'' then replaceFirst (lit ''DHW'' ''DW'') code else code);
            code = (if (\<exists>d \<in> set ''0123456789''. endsWith code [d, CHR ''L''] \<or>
                          endsWith code [d, CHR ''R''] \<or> endsWith code [d, CHR ''-'', CHR ''L''] \<or>
                          endsWith code [d, CHR ''-'', CHR ''R''])
                    then replaceFirst (atEnd [''-L'', ''-R'', ''L'', ''R''] []) code else code);
            code = replaceFirst (atEnd [''-LH'', ''LH''] []) code;
            code = replaceFirst (atEnd [''-RH'', ''RH''] []) code;
            \<comment> \<open>finished ends\<close>
            code = replaceFirst (atEnd [''-FEL'', ''-FER'', ''-FE'', ''FEL'', ''FER'', ''FE''] []) code;
            code = replaceFirst (atEnd [''-FE'', ''FE''] []) code
        in code)"

section \<open>The data model\<close>

text \<open>
  Modelled from the spec: the declarations of \<^verbatim>\<open>CabinetItem\<close>, \<^verbatim>\<open>Manufacturer\<close>,
  \<^verbatim>\<open>ManufacturerOption\<close>, \<^verbatim>\<open>ProjectSpecs\<close> and \<^verbatim>\<open>PricingLineItem\<close>, which the engine imports
  from its module \<^verbatim>\<open>types\<close>, are not among the source files. The records hold the fields that
  the engine reads and writes, with the types that the data model of the specification
  and the literals of the repository's scripts give them. An optional field is an
  \<open>option\<close> (\<open>None\<close> is \<^verbatim>\<open>undefined\<close>). An object used as a dictionary is an association
  list with distinct keys, in the order of \<^verbatim>\<open>Object.keys\<close>, looked up with \<^const>\<open>map_of\<close>.
  The financial parameters, typed \<^verbatim>\<open>any\<close> in the engine, hold the four fields that it reads.
\<close>

record Modification =
  modDescription :: string
  modPrice :: "rat option"

record CabinetItem =
  itemId :: string
  originalCode :: string
  normalizedCode :: string
  itemType :: string
  description :: string
  width :: rat
  height :: rat
  depth :: rat
  quantity :: rat
  room :: "string option"
  modifications :: "Modification list option"
  extractedPrice :: "rat option"

datatype PricingType = Fixed | Percentage | Included

record ManufacturerOption =
  optId :: string
  optName :: string
  optSection :: string
  pricingType :: PricingType
  optPrice :: rat

record Tier =
  tierIdOf :: string
  tierNameOf :: string

type_synonym catalog = "(string \<times> (string \<times> rat) list) list"

record Manufacturer =
  basePricingMultiplier :: rat
  tiers :: "Tier list"
  options :: "ManufacturerOption list option"
  catalogOf :: "catalog option"

record ProjectSpecs =
  selectedOptions :: "(string \<times> bool) list option"
  drawerBox :: "string option"
  hingeType :: "string option"
  woodSpecies :: "string option"
  finishColor :: "string option"
  glaze :: "string option"
  finishOption1 :: "string option"
  finishOption2 :: "string option"
  printedEndOption :: "string option"
  wallDoorOption :: "string option"
  baseDoorOption :: "string option"
  dynamicSelections :: "(string \<times> string) list option"
  priceGroup :: "string option"

record Financials =
  pricingFactor :: "rat option"
  roomFactors :: "(string \<times> rat) list option"
  globalMargin :: "rat option"
  categoryMargins :: "(string \<times> rat) list option"

record AppliedOption =
  appliedName :: string
  appliedPrice :: rat
  sourceSection :: string

record PricingLineItem = CabinetItem +
  basePrice :: rat
  optionsPrice :: rat
  tierMultiplier :: rat
  unitCost :: rat
  finalUnitPrice :: rat
  totalPrice :: rat
  linePricingFactor :: rat
  margin :: rat
  tierName :: string
  source :: string
  appliedOptions :: "AppliedOption list"

text \<open>The truth value of an optional number and of an optional text in a condition, and
  \<^verbatim>\<open>a || b\<close> on them.\<close>

definition truthyNum :: "rat option \<Rightarrow> bool" where
  "truthyNum x \<longleftrightarrow> (case x of Some v \<Rightarrow> v \<noteq> 0 | None \<Rightarrow> False)"

definition truthyStr :: "string option \<Rightarrow> bool" where
  "truthyStr x \<longleftrightarrow> (case x of Some v \<Rightarrow> v \<noteq> [] | None \<Rightarrow> False)"

definition numOr :: "rat option \<Rightarrow> rat \<Rightarrow> rat" where
  "numOr x d = (case x of Some v \<Rightarrow> if v \<noteq> 0 then v else d | None \<Rightarrow> d)"

definition strOr :: "string option \<Rightarrow> string \<Rightarrow> string" where
  "strOr x d = (case x of Some v \<Rightarrow> if v \<noteq> [] then v else d | None \<Rightarrow> d)"

section \<open>The garbage filter\<close>

definition badWords :: "string list" where
  "badWords =
     [''PAGE '', ''OF PAGE'', ''SUB TOTAL'', ''SUBTOTAL'', ''GRAND TOTAL'', ''ORDER TOTAL'',
      ''TAX'', ''SHIPPING'', ''JOB NAME'', ''PROJECT:'', ''QUOTE:'', ''DATE:'', ''SIGNATURE'',
      ''CABINET SPECIFICATIONS'', ''CONSTRUCTION:'', ''DOOR STYLE:'', ''LAYOUT'']"

definition rePageOf :: "string \<Rightarrow> bool" where
  \<comment> \<open>\<^verbatim>\<open>PAGE\s+\d+\s+OF\s+\d+\<close> at the front of the text\<close>
  "rePageOf s =
     (prefix ''PAGE'' s \<and>
      (case spanC isSpace (drop 4 s) of
         (w1, s1) \<Rightarrow>
           (case spanC isDigit s1 of
              (d1, s2) \<Rightarrow>
                (case spanC isSpace s2 of
                   (w2, s3) \<Rightarrow>
                     w1 \<noteq> [] \<and> d1 \<noteq> [] \<and> w2 \<noteq> [] \<and> prefix ''OF'' s3 \<and>
                     (case spanC isSpace (drop 2 s3) of
                        (w3, s4) \<Rightarrow> w3 \<noteq> [] \<and> (case s4 of d # _ \<Rightarrow> isDigit d | [] \<Rightarrow> False))))))"

definition testAnywhere :: "(string \<Rightarrow> bool) \<Rightarrow> string \<Rightarrow> bool" where
  \<comment> \<open>\<^verbatim>\<open>test\<close> of a pattern without \<^verbatim>\<open>^\<close>: a match at some position\<close>
  "testAnywhere p s \<longleftrightarrow> list_ex p (suffixes s)"

definition isCabinetCode :: "CabinetItem \<Rightarrow> bool" where
  "isCabinetCode item \<longleftrightarrow>
     (case toUpperCase (originalCode item) of
        a # b # _ \<Rightarrow> isUpperOrDigit a \<and> isUpperOrDigit b
      | _ \<Rightarrow> False) \<and>
     \<not> list_ex (\<lambda>bad. includesStr (toUpperCase (originalCode item)) bad)
         [''FRIDGE'', ''DISHWASHER'', ''RANGE'', ''OVEN'', ''MICROWAVE'', ''SINK'', ''FAUCET'',
          ''PAGE'']"

definition isGarbageItem :: "CabinetItem \<Rightarrow> bool" where
  "isGarbageItem item =
     (let text = toUpperCase (originalCode item @ '' '' @ description item) in
      if testAnywhere rePageOf text then True
      else if list_ex (\<lambda>w. includesStr text w) badWords then True
      else if 50 < length (originalCode item) \<and> includesStr (originalCode item) '' '' then True
      else if originalCode item = ''KITCHEN'' \<or> description item = ''KITCHEN'' then True
      else if includesStr text ''REFRIGERATOR'' \<and> \<not> includesStr text ''PANEL'' \<and>
              \<not> includesStr text ''CABINET'' \<and> \<not> isCabinetCode item then True
      else if includesStr text ''RANGE'' \<and> \<not> includesStr text ''HOOD'' \<and>
              \<not> includesStr text ''CABINET'' \<and> \<not> isCabinetCode item then True
      else False)"

section \<open>The key generator\<close>

subsection \<open>Numbers in keys\<close>

definition digitChar :: "nat \<Rightarrow> char" where
  "digitChar n = ''0123456789'' ! (n mod 10)"

definition digitVal :: "char \<Rightarrow> nat" where
  "digitVal c = (case map_of (zip ''0123456789'' [0, 1, 2, 3, 4, 5, 6, 7, 8, 9]) c of
                   Some n \<Rightarrow> n | None \<Rightarrow> 0)"

fun showNat :: "nat \<Rightarrow> string" where
  "showNat n = (if n < 10 then [digitChar n] else showNat (n div 10) @ [digitChar n])"

declare showNat.simps [simp del]

definition showInt :: "int \<Rightarrow> string" where
  "showInt i = (if i < 0 then CHR ''-'' # showNat (nat (- i)) else showNat (nat i))"

definition parseInt :: "string \<Rightarrow> int" where
  \<comment> \<open>\<^verbatim>\<open>parseInt\<close> of a text that a pattern has matched against \<^verbatim>\<open>\d+\<close>\<close>
  "parseInt ds = int (foldl (\<lambda>n c. 10 * n + digitVal c) 0 ds)"

text \<open>
  A number inside a template literal: an integer is printed in decimal; of another value
  at most fifteen decimal places are printed, which is what JavaScript prints for the
  dimensions of plans (34.5, 1.25). Exponent notation and the shortest round-trip printing
  of other doubles are outside the model.
\<close>

fun fracDigits :: "nat \<Rightarrow> rat \<Rightarrow> string" where
  "fracDigits 0 r = []"
| "fracDigits (Suc n) r =
     (if r = 0 then []
      else digitChar (nat \<lfloor>r * 10\<rfloor>) # fracDigits n (r * 10 - of_int \<lfloor>r * 10\<rfloor>))"

definition numberToString :: "rat \<Rightarrow> string" where
  "numberToString x =
     (if x = of_int \<lfloor>x\<rfloor> then showInt \<lfloor>x\<rfloor>
      else (if x < 0 then ''-'' else []) @ showNat (nat \<lfloor>\<bar>x\<bar>\<rfloor>) @ ''.'' @
           fracDigits 15 (\<bar>x\<bar> - of_int \<lfloor>\<bar>x\<bar>\<rfloor>))"

subsection \<open>Adding a key and its variations\<close>

datatype Category = Exact | Similar

record KeyState =
  processed :: "string list"
  exactKeys :: "string list"
  similarKeys :: "string list"

definition pushKey :: "Category \<Rightarrow> string \<Rightarrow> KeyState \<Rightarrow> KeyState" where
  \<comment> \<open>\<^verbatim>\<open>processed.add(k)\<close> followed by the \<^verbatim>\<open>push\<close> on the list of the category\<close>
  "pushKey category k st =
     (case category of
        Exact \<Rightarrow> st\<lparr>processed := k # processed st, exactKeys := exactKeys st @ [k]\<rparr>
      | Similar \<Rightarrow> st\<lparr>processed := k # processed st, similarKeys := similarKeys st @ [k]\<rparr>)"

definition removeSpaces :: "string \<Rightarrow> string" where
  \<comment> \<open>\<^verbatim>\<open>replace(/\s+/g, '')\<close>\<close>
  "removeSpaces s = replaceAll (reSpaces []) s"

definition matchLettersDigits :: "string \<Rightarrow> (string \<times> string) option" where
  \<comment> \<open>\<^verbatim>\<open>/^([A-Z]+)(\d+)$/\<close>\<close>
  "matchLettersDigits s =
     (case spanC isUpper s of
        (ls, ds) \<Rightarrow> if ls \<noteq> [] \<and> ds \<noteq> [] \<and> list_all isDigit ds then Some (ls, ds) else None)"

definition matchWidth :: "string \<Rightarrow> (string \<times> string) option" where
  \<comment> \<open>\<^verbatim>\<open>/^([A-Z]+)(\d{2,3})$/\<close>\<close>
  "matchWidth s =
     (case matchLettersDigits s of
        Some (ls, ds) \<Rightarrow> if length ds = 2 \<or> length ds = 3 then Some (ls, ds) else None
      | None \<Rightarrow> None)"

definition neighborPrefixes :: "string list" where
  "neighborPrefixes = [''SB'', ''DB'', ''B'', ''VSB'', ''VDB'', ''W'', ''BBC'', ''S'', ''VB'', ''V'']"

function add :: "string \<Rightarrow> Category \<Rightarrow> bool \<Rightarrow> KeyState \<Rightarrow> KeyState" where
  "add k category allowNeighbors st0 =
     (if k = [] then st0
      else
        let upper = removeSpaces (toUpperCase k) in
        if upper \<in> set (processed st0) then st0
        else
          let st1 = pushKey category upper st0;
              \<comment> \<open>hyphenated variation: letters, digits becomes letters-digits\<close>
              st2 = (case matchLettersDigits upper of
                       Some (ls, ds) \<Rightarrow>
                         (let hyphenated = ls @ ''-'' @ ds in
                          if hyphenated \<in> set (processed st1) then st1
                          else pushKey category hyphenated st1)
                     | None \<Rightarrow> st1);
              \<comment> \<open>the base before the first dash, when the suffix is cosmetic\<close>
              st3 = (if includesStr upper ''-'' then
                       (let base = takeWhile (\<lambda>c. c \<noteq> CHR ''-'') upper;
                            suffix = drop (length base + 1) upper in
                        if length suffix \<le> 3 \<or> suffix = ''BUTT'' \<or> suffix = ''2B'' \<or>
                           (suffix \<noteq> [] \<and> list_all isDigit suffix)
                        then add base category allowNeighbors st2 else st2)
                     else st2)
          in
            \<comment> \<open>neighbor widths, always similar\<close>
            if allowNeighbors then
              (case matchWidth upper of
                 Some (pre, wStr) \<Rightarrow>
                   if pre \<in> set neighborPrefixes then
                     (let w = parseInt wStr;
                          st4 = add (pre @ showInt (w - 3)) Similar False st3;
                          st5 = add (pre @ showInt (w + 3)) Similar False st4;
                          st6 = add (pre @ showInt (w - 6)) Similar False st5;
                          st7 = add (pre @ showInt (w + 6)) Similar False st6;
                          st8 = (if pre = ''SB''
                                 then add (''VSB'' @ showInt w) Similar False
                                        (add (''B'' @ showInt w) Similar False st7)
                                 else st7);
                          st9 = (if pre = ''VSB''
                                 then add (''VDB'' @ showInt w) Similar False
                                        (add (''SB'' @ showInt w) Similar False st8)
                                 else st8)
                      in st9)
                   else st3
               | None \<Rightarrow> st3)
            else st3)"
  by pat_completeness auto

text \<open>Each recursive call either switches the neighbors off or passes a shorter key.\<close>

lemma length_replaceAll_reSpaces_Nil: "length (replaceAll (reSpaces []) s) \<le> length s"
proof (induction s rule: length_induct)
  case (1 s)
  show ?case
  proof (cases s)
    case Nil
    then show ?thesis by simp
  next
    case (Cons c cs)
    show ?thesis
    proof (cases "reSpaces [] (c # cs)")
      case None
      with Cons 1 show ?thesis by simp
    next
      case (Some a)
      then obtain n where a: "a = (n, [])"
        by (cases a) (auto simp: reSpaces_def Let_def split: if_splits)
      have "length (drop (n - 1) cs) < length s" using Cons by simp
      with 1 have "length (replaceAll (reSpaces []) (drop (n - 1) cs)) \<le> length (drop (n - 1) cs)"
        by blast
      with Cons Some a show ?thesis by simp
    qed
  qed
qed

lemma length_removeSpaces: "length (removeSpaces s) \<le> length s"
  by (simp add: removeSpaces_def length_replaceAll_reSpaces_Nil)

lemma includesStr_single: "includesStr s [c] \<longleftrightarrow> c \<in> set s"
  by (induction s) (auto simp: includesStr_def sublist_Cons_right)

lemma length_base_less:
  "includesStr u ''-'' \<Longrightarrow> length (takeWhile (\<lambda>c. c \<noteq> CHR ''-'') u) < length u"
  by (induction u) (auto simp: includesStr_single)

termination add
proof (relation "measures [\<lambda>(k, c, a, st). if a then 1 else 0, \<lambda>(k, c, a, st). length k]",
    goal_cases)
  case 1
  then show ?case by simp
next
  case (2 k category allowNeighbors st0 x xa xb)
  then show ?case
    using length_removeSpaces[of "toUpperCase k"] length_base_less[of x]
    by (auto simp: toUpperCase_def)
qed auto

declare add.simps [simp del]

subsection \<open>The strategies of \<^verbatim>\<open>generateSmartKeys\<close>\<close>

definition matchComplex :: "string \<Rightarrow> (string \<times> string) option" where
  \<comment> \<open>\<^verbatim>\<open>/^([0-9A-Z]+)(\d{2})$/\<close>: the greedy first group gives back the last two digits\<close>
  "matchComplex s =
     (let n = length s in
      if 3 \<le> n \<and> list_all isUpperOrDigit s \<and> list_all isDigit (drop (n - 2) s)
      then Some (take (n - 2) s, drop (n - 2) s) else None)"

definition matchMiddleLetters :: "string \<Rightarrow> string option" where
  \<comment> \<open>\<^verbatim>\<open>/^([A-Z0-9]+)(\d{2})([A-Z]+)(-\d+)$/\<close>; the result is group 1, group 2, group 4\<close>
  "matchMiddleLetters s =
     (let a = takeWhile (\<lambda>c. c \<noteq> CHR ''-'') s;
          ds = drop (length a + 1) s;
          ls = rev (takeWhile isUpper (rev a));
          front = take (length a - length ls) a;
          n = length front
      in if includesStr s ''-'' \<and> ds \<noteq> [] \<and> list_all isDigit ds \<and> ls \<noteq> [] \<and> 3 \<le> n \<and>
            list_all isUpperOrDigit front \<and> list_all isDigit (drop (n - 2) front)
         then Some (front @ ''-'' @ ds) else None)"

definition matchBase :: "string \<Rightarrow> (string \<times> string) option" where
  \<comment> \<open>\<^verbatim>\<open>/^([A-Z]+)(\d+)/\<close>\<close>
  "matchBase s =
     (case spanC isUpper s of
        (ls, rest) \<Rightarrow>
          (let ds = takeWhile isDigit rest in
           if ls \<noteq> [] \<and> ds \<noteq> [] then Some (ls, ds) else None))"

definition firstDigits :: "string \<Rightarrow> string option" where
  \<comment> \<open>\<^verbatim>\<open>match(/(\d+)/)?.[0]\<close>: the leftmost run of digits\<close>
  "firstDigits s =
     (let ds = takeWhile isDigit (dropWhile (\<lambda>c. \<not> isDigit c) s) in
      if ds = [] then None else Some ds)"

definition countDashes :: "string \<Rightarrow> nat" where
  "countDashes s = length (filter (\<lambda>c. c = CHR ''-'') s)"

definition standardWidths :: "int list" where
  "standardWidths = [9, 12, 15, 18, 21, 24, 27, 30, 33, 36, 39, 42, 45, 48]"

definition addAll :: "Category \<Rightarrow> bool \<Rightarrow> string list \<Rightarrow> KeyState \<Rightarrow> KeyState" where
  \<comment> \<open>consecutive calls of \<^verbatim>\<open>add\<close> with the same category and flag\<close>
  "addAll category allowNeighbors ks st = foldl (\<lambda>st k. add k category allowNeighbors st) st ks"

definition dimensionKeys :: "CabinetItem \<Rightarrow> string list" where
  \<comment> \<open>strategy 6; the caller has checked \<^verbatim>\<open>width > 0\<close>\<close>
  "dimensionKeys item =
     (let w = numberToString (width item); h = height item; d = depth item; ty = itemType item in
      if ty = ''Wall'' then
        (let hVal = numberToString (if h \<noteq> 0 then h else 30) in
         [''W'' @ w @ hVal] @ (if 12 < d then [''W'' @ w @ hVal @ ''-24''] else []))
      else if ty = ''Base'' then
        [''B'' @ w, ''DB'' @ w, ''SB'' @ w, ''3DB'' @ w, ''B'' @ w @ ''D'']
      else if ty = ''Tall'' then
        (let hVal = numberToString (if h \<noteq> 0 then h else 84) in
         [''U'' @ w @ hVal, ''T'' @ w @ hVal])
      else if ty = ''Filler'' then [''F'' @ w]
      else if ty = ''Panel'' then [''PNL'' @ w, ''BP'' @ w]
      else [])"

definition generateSmartKeys :: "CabinetItem \<Rightarrow> string list \<times> string list" where
  "generateSmartKeys item =
     (let cleanCode = normalizeNKBACode (originalCode item);
          cleanNorm = normalizeNKBACode (normalizedCode item);
          st = \<lparr>processed = [], exactKeys = [], similarKeys = []\<rparr>;
          \<comment> \<open>strategy 0: first token\<close>
          st = (if includesStr (originalCode item) '' '' then
                  (let firstToken =
                     toUpperCase (trim (takeWhile (\<lambda>c. c \<noteq> CHR '' '') (originalCode item)))
                   in if 2 < length firstToken then add firstToken Exact True st else st)
                else st);
          \<comment> \<open>strategy 1: explicit clean codes\<close>
          st = add (originalCode item) Exact True st;
          st = add cleanCode Exact True st;
          st = (if normalizedCode item \<noteq> [] then add (normalizedCode item) Exact True st else st);
          st = add cleanNorm Exact True st;
          \<comment> \<open>strategy 1.5: typo transposition\<close>
          st = (if includesStr cleanCode ''VDB''
                then add (replaceFirst (lit ''VDB'' ''VBD'') cleanCode) Exact True st else st);
          st = (if includesStr cleanCode ''VBD''
                then add (replaceFirst (lit ''VBD'' ''VDB'') cleanCode) Exact True st else st);
          \<comment> \<open>strategy 2: complex combinations\<close>
          st = (case matchComplex cleanCode of
                  Some (pre, suf) \<Rightarrow>
                    if 30 \<le> parseInt suf \<and> parseInt suf \<le> 42 then add pre Exact True st else st
                | None \<Rightarrow> st);
          \<comment> \<open>strategy 3: vanity/wall confusion\<close>
          st = (if startsWith cleanCode ''W'' \<or> startsWith cleanCode ''WD'' then
                  (if startsWith cleanCode ''WDH'' then
                     (let remainder = replaceFirst (lit ''WDH'' []) cleanCode in
                      addAll Similar False
                        [''VDB'' @ remainder, ''VSB'' @ remainder, ''SB'' @ remainder,
                         ''DB'' @ remainder, ''B'' @ remainder] st)
                   else st)
                else st);
          \<comment> \<open>strategy 4: similar cabinet fallback\<close>
          st = (case matchMiddleLetters cleanCode of
                  Some k \<Rightarrow> add k Similar True st | None \<Rightarrow> st);
          st = (case matchBase cleanCode of
                  Some (ls, ds) \<Rightarrow> add (ls @ ds) Similar True st | None \<Rightarrow> st);
          \<comment> \<open>strategy 5: internal dashes\<close>
          st = (if 2 \<le> countDashes cleanCode
                then add (filter (\<lambda>c. c \<noteq> CHR ''-'') cleanCode) Exact True st else st);
          \<comment> \<open>strategy 6: keys from dimensions\<close>
          st = (if 0 < width item then addAll Exact False (dimensionKeys item) st else st);
          \<comment> \<open>strategy 7: abbreviation expansion\<close>
          st = (if matchLettersDigits cleanCode \<noteq> None \<and> takeWhile isUpper cleanCode = ''S''
                then add (replaceFirst (lit ''S'' ''SB'') cleanCode) Exact True st else st);
          st = (if startsWith cleanCode ''WDH'' then
                  (case firstDigits cleanCode of
                     Some nums \<Rightarrow>
                       addAll Similar False [''WDC'' @ nums @ ''30'', ''W'' @ nums @ ''30''] st
                   | None \<Rightarrow> st)
                else st);
          st = (if startsWith cleanCode ''PDF'' then
                  (case firstDigits cleanCode of
                     Some nums \<Rightarrow> addAll Exact False [''PNL'' @ nums, ''F'' @ nums] st
                   | None \<Rightarrow> st)
                else st);
          st = (if startsWith cleanCode ''OUK'' then
                  (case firstDigits cleanCode of
                     Some nums \<Rightarrow> addAll Similar False [''ACC'' @ nums, ''KIT'' @ nums] st
                   | None \<Rightarrow> st)
                else st);
          st = (if startsWith cleanCode ''CE''
                then add (replaceFirst (lit ''CE'' ''CM'') cleanCode) Exact False st else st);
          st = (if startsWith cleanCode ''TEP''
                then addAll Exact False [''TEP2484'', ''TEP96''] st else st);
          st = (if startsWith cleanCode ''BEP'' then add ''BEP24'' Exact False st else st);
          st = (if startsWith cleanCode ''REP''
                then addAll Exact False [''REP2496'', ''REP96''] st else st);
          st = (if startsWith cleanCode ''BF''
                then add ''F3'' Similar False
                       (add (''F'' @ replaceFirst (lit ''BF'' []) cleanCode) Exact False st)
                else st);
          st = (if startsWith cleanCode ''WF''
                then add ''F3'' Similar False
                       (add (''F'' @ replaceFirst (lit ''WF'' []) cleanCode) Exact False st)
                else st);
          st = (if startsWith cleanCode ''F'' \<and> \<not> startsWith cleanCode ''FE'' then
                  (let w = replaceFirst (lit ''F'' []) cleanCode in
                   addAll Similar False [''BF'' @ w, ''WF'' @ w] st)
                else st);
          \<comment> \<open>strategy 8: standard sizes near the width\<close>
          st = (case matchBase cleanCode of
                  Some (pre, ds) \<Rightarrow>
                    (let numPart = parseInt ds in
                     if numPart < 100 then
                       addAll Similar False
                         (map (\<lambda>std. pre @ showInt std)
                            (filter (\<lambda>std. \<bar>numPart - std\<bar> \<le> 2) standardWidths)) st
                     else st)
                | None \<Rightarrow> st)
      in (exactKeys st, similarKeys st))"

section \<open>The catalog matcher\<close>

record Match =
  price :: rat
  matchSource :: string
  matchedSku :: string

definition quoted :: "string \<Rightarrow> string" where
  \<comment> \<open>a text between single quotes\<close>
  "quoted s = [CHR 0x27] @ s @ [CHR 0x27]"

definition normalizeLookup :: "string \<Rightarrow> string" where
  \<comment> \<open>the en dash and the em dash that the source turns into a hyphen are not ASCII\<close>
  "normalizeLookup sku = removeSpaces (toUpperCase (trim sku))"

definition getPriceFallback :: "(string \<times> rat) list \<Rightarrow> string \<Rightarrow> string \<Rightarrow> Match option" where
  \<comment> \<open>steps 3 to 5 of \<^verbatim>\<open>getPriceFromItem\<close>: single column, generic column, first column\<close>
  "getPriceFallback item sku method =
     (case item of
        [(k, p)] \<Rightarrow>
          Some \<lparr>price = p, matchSource = ''Catalog ('' @ method @ '' Fallback '' @ quoted k @ '')'',
                matchedSku = sku\<rparr>
      | _ \<Rightarrow>
          (case find (\<lambda>(k, p). includesStr (toLowerCase k) ''price'' \<or>
                               includesStr (toLowerCase k) ''list'') item of
             Some (genericKey, p) \<Rightarrow>
               Some \<lparr>price = p,
                     matchSource = ''Catalog ('' @ method @ '' Generic '' @ quoted genericKey @ '')'',
                     matchedSku = sku\<rparr>
           | None \<Rightarrow>
               (case item of
                  (k, p) # _ \<Rightarrow>
                    Some \<lparr>price = p,
                          matchSource =
                            ''Catalog ('' @ method @ '' Blind Fallback '' @ quoted k @ '')'',
                          matchedSku = sku\<rparr>
                | [] \<Rightarrow> None)))"

definition getPriceFromItem :: "(string \<times> rat) list \<Rightarrow> string \<Rightarrow> string \<Rightarrow> string \<Rightarrow> Match option" where
  "getPriceFromItem item tierId sku method =
     (case map_of item tierId of
        Some p \<Rightarrow>
          Some \<lparr>price = p, matchSource = ''Catalog ('' @ method @ '' Tier)'', matchedSku = sku\<rparr>
      | None \<Rightarrow>
          (case find (\<lambda>(k, p). includesStr (toLowerCase k) (toLowerCase tierId) \<or>
                               includesStr (toLowerCase tierId) (toLowerCase k)) item of
             Some (fuzzyTier, p) \<Rightarrow>
               if fuzzyTier \<noteq> [] then
                 Some \<lparr>price = p,
                       matchSource = ''Catalog ('' @ method @ '' Fuzzy '' @ quoted fuzzyTier @ '')'',
                       matchedSku = sku\<rparr>
               else getPriceFallback item sku method
           | None \<Rightarrow> getPriceFallback item sku method))"

definition matchWall :: "string \<Rightarrow> (string \<times> string \<times> string) option" where
  \<comment> \<open>\<^verbatim>\<open>/^(W\d{2})(\d{2})([A-Z]*)$/\<close>\<close>
  "matchWall s =
     (if length s \<ge> 5 \<and> take 1 s = ''W'' \<and> list_all isDigit (take 4 (drop 1 s)) \<and>
         list_all isUpper (drop 5 s)
      then Some (take 3 s, take 2 (drop 3 s), drop 5 s) else None)"

fun neighborSearch ::
  "catalog \<Rightarrow> string \<Rightarrow> string \<Rightarrow> string \<Rightarrow> int list \<Rightarrow> Match option option" where
  \<comment> \<open>the loop over the neighbor heights; the outer \<open>Some\<close> is a \<^verbatim>\<open>return\<close> inside the loop\<close>
  "neighborSearch cat tierId pre suf [] = None"
| "neighborSearch cat tierId pre suf (nh # nhs) =
     (let candidate = pre @ showInt nh @ suf; simpleCandidate = pre @ showInt nh in
      case map_of cat candidate of
        Some entry \<Rightarrow>
          Some (getPriceFromItem entry tierId candidate (''Neighbor (Matched '' @ candidate @ '')''))
      | None \<Rightarrow>
          (case (if suf \<noteq> [] then map_of cat simpleCandidate else None) of
             Some entry \<Rightarrow>
               Some (getPriceFromItem entry tierId simpleCandidate
                       (''Neighbor (Matched '' @ simpleCandidate @ '')''))
           | None \<Rightarrow> neighborSearch cat tierId pre suf nhs))"

fun suffixStripping :: "catalog \<Rightarrow> string \<Rightarrow> string \<Rightarrow> nat \<Rightarrow> Match option option" where
  \<comment> \<open>\<^verbatim>\<open>for (let i = cleanSku.length - 1; i > 2; i--)\<close>, called with \<open>i = length cleanSku - 1\<close>\<close>
  "suffixStripping cat tierId cleanSku i =
     (if 2 < i then
        (let sub = take i cleanSku in
         case map_of cat sub of
           Some entry \<Rightarrow>
             Some (getPriceFromItem entry tierId sub
                     (''Similar (Stripped '' @ drop i cleanSku @ '')''))
         | None \<Rightarrow> suffixStripping cat tierId cleanSku (i - 1))
      else None)"

declare suffixStripping.simps [simp del]

definition matchCore :: "string \<Rightarrow> string option" where
  \<comment> \<open>\<^verbatim>\<open>/^([A-Z]{1,4}\d{2,5})/\<close>\<close>
  "matchCore s =
     (case spanC isUpper s of
        (ls, rest) \<Rightarrow>
          (let ds = takeWhile isDigit rest in
           if 1 \<le> length ls \<and> length ls \<le> 4 \<and> 2 \<le> length ds
           then Some (ls @ take 5 ds) else None))"

definition findCatalogPrice :: "string \<Rightarrow> catalog \<Rightarrow> string \<Rightarrow> bool \<Rightarrow> Match option" where
  "findCatalogPrice rawSku cat tierId strict =
     (let cleanSku = normalizeLookup rawSku in
      if cleanSku = [] \<or> cleanSku = ''UNKNOWN'' then None
      else
        \<comment> \<open>1. exact match\<close>
        case map_of cat cleanSku of
          Some entry \<Rightarrow> getPriceFromItem entry tierId cleanSku ''Exact''
        | None \<Rightarrow>
        \<comment> \<open>2. without dashes\<close>
        (case map_of cat (filter (\<lambda>c. c \<noteq> CHR ''-'') cleanSku) of
           Some entry \<Rightarrow> getPriceFromItem entry tierId cleanSku ''Hyphen-Insensitive''
         | None \<Rightarrow>
        \<comment> \<open>3. a dash before the trailing digits\<close>
        (let suffix = rev (takeWhile isDigit (rev cleanSku));
             pre = take (length cleanSku - length suffix) cleanSku;
             withDash = pre @ ''-'' @ suffix
         in
         case (if suffix \<noteq> [] \<and> pre \<noteq> [] \<and> isUpper (last pre) then map_of cat withDash
               else None) of
           Some entry \<Rightarrow> getPriceFromItem entry tierId cleanSku ''Inserted-Hyphen''
         | None \<Rightarrow>
        if strict then None
        else
        \<comment> \<open>4. neighbor heights\<close>
        (case (case matchWall cleanSku of
                 Some (pre, hStr, suf) \<Rightarrow>
                   (let h = parseInt hStr in
                    neighborSearch cat tierId pre suf [h + 1, h - 1, h + 2, h - 2])
               | None \<Rightarrow> None) of
           Some r \<Rightarrow> r
         | None \<Rightarrow>
        \<comment> \<open>5. suffix stripping\<close>
        (case suffixStripping cat tierId cleanSku (length cleanSku - 1) of
           Some r \<Rightarrow> r
         | None \<Rightarrow>
        \<comment> \<open>6. core extraction\<close>
        (case matchCore cleanSku of
           Some core \<Rightarrow>
             (case map_of cat core of
                Some entry \<Rightarrow> getPriceFromItem entry tierId core ''Core Extraction''
              | None \<Rightarrow> None)
         | None \<Rightarrow> None))))))"

section \<open>The pricing calculator\<close>

subsection \<open>Rounding\<close>

definition mathRound :: "rat \<Rightarrow> rat" where
  \<comment> \<open>\<^verbatim>\<open>Math.round\<close>: the nearest integer, a half goes up\<close>
  "mathRound x = of_int \<lfloor>x + 1 / 2\<rfloor>"

text \<open>
  \<^verbatim>\<open>Number(x.toFixed(2))\<close> is the multiple of 0.01 nearest to the double \<open>x\<close>, a half going
  away from zero. The engine applies it to amounts that it has computed in doubles; the
  model has the exact amount. Where the exact amount is not half a cent between two
  multiples of 0.01, the result is the nearest one. Where it is, the double that the engine
  holds lies at the half cent or just beside it, and the engine returns one of the two
  neighbours: 58.65 times 0.5 is 29.325, and the engine returns 29.32. Which one it is
  depends on the computation that led to the amount, so it is an argument of the model:
  \<open>toFixed2 True\<close> takes the half away from zero, \<open>toFixed2 False\<close> towards zero.
\<close>

definition toFixed2 :: "bool \<Rightarrow> rat \<Rightarrow> rat" where
  "toFixed2 away x =
     (let a = \<bar>x\<bar> * 100; n = \<lfloor>a\<rfloor>
      in sgn x * of_int (if a - of_int n < 1 / 2 \<or> (a - of_int n = 1 / 2 \<and> \<not> away) then n else n + 1)
         / 100)"

definition toFixed0 :: "rat \<Rightarrow> string" where
  \<comment> \<open>\<^verbatim>\<open>x.toFixed(0)\<close>\<close>
  "toFixed0 x = (if x < 0 then ''-'' else []) @ showNat (nat \<lfloor>\<bar>x\<bar> + 1 / 2\<rfloor>)"

subsection \<open>The active options of a specification\<close>

definition specField :: "(ProjectSpecs \<Rightarrow> 'a option) \<Rightarrow> ProjectSpecs option \<Rightarrow> 'a option" where
  \<comment> \<open>\<^verbatim>\<open>s?.field\<close>\<close>
  "specField f s = (case s of Some sp \<Rightarrow> f sp | None \<Rightarrow> None)"

definition potentialOptionNames :: "ProjectSpecs option \<Rightarrow> string list" where
  "potentialOptionNames s =
     filter (\<lambda>val. val \<noteq> [] \<and> val \<noteq> ''None'' \<and> val \<noteq> ''Standard'' \<and> val \<noteq> ''No'')
       (List.map_filter (\<lambda>f. specField f s)
          [drawerBox, hingeType, woodSpecies, finishColor, glaze, finishOption1, finishOption2,
           printedEndOption, wallDoorOption, baseDoorOption]
        @ (case specField dynamicSelections s of Some ds \<Rightarrow> map snd ds | None \<Rightarrow> []))"

definition getOptionsForSpecs :: "Manufacturer \<Rightarrow> ProjectSpecs option \<Rightarrow> ManufacturerOption list" where
  "getOptionsForSpecs manufacturer s =
     (let opts = (case options manufacturer of Some os \<Rightarrow> os | None \<Rightarrow> []);
          checkboxOptions =
            filter (\<lambda>opt. case specField selectedOptions s of
                             Some sel \<Rightarrow> map_of sel (optId opt) = Some True
                           | None \<Rightarrow> False) opts;
          dropdownOptions =
            filter (\<lambda>opt. list_ex (\<lambda>name. toLowerCase name = toLowerCase (optName opt))
                             (potentialOptionNames s)) opts
      in checkboxOptions @
         filter (\<lambda>d. find (\<lambda>c. optId c = optId d) checkboxOptions = None) dropdownOptions)"

definition orElse :: "'a option \<Rightarrow> 'a option \<Rightarrow> 'a option" where
  "orElse a b = (case a of Some v \<Rightarrow> Some v | None \<Rightarrow> b)"

definition mergeSpecs :: "ProjectSpecs option \<Rightarrow> ProjectSpecs \<Rightarrow> ProjectSpecs" where
  \<comment> \<open>\<^verbatim>\<open>{ ...specs, ...roomSpecs[item.room] }\<close>: a field of the room wins\<close>
  "mergeSpecs g r =
     \<lparr>selectedOptions = orElse (selectedOptions r) (specField selectedOptions g),
      drawerBox = orElse (drawerBox r) (specField drawerBox g),
      hingeType = orElse (hingeType r) (specField hingeType g),
      woodSpecies = orElse (woodSpecies r) (specField woodSpecies g),
      finishColor = orElse (finishColor r) (specField finishColor g),
      glaze = orElse (glaze r) (specField glaze g),
      finishOption1 = orElse (finishOption1 r) (specField finishOption1 g),
      finishOption2 = orElse (finishOption2 r) (specField finishOption2 g),
      printedEndOption = orElse (printedEndOption r) (specField printedEndOption g),
      wallDoorOption = orElse (wallDoorOption r) (specField wallDoorOption g),
      baseDoorOption = orElse (baseDoorOption r) (specField baseDoorOption g),
      dynamicSelections = orElse (dynamicSelections r) (specField dynamicSelections g),
      priceGroup = orElse (priceGroup r) (specField priceGroup g)\<rparr>"

definition globalTierName :: "Manufacturer \<Rightarrow> string \<Rightarrow> ProjectSpecs option \<Rightarrow> string" where
  "globalTierName manufacturer tierId specs =
     (case orElse (find (\<lambda>t. tierIdOf t = tierId) (tiers manufacturer))
             (case tiers manufacturer of t # _ \<Rightarrow> Some t | [] \<Rightarrow> None) of
        Some globalTier \<Rightarrow> tierNameOf globalTier
      | None \<Rightarrow> strOr (specField priceGroup specs) ''Standard'')"

definition roomOverride :: "CabinetItem \<Rightarrow> (string \<times> ProjectSpecs) list option \<Rightarrow> ProjectSpecs option" where
  \<comment> \<open>\<^verbatim>\<open>item.room && roomSpecs && roomSpecs[item.room]\<close>\<close>
  "roomOverride item roomSpecs =
     (case (room item, roomSpecs) of
        (Some r, Some rs) \<Rightarrow> if r \<noteq> [] then map_of rs r else None
      | _ \<Rightarrow> None)"

definition effectiveSpecs :: "CabinetItem \<Rightarrow> ProjectSpecs option \<Rightarrow> (string \<times> ProjectSpecs) list option \<Rightarrow> ProjectSpecs option" where
  "effectiveSpecs item specs roomSpecs =
     (case roomOverride item roomSpecs of
        Some r \<Rightarrow> Some (mergeSpecs specs r)
      | None \<Rightarrow> specs)"

definition effectiveTierName :: "CabinetItem \<Rightarrow> Manufacturer \<Rightarrow> string \<Rightarrow> ProjectSpecs option \<Rightarrow> (string \<times> ProjectSpecs) list option \<Rightarrow> string" where
  "effectiveTierName item manufacturer tierId specs roomSpecs =
     (case roomOverride item roomSpecs of
        Some r \<Rightarrow>
          (if truthyStr (priceGroup (mergeSpecs specs r))
           then strOr (priceGroup (mergeSpecs specs r)) []
           else globalTierName manufacturer tierId specs)
      | None \<Rightarrow> globalTierName manufacturer tierId specs)"

definition activeOptions :: "CabinetItem \<Rightarrow> Manufacturer \<Rightarrow> ProjectSpecs option \<Rightarrow> (string \<times> ProjectSpecs) list option \<Rightarrow> ManufacturerOption list" where
  "activeOptions item manufacturer specs roomSpecs =
     getOptionsForSpecs manufacturer (effectiveSpecs item specs roomSpecs)"

subsection \<open>Modifications and fixed options\<close>

text \<open>The running sum \<^verbatim>\<open>optionsPrice\<close> and the log \<^verbatim>\<open>appliedOptionsLog\<close> are passed along as a
  pair.\<close>

type_synonym optState = "rat \<times> AppliedOption list"

definition applyModification :: "optState \<Rightarrow> Modification \<Rightarrow> optState" where
  "applyModification st m =
     (fst st + numOr (modPrice m) 0,
      snd st @ [\<lparr>appliedName = modDescription m, appliedPrice = numOr (modPrice m) 0,
                 sourceSection = ''PDF Extraction''\<rparr>])"

definition applies :: "CabinetItem \<Rightarrow> ManufacturerOption \<Rightarrow> bool" where
  "applies item opt \<longleftrightarrow>
     \<not> (optSection opt = ''E-Drawer'' \<and> itemType item \<noteq> ''Base'') \<and>
     \<not> (optSection opt = ''F-Hinge'' \<and> itemType item = ''Filler'') \<and>
     \<not> (optSection opt = ''F-Hinge'' \<and> itemType item = ''Panel'') \<and>
     \<not> (includesStr (toLowerCase (optName opt)) ''wall'' \<and> itemType item \<noteq> ''Wall'') \<and>
     \<not> (includesStr (toLowerCase (optName opt)) ''base'' \<and> itemType item \<noteq> ''Base'') \<and>
     \<not> (50 < length (optName opt) \<and> optPrice opt = 0)"

definition applyFixedOption :: "CabinetItem \<Rightarrow> optState \<Rightarrow> ManufacturerOption \<Rightarrow> optState" where
  "applyFixedOption item st opt =
     (if applies item opt then
        (let addPrice = (if pricingType opt = Fixed then optPrice opt else 0) in
         if 0 < addPrice \<or> (optPrice opt = 0 \<and> length (optName opt) < 50)
         then (fst st + addPrice,
               snd st @ [\<lparr>appliedName = optName opt, appliedPrice = addPrice,
                          sourceSection = optSection opt\<rparr>])
         else st)
      else st)"

subsection \<open>The five passes of the base price lookup\<close>

fun firstKeyMatch :: "string \<Rightarrow> catalog \<Rightarrow> string \<Rightarrow> string list \<Rightarrow> Match option" where
  \<comment> \<open>passes 2 and 3: the keys in order, strictly, the first hit tagged with its key\<close>
  "firstKeyMatch tag cat tier [] = None"
| "firstKeyMatch tag cat tier (key # keys) =
     (case findCatalogPrice key cat tier True of
        Some m \<Rightarrow> Some (m\<lparr>matchSource := ''Catalog ('' @ tag @ '' Match '' @ quoted key @ '')''\<rparr>)
      | None \<Rightarrow> firstKeyMatch tag cat tier keys)"

definition globalPrefixMatch :: "string \<Rightarrow> catalog \<Rightarrow> string \<Rightarrow> Match option" where
  \<comment> \<open>pass 5: the first catalog key that starts with the code and is at most 3 longer\<close>
  "globalPrefixMatch code cat tier =
     (let cleanSku = normalizeLookup code in
      if cleanSku \<noteq> [] \<and> cleanSku \<noteq> ''UNKNOWN'' then
        (case find (\<lambda>(k, entry). startsWith (normalizeLookup k) cleanSku \<and>
                                  length (normalizeLookup k) \<le> length cleanSku + 3) cat of
           Some (potentialMatch, entry) \<Rightarrow>
             if potentialMatch \<noteq> [] then
               getPriceFromItem entry tier potentialMatch
                 (''Catalog (Global Prefix Match '' @ quoted potentialMatch @ '')'')
             else None
         | None \<Rightarrow> None)
      else None)"

definition lookupBasePrice :: "CabinetItem \<Rightarrow> catalog \<Rightarrow> string \<Rightarrow> Match option" where
  "lookupBasePrice item cat tier =
     (case generateSmartKeys item of
        (exact, similar) \<Rightarrow>
          orElse (findCatalogPrice (originalCode item) cat tier True)
         (orElse (firstKeyMatch ''Exact'' cat tier exact)
         (orElse (firstKeyMatch ''Similar'' cat tier similar)
         (orElse (findCatalogPrice (originalCode item) cat tier False)
                 (globalPrefixMatch (originalCode item) cat tier)))))"

subsection \<open>Percentage options, cost and sell price\<close>

definition pctFraction :: "rat \<Rightarrow> rat" where
  \<comment> \<open>\<^verbatim>\<open>if (pct > 1) pct = pct / 100\<close>\<close>
  "pctFraction p = (if 1 < p then p / 100 else p)"

definition applyPercentageOption :: "rat \<Rightarrow> optState \<Rightarrow> ManufacturerOption \<Rightarrow> optState" where
  "applyPercentageOption base st opt =
     (if pricingType opt = Percentage then
        (let pct = pctFraction (optPrice opt); addPrice = base * pct in
         if 50 < length (optName opt) \<and> addPrice = 0 then st
         else (fst st + addPrice,
               snd st @ [\<lparr>appliedName = optName opt @ '' ('' @ toFixed0 (pct * 100) @ ''%)'',
                          appliedPrice = addPrice, sourceSection = optSection opt\<rparr>]))
      else st)"

definition roomFactor :: "CabinetItem \<Rightarrow> Manufacturer \<Rightarrow> Financials option \<Rightarrow> rat" where
  "roomFactor item manufacturer financials =
     (let globalFactor =
            numOr (case financials of Some f \<Rightarrow> pricingFactor f | None \<Rightarrow> None)
              (numOr (Some (basePricingMultiplier manufacturer)) 1);
          rf = (case (room item, financials) of
                  (Some r, Some f) \<Rightarrow>
                    (if r \<noteq> [] then
                       (case roomFactors f of Some rfs \<Rightarrow> map_of rfs r | None \<Rightarrow> None)
                     else None)
                | _ \<Rightarrow> None)
      in if truthyNum rf then numOr rf globalFactor else globalFactor)"

definition marginOf :: "Financials option \<Rightarrow> string \<Rightarrow> rat" where
  "marginOf financials effTierName =
     (case financials of
        None \<Rightarrow> 0
      | Some f \<Rightarrow>
          (let m = numOr (globalMargin f) 0 in
           case categoryMargins f of
             None \<Rightarrow> m
           | Some cms \<Rightarrow>
               (let tn = (if effTierName \<noteq> [] then effTierName else ''Standard'') in
                if truthyNum (map_of cms tn) then numOr (map_of cms tn) m else m)))"

definition marginDecimal :: "rat \<Rightarrow> rat" where
  "marginDecimal m = (if 1 < m then m / 100 else m)"

definition unitSell :: "rat \<Rightarrow> rat \<Rightarrow> rat" where
  "unitSell cost md = (if 1 \<le> md then cost else cost / (1 - md))"

subsection \<open>Pricing one item and the whole project\<close>

definition resolvedBase :: "CabinetItem \<Rightarrow> Match option \<Rightarrow> rat \<times> string \<times> string" where
  \<comment> \<open>\<^verbatim>\<open>basePrice\<close>, \<^verbatim>\<open>source\<close> and \<^verbatim>\<open>matchedSku\<close> after the lookup\<close>
  "resolvedBase item match =
     (case match of
        Some m \<Rightarrow> (price m, matchSource m, matchedSku m)
      | None \<Rightarrow>
          (case extractedPrice item of
             Some e \<Rightarrow>
               if 0 < e then (e, ''Extracted from PDF'', originalCode item)
               else (0, ''NOT FOUND'', originalCode item)
           | None \<Rightarrow> (0, ''NOT FOUND'', originalCode item)))"

record Pricing =
  pTier :: string
  pBase :: rat
  pSource :: string
  pSku :: string
  pOptions :: rat
  pLog :: "AppliedOption list"
  pFactor :: rat
  pCost :: rat
  pMargin :: rat
  pSell :: rat
  pTotal :: rat

definition fixedPhase :: "CabinetItem \<Rightarrow> ManufacturerOption list \<Rightarrow> optState" where
  \<comment> \<open>1. modifications, 2. manufacturer options\<close>
  "fixedPhase item opts =
     foldl (applyFixedOption item)
       (foldl applyModification (0, [])
          (case modifications item of Some ms \<Rightarrow> ms | None \<Rightarrow> []))
       opts"

definition computePricing ::
  "Manufacturer \<Rightarrow> string \<Rightarrow> ProjectSpecs option \<Rightarrow> Financials option \<Rightarrow>
   (string \<times> ProjectSpecs) list option \<Rightarrow> CabinetItem \<Rightarrow> Pricing" where
  \<comment> \<open>the local variables of the loop body at the point of \<^verbatim>\<open>results.push\<close>\<close>
  "computePricing manufacturer tierId specs financials roomSpecs item =
     (let effTier = effectiveTierName item manufacturer tierId specs roomSpecs;
          opts = activeOptions item manufacturer specs roomSpecs;
          st = fixedPhase item opts;
          \<comment> \<open>3. base price lookup\<close>
          match = lookupBasePrice item
                    (case catalogOf manufacturer of Some c \<Rightarrow> c | None \<Rightarrow> []) effTier
      in case resolvedBase item match of
           (base, src, sku) \<Rightarrow>
             (let \<comment> \<open>4. percentage options\<close>
                  st = foldl (applyPercentageOption base) st opts;
                  factor = roomFactor item manufacturer financials;
                  cost = (base + fst st) * factor;
                  md = marginDecimal (marginOf financials effTier);
                  sell = unitSell cost md
              in \<lparr>pTier = effTier, pBase = base, pSource = src, pSku = sku, pOptions = fst st,
                  pLog = snd st, pFactor = factor, pCost = cost, pMargin = md, pSell = sell,
                  pTotal = sell * quantity item\<rparr>))"

text \<open>
  The three amounts of an item that the engine rounds to cents, and the side that a half
  cent takes for each item and amount. In the guard branch of the sell price
  (\<^verbatim>\<open>unitSell = unitCost\<close>) the sell price is the very number that the unit cost is, so it
  is rounded as the unit cost is.
\<close>

datatype Amount = CostAmount | SellAmount | TotalAmount

type_synonym ties = "CabinetItem \<Rightarrow> Amount \<Rightarrow> bool"

definition priceItem ::
  "ties \<Rightarrow> Manufacturer \<Rightarrow> string \<Rightarrow> ProjectSpecs option \<Rightarrow> Financials option \<Rightarrow>
   (string \<times> ProjectSpecs) list option \<Rightarrow> CabinetItem \<Rightarrow> PricingLineItem" where
  \<comment> \<open>the object pushed on \<^verbatim>\<open>results\<close>: the item, with the computed fields\<close>
  "priceItem away manufacturer tierId specs financials roomSpecs item =
     (let p = computePricing manufacturer tierId specs financials roomSpecs item in
      CabinetItem.extend (item\<lparr>normalizedCode := pSku p\<rparr>)
        (PricingLineItem.fields (mathRound (pBase p)) (mathRound (pOptions p)) 1
           (toFixed2 (away item CostAmount) (pCost p))
           (toFixed2 (away item (if 1 \<le> pMargin p then CostAmount else SellAmount)) (pSell p))
           (toFixed2 (away item TotalAmount) (pTotal p)) (pFactor p)
           (pMargin p * 100) (if pTier p \<noteq> [] then pTier p else ''Standard'') (pSource p)
           (pLog p)))"

definition typePriority :: "string \<Rightarrow> int" where
  \<comment> \<open>\<^verbatim>\<open>typePriority[type || 'Base'] || 99\<close>\<close>
  "typePriority ty =
     (case map_of [(''Base'', 1), (''Wall'', 2), (''Tall'', 3), (''Panel'', 4), (''Filler'', 5),
                   (''Accessory'', 6), (''Modification'', 7)] (if ty \<noteq> [] then ty else ''Base'') of
        Some n \<Rightarrow> n | None \<Rightarrow> 99)"

definition compareItems :: "(string \<Rightarrow> string \<Rightarrow> int) \<Rightarrow> PricingLineItem \<Rightarrow> PricingLineItem \<Rightarrow> int" where
  "compareItems localeCompare a b =
     (if typePriority (itemType a) \<noteq> typePriority (itemType b)
      then typePriority (itemType a) - typePriority (itemType b)
      else localeCompare (originalCode a) (originalCode b))"

text \<open>
  \<^verbatim>\<open>Array.prototype.sort\<close> is stable; it is modelled by insertion from the right, where an
  element goes in front of the first element that it does not follow. The comparison of
  codes, \<^verbatim>\<open>localeCompare\<close> with numeric collation, belongs to the platform and is a
  parameter of the model.
\<close>

fun insertSorted :: "('a \<Rightarrow> 'a \<Rightarrow> int) \<Rightarrow> 'a \<Rightarrow> 'a list \<Rightarrow> 'a list" where
  "insertSorted cmp x [] = [x]"
| "insertSorted cmp x (y # ys) =
     (if cmp x y \<le> 0 then x # y # ys else y # insertSorted cmp x ys)"

definition sortWith :: "('a \<Rightarrow> 'a \<Rightarrow> int) \<Rightarrow> 'a list \<Rightarrow> 'a list" where
  "sortWith cmp xs = foldr (insertSorted cmp) xs []"

definition calculateProjectPricing ::
  "(string \<Rightarrow> string \<Rightarrow> int) \<Rightarrow> ties \<Rightarrow> CabinetItem list \<Rightarrow> Manufacturer \<Rightarrow> string \<Rightarrow>
   ProjectSpecs option \<Rightarrow> Financials option \<Rightarrow> (string \<times> ProjectSpecs) list option \<Rightarrow>
   PricingLineItem list" where
  "calculateProjectPricing localeCompare away items manufacturer tierId specs financials roomSpecs =
     sortWith (compareItems localeCompare)
       (map (priceItem away manufacturer tierId specs financials roomSpecs)
          (filter (\<lambda>item. \<not> isGarbageItem item) items))"

section \<open>Inputs and predicates of the properties\<close>

text \<open>The manufacturer and the items of the two pricing scripts of the repository
  (\<^verbatim>\<open>mockMfg\<close> with its single tier, the items B15 and VDB24AH-3, the option
  \<^verbatim>\<open>Finish: Painted\<close>), with the catalog and the options left open; further inputs in
  their style; and the predicates that the properties below are stated with.\<close>

definition mockMfg :: "catalog \<Rightarrow> ManufacturerOption list \<Rightarrow> Manufacturer" where
  "mockMfg cat opts =
     \<lparr>basePricingMultiplier = 1,
      tiers = [\<lparr>tierIdOf = ''standard'', tierNameOf = ''Standard''\<rparr>],
      options = Some opts, catalogOf = Some cat\<rparr>"

definition baseItem :: "string \<Rightarrow> string \<Rightarrow> rat \<Rightarrow> CabinetItem" where
  \<comment> \<open>a base cabinet 15 wide, as the first item of the scripts, with a code, a description
     and a quantity\<close>
  "baseItem code descr qty =
     \<lparr>itemId = ''1'', originalCode = code, normalizedCode = code, itemType = ''Base'',
      description = descr, width = 15, height = 69 / 2, depth = 24, quantity = qty,
      room = None, modifications = Some [], extractedPrice = None\<rparr>"

definition vanityItem :: CabinetItem where
  "vanityItem =
     \<lparr>itemId = ''4'', originalCode = ''VDB24AH-3'', normalizedCode = ''VDB24AH-3'',
      itemType = ''Base'', description = ''Vanity'', width = 24, height = 69 / 2, depth = 21,
      quantity = 1, room = None, modifications = Some [], extractedPrice = None\<rparr>"

definition vanityCatalog :: catalog where
  "vanityCatalog = [(''VDB24'', [(''Standard'', 400)]), (''VDB24-3'', [(''Standard'', 450)])]"

definition paintedFinish :: ManufacturerOption where
  "paintedFinish =
     \<lparr>optId = ''opt-1'', optName = ''Finish: Painted'', optSection = ''D-Finish'',
      pricingType = Percentage, optPrice = 15\<rparr>"

definition noSpecs :: ProjectSpecs where
  "noSpecs =
     \<lparr>selectedOptions = None, drawerBox = None, hingeType = None, woodSpecies = None,
      finishColor = None, glaze = None, finishOption1 = None, finishOption2 = None,
      printedEndOption = None, wallDoorOption = None, baseDoorOption = None,
      dynamicSelections = None, priceGroup = None\<rparr>"

definition keepOrder :: "string \<Rightarrow> string \<Rightarrow> int" where
  \<comment> \<open>a comparison of codes that leaves every pair in place\<close>
  "keepOrder a b = 0"

definition halfUp :: ties where
  \<comment> \<open>every half cent goes away from zero, as it does for the exact amount\<close>
  "halfUp item amount = True"

definition financialsOf :: "rat option \<Rightarrow> rat option \<Rightarrow> Financials" where
  \<comment> \<open>financial parameters with a pricing factor and a global margin only\<close>
  "financialsOf factor gm =
     \<lparr>pricingFactor = factor, roomFactors = None, globalMargin = gm, categoryMargins = None\<rparr>"

definition totalIsRoundedProduct :: "PricingLineItem \<Rightarrow> bool" where
  \<comment> \<open>the invariant in the words of the specification:
     \<^verbatim>\<open>totalPrice == round(finalUnitPrice * quantity, 2)\<close>, with either neighbour for a half cent\<close>
  "totalIsRoundedProduct li \<longleftrightarrow>
     totalPrice li = toFixed2 True (finalUnitPrice li * quantity li) \<or>
     totalPrice li = toFixed2 False (finalUnitPrice li * quantity li)"

definition sellIsCostOverMargin :: "PricingLineItem \<Rightarrow> bool" where
  \<comment> \<open>the sell price in the words of the specification, on the fields of a line item:
     \<^verbatim>\<open>finalUnitPrice = unitCost\<close> if the margin fraction is at least 1, and
     \<^verbatim>\<open>finalUnitPrice = unitCost / (1 - marginFraction)\<close> otherwise, up to the rounding of
     the quotient to cents\<close>
  "sellIsCostOverMargin li \<longleftrightarrow>
     (let mf = margin li / 100 in
      if 1 \<le> mf then finalUnitPrice li = unitCost li
      else \<bar>finalUnitPrice li - unitCost li / (1 - mf)\<bar> \<le> 1 / 200)"

definition specsWithFinish :: "string \<Rightarrow> ProjectSpecs" where
  \<comment> \<open>the specification of the option script: only a finish color is chosen\<close>
  "specsWithFinish name = noSpecs\<lparr>finishColor := Some name\<rparr>"

definition basePriceIsExtracted :: "CabinetItem \<Rightarrow> PricingLineItem \<Rightarrow> bool" where
  \<comment> \<open>the fallback in the words of the specification, for an item without a match\<close>
  "basePriceIsExtracted item li \<longleftrightarrow>
     (if truthyNum (extractedPrice item) \<and> 0 < numOr (extractedPrice item) 0
      then basePrice li = numOr (extractedPrice item) 0 \<and> source li = ''Extracted from PDF''
      else basePrice li = 0 \<and> source li = ''NOT FOUND'')"

definition normalizedCodeIsDerived :: "PricingLineItem \<Rightarrow> bool" where
  \<comment> \<open>the invariant in the words of the specification\<close>
  "normalizedCodeIsDerived li \<longleftrightarrow> normalizedCode li = normalizeNKBACode (originalCode li)"

definition wallItem :: CabinetItem where
  \<comment> \<open>a wall cabinet, 30 wide and 30 high\<close>
  "wallItem =
     \<lparr>itemId = ''5'', originalCode = ''W3030'', normalizedCode = ''W3030'', itemType = ''Wall'',
      description = ''Wall 30'', width = 30, height = 30, depth = 12, quantity = 1,
      room = None, modifications = Some [], extractedPrice = None\<rparr>"

definition baseDoorUpgrade :: ManufacturerOption where
  \<comment> \<open>a percentage option that the rules for fixed options keep away from a wall cabinet\<close>
  "baseDoorUpgrade =
     \<lparr>optId = ''opt-2'', optName = ''Base Door Upgrade'', optSection = ''E-Drawer'',
      pricingType = Percentage, optPrice = 10\<rparr>"

definition specsSelecting :: "string \<Rightarrow> ProjectSpecs" where
  \<comment> \<open>a specification with one option ticked\<close>
  "specsSelecting i = noSpecs\<lparr>selectedOptions := Some [(i, True)]\<rparr>"

definition plainCode :: "string \<Rightarrow> bool" where
  \<comment> \<open>capital letters followed by digits, with none of the patterns that the normalizer
     rewrites: no TD or ROT among the letters, no leading DHW, no 0 or 10 in front of a
     two-digit size\<close>
  "plainCode s \<longleftrightarrow>
     (case spanC isUpper s of
        (ls, ds) \<Rightarrow>
          ls \<noteq> [] \<and> ds \<noteq> [] \<and> list_all isDigit ds \<and>
          \<not> includesStr ls ''TD'' \<and> \<not> includesStr ls ''ROT'' \<and> \<not> startsWith ls ''DHW'' \<and>
          (startsWith ds ''0'' \<and> length ds < 3 \<or> startsWith ds ''10'' \<and> length ds < 4 \<or>
           \<not> startsWith ds ''0'' \<and> \<not> startsWith ds ''10''))"

text \<open>The shape of a plain code and of its suffixes: letters \<open>u\<close>, then digits \<open>v\<close>.\<close>

definition lettersDigits :: "string \<Rightarrow> string \<Rightarrow> bool" where
  "lettersDigits u v \<longleftrightarrow> (\<forall>c \<in> set u. isUpper c) \<and> (\<forall>c \<in> set v. isDigit c)"

text \<open>
  The normalizer as the list of its rewriting steps, in the order of the source; a code is
  settled when no step, applied to it on its own, changes it.
\<close>

definition normalizerSteps :: "(string \<Rightarrow> string) list" where
  "normalizerSteps =
     [toUpperCase, trim,
      replaceAll (lit ''$'' ''B''),
      replaceAll (lit [CHR 0xE2, CHR 0x82, CHR 0xAC] ''E''),
      replaceAll (lit ''@'' ''0''),
      replaceAll (reSpaces '' ''), trim,
      replaceAll reLetterSpaceDigit,
      (\<lambda>code. if testLettersThenDigits ''10'' code
              then replaceFirst (reLettersThenDigits ''10'') code else code),
      (\<lambda>code. if testLettersThenDigits ''0'' code
              then replaceFirst (reLettersThenDigits ''0'') code else code),
      replaceFirst (atEnd [''-2B'', ''2B''] []),
      replaceFirst (atEnd [''(L)'', ''(R)''] []),
      replaceAll reDepthNotation,
      replaceAll reTrayDivider,
      replaceAll (lit ''ROT'' []),
      removeDotsNotAfterDigit None, removeDotsNotBeforeDigit,
      replaceFirst (reConstruction ''AH''),
      replaceFirst (reConstruction ''VH''),
      replaceFirst (reConstruction ''PH''),
      replaceFirst (atEnd [''HD''] []),
      (\<lambda>code. if startsWith code ''DHW'' then replaceFirst (lit ''DHW'' ''DW'') code else code),
      (\<lambda>code. if (\<exists>d \<in> set ''0123456789''. endsWith code [d, CHR ''L''] \<or>
                     endsWith code [d, CHR ''R''] \<or> endsWith code [d, CHR ''-'', CHR ''L''] \<or>
                     endsWith code [d, CHR ''-'', CHR ''R''])
              then replaceFirst (atEnd [''-L'', ''-R'', ''L'', ''R''] []) code else code),
      replaceFirst (atEnd [''-LH'', ''LH''] []),
      replaceFirst (atEnd [''-RH'', ''RH''] []),
      replaceFirst (atEnd [''-FEL'', ''-FER'', ''-FE'', ''FEL'', ''FER'', ''FE''] []),
      replaceFirst (atEnd [''-FE'', ''FE''] [])]"

definition settled :: "string \<Rightarrow> bool" where
  "settled s \<longleftrightarrow> list_all (\<lambda>step. step s = s) normalizerSteps"

text \<open>
  A measure that no step raises and that every step lowers when it changes the text: each
  character counts 1, and 2 if a step replaces it by another character (a lower-case
  letter, \<^verbatim>\<open>$\<close>, \<^verbatim>\<open>@\<close>, white space other than the space). A matcher is shrinking when each
  of its replacements is the matched text itself or lighter than it, strict when each is
  lighter, and consuming when each of its matches has at least one character.
\<close>

definition charWeight :: "char \<Rightarrow> nat" where
  "charWeight c =
     (if c \<in> set ''abcdefghijklmnopqrstuvwxyz$@'' \<or> (isSpace c \<and> c \<noteq> CHR '' '') then 2 else 1)"

definition textWeight :: "string \<Rightarrow> nat" where
  "textWeight s = sum_list (map charWeight s)"

definition lowering :: "(string \<Rightarrow> string) \<Rightarrow> bool" where
  "lowering g \<longleftrightarrow>
     (\<forall>s. textWeight (g s) \<le> textWeight s \<and> (textWeight (g s) = textWeight s \<longrightarrow> g s = s))"

definition shrinking :: "matcher \<Rightarrow> bool" where
  "shrinking m \<longleftrightarrow>
     (\<forall>t n r. m t = Some (n, r) \<longrightarrow>
        r = take n t \<or> textWeight r < textWeight (take n t))"

definition consuming :: "matcher \<Rightarrow> bool" where
  "consuming m \<longleftrightarrow> (\<forall>t n r. m t = Some (n, r) \<longrightarrow> 0 < n)"

definition strict :: "matcher \<Rightarrow> bool" where
  "strict m \<longleftrightarrow> (\<forall>t n r. m t = Some (n, r) \<longrightarrow> textWeight r < textWeight (take n t))"

section \<open>Properties\<close>

subsection \<open>The result list\<close>

lemma set_insertSorted: "set (insertSorted cmp x ys) = insert x (set ys)"
  by (induction ys) auto

lemma length_insertSorted: "length (insertSorted cmp x ys) = Suc (length ys)"
  by (induction ys) auto

lemma set_sortWith: "set (sortWith cmp xs) = set xs"
  unfolding sortWith_def by (induction xs) (auto simp: set_insertSorted)

lemma length_sortWith: "length (sortWith cmp xs) = length xs"
  unfolding sortWith_def by (induction xs) (auto simp: length_insertSorted)

lemma set_calculateProjectPricing:
  "set (calculateProjectPricing lc up items m t s f r) =
   priceItem up m t s f r ` {item \<in> set items. \<not> isGarbageItem item}"
  by (simp add: calculateProjectPricing_def set_sortWith)

lemma length_calculateProjectPricing:
  "length (calculateProjectPricing lc up items m t s f r) =
   length (filter (\<lambda>item. \<not> isGarbageItem item) items)"
  by (simp add: calculateProjectPricing_def length_sortWith)

lemma priceItem_item_fields:
  "itemId (priceItem up m t s f r item) = itemId item"
  "originalCode (priceItem up m t s f r item) = originalCode item"
  "quantity (priceItem up m t s f r item) = quantity item"
  "itemType (priceItem up m t s f r item) = itemType item"
  by (simp_all add: priceItem_def Let_def CabinetItem.defs PricingLineItem.defs)

lemma priceItem_computed_fields:
  "normalizedCode (priceItem up m t s f r item) = pSku (computePricing m t s f r item)"
  "basePrice (priceItem up m t s f r item) = mathRound (pBase (computePricing m t s f r item))"
  "optionsPrice (priceItem up m t s f r item) = mathRound (pOptions (computePricing m t s f r item))"
  "unitCost (priceItem up m t s f r item) =
     toFixed2 (up item CostAmount) (pCost (computePricing m t s f r item))"
  "finalUnitPrice (priceItem up m t s f r item) =
     toFixed2 (up item (if 1 \<le> pMargin (computePricing m t s f r item) then CostAmount else SellAmount))
       (pSell (computePricing m t s f r item))"
  "totalPrice (priceItem up m t s f r item) =
     toFixed2 (up item TotalAmount) (pTotal (computePricing m t s f r item))"
  "linePricingFactor (priceItem up m t s f r item) = pFactor (computePricing m t s f r item)"
  "margin (priceItem up m t s f r item) = pMargin (computePricing m t s f r item) * 100"
  "source (priceItem up m t s f r item) = pSource (computePricing m t s f r item)"
  "appliedOptions (priceItem up m t s f r item) = pLog (computePricing m t s f r item)"
  by (simp_all add: priceItem_def Let_def CabinetItem.defs PricingLineItem.defs)

subsection \<open>What a line item holds\<close>

lemma computePricing_fields:
  fixes m t s f r item
  defines "p \<equiv> computePricing m t s f r item"
  shows "pTier p = effectiveTierName item m t s r"
    and "(pBase p, pSource p, pSku p) =
           resolvedBase item (lookupBasePrice item (case catalogOf m of Some c \<Rightarrow> c | None \<Rightarrow> []) (pTier p))"
    and "pOptions p = fst (foldl (applyPercentageOption (pBase p))
                             (fixedPhase item (activeOptions item m s r)) (activeOptions item m s r))"
    and "pLog p = snd (foldl (applyPercentageOption (pBase p))
                             (fixedPhase item (activeOptions item m s r)) (activeOptions item m s r))"
    and "pFactor p = roomFactor item m f"
    and "pCost p = (pBase p + pOptions p) * pFactor p"
    and "pMargin p = marginDecimal (marginOf f (pTier p))"
    and "pSell p = unitSell (pCost p) (pMargin p)"
    and "pTotal p = pSell p * quantity item"
  unfolding p_def by (simp_all add: computePricing_def Let_def split: prod.splits)

subsection \<open>Garbage items\<close>

lemma toUpperCase_append: "toUpperCase (a @ b) = toUpperCase a @ toUpperCase b"
  by (simp add: toUpperCase_def)

lemma includesStr_appendI: "includesStr b w \<Longrightarrow> includesStr (a @ b) w"
  unfolding includesStr_def sublist_def by (metis append.assoc)

lemma includesStr_prefixI: "includesStr (w @ b) w"
  unfolding includesStr_def by simp

lemma includesStr_toUpperCase:
  "includesStr d w \<Longrightarrow> includesStr (toUpperCase d) (toUpperCase w)"
  unfolding includesStr_def toUpperCase_def by (rule map_mono_sublist)

lemma garbage_badWord:
  "w \<in> set badWords \<Longrightarrow>
   includesStr (toUpperCase (originalCode it @ '' '' @ description it)) w \<Longrightarrow> isGarbageItem it"
  by (auto simp: isGarbageItem_def Let_def list_ex_iff)

lemma garbage_subtotal: "originalCode it = ''SUBTOTAL'' \<Longrightarrow> isGarbageItem it"
proof -
  assume h: "originalCode it = ''SUBTOTAL''"
  have u: "toUpperCase ''SUBTOTAL'' = ''SUBTOTAL''" by code_simp
  have "includesStr (toUpperCase (originalCode it @ '' '' @ description it)) ''SUBTOTAL''"
    unfolding h toUpperCase_append u by (rule includesStr_prefixI)
  moreover have "''SUBTOTAL'' \<in> set badWords" by (simp add: badWords_def)
  ultimately show ?thesis by (rule garbage_badWord[rotated])
qed

lemma garbage_grand_total:
  assumes "includesStr (description it) ''Grand Total''"
  shows "isGarbageItem it"
proof -
  have u: "toUpperCase ''Grand Total'' = ''GRAND TOTAL''" by code_simp
  have "includesStr (toUpperCase (description it)) ''GRAND TOTAL''"
    using includesStr_toUpperCase[OF assms] by (simp only: u)
  then have "includesStr (toUpperCase (originalCode it @ '' '' @ description it)) ''GRAND TOTAL''"
    unfolding toUpperCase_append by (intro includesStr_appendI)
  moreover have "''GRAND TOTAL'' \<in> set badWords" by (simp add: badWords_def)
  ultimately show ?thesis by (rule garbage_badWord[rotated])
qed

text \<open>
  Claim C9: an item that the garbage filter flags, such as one with the original code
  \<^verbatim>\<open>SUBTOTAL\<close> or with a description that contains \<^verbatim>\<open>Grand Total\<close>, adds nothing to the
  result: the result is the same as without the item. Every line item of the result is the
  priced form of an input item that the filter let through, so the result is never longer
  than the input.
\<close>

theorem garbage_items_are_dropped:
  "(originalCode it = ''SUBTOTAL'' \<or> includesStr (description it) ''Grand Total''
      \<longrightarrow> isGarbageItem it) \<and>
   (isGarbageItem it \<longrightarrow>
      calculateProjectPricing lc up (xs @ it # ys) m t s f r =
      calculateProjectPricing lc up (xs @ ys) m t s f r) \<and>
   (\<forall>li \<in> set (calculateProjectPricing lc up items m t s f r).
      \<exists>item \<in> set items. \<not> isGarbageItem item \<and> li = priceItem up m t s f r item) \<and>
   length (calculateProjectPricing lc up items m t s f r) \<le> length items"
proof (intro conjI)
  show "originalCode it = ''SUBTOTAL'' \<or> includesStr (description it) ''Grand Total''
      \<longrightarrow> isGarbageItem it"
    using garbage_subtotal garbage_grand_total by blast
  show "isGarbageItem it \<longrightarrow>
      calculateProjectPricing lc up (xs @ it # ys) m t s f r =
      calculateProjectPricing lc up (xs @ ys) m t s f r"
    by (simp add: calculateProjectPricing_def)
  show "\<forall>li \<in> set (calculateProjectPricing lc up items m t s f r).
      \<exists>item \<in> set items. \<not> isGarbageItem item \<and> li = priceItem up m t s f r item"
    by (auto simp: set_calculateProjectPricing)
  show "length (calculateProjectPricing lc up items m t s f r) \<le> length items"
    by (simp add: length_calculateProjectPricing)
qed

theorem garbage_items_are_dropped_witness:
  "isGarbageItem (baseItem ''SUBTOTAL'' ''Cabinets'' 1) \<and>
   isGarbageItem (baseItem ''B15'' ''Grand Total'' 1) \<and>
   calculateProjectPricing keepOrder halfUp
     ([baseItem ''B15'' ''Base 15'' 1] @ baseItem ''SUBTOTAL'' ''Cabinets'' 1 # [])
     (mockMfg [(''B15'', [(''Standard'', 200)])] []) ''standard'' None None None =
   calculateProjectPricing keepOrder halfUp ([baseItem ''B15'' ''Base 15'' 1] @ [])
     (mockMfg [(''B15'', [(''Standard'', 200)])] []) ''standard'' None None None \<and>
   length (calculateProjectPricing keepOrder halfUp
     [baseItem ''B15'' ''Base 15'' 1, baseItem ''SUBTOTAL'' ''Cabinets'' 1]
     (mockMfg [(''B15'', [(''Standard'', 200)])] []) ''standard'' None None None) \<le> 2"
proof -
  have a: "originalCode (baseItem ''SUBTOTAL'' ''Cabinets'' 1) = ''SUBTOTAL''"
    by (simp add: baseItem_def)
  have b: "includesStr (description (baseItem ''B15'' ''Grand Total'' 1)) ''Grand Total''"
    by (simp add: baseItem_def includesStr_def)
  note g = garbage_items_are_dropped[of "baseItem ''SUBTOTAL'' ''Cabinets'' 1" keepOrder halfUp
      "[baseItem ''B15'' ''Base 15'' 1]" "[]" "mockMfg [(''B15'', [(''Standard'', 200)])] []"
      "''standard''" None None None
      "[baseItem ''B15'' ''Base 15'' 1, baseItem ''SUBTOTAL'' ''Cabinets'' 1]"]
  note g2 = garbage_items_are_dropped[of "baseItem ''B15'' ''Grand Total'' 1"]
  from g a have 1: "isGarbageItem (baseItem ''SUBTOTAL'' ''Cabinets'' 1)" by blast
  from g2 b have 2: "isGarbageItem (baseItem ''B15'' ''Grand Total'' 1)" by blast
  from g 1 have 3: "calculateProjectPricing keepOrder halfUp
     ([baseItem ''B15'' ''Base 15'' 1] @ baseItem ''SUBTOTAL'' ''Cabinets'' 1 # [])
     (mockMfg [(''B15'', [(''Standard'', 200)])] []) ''standard'' None None None =
   calculateProjectPricing keepOrder halfUp ([baseItem ''B15'' ''Base 15'' 1] @ [])
     (mockMfg [(''B15'', [(''Standard'', 200)])] []) ''standard'' None None None"
    by blast
  from g have 4: "length (calculateProjectPricing keepOrder halfUp
     [baseItem ''B15'' ''Base 15'' 1, baseItem ''SUBTOTAL'' ''Cabinets'' 1]
     (mockMfg [(''B15'', [(''Standard'', 200)])] []) ''standard'' None None None) \<le> 2"
    by simp
  from 1 2 3 4 show ?thesis by blast
qed

subsection \<open>The total price\<close>

lemma toFixed2_error: "\<bar>toFixed2 away x - x\<bar> \<le> 1 / 200"
proof -
  define a where "a = \<bar>x\<bar> * 100"
  define n where "n = \<lfloor>a\<rfloor>"
  define k where "k = (if a - of_int n < 1 / 2 \<or> (a - of_int n = 1 / 2 \<and> \<not> away) then n else n + 1)"
  have lo: "of_int n \<le> a" unfolding n_def by (rule of_int_floor_le)
  have hi: "a < of_int n + 1" unfolding n_def by linarith
  have "\<bar>of_int k - a\<bar> \<le> 1 / 2"
    unfolding k_def using lo hi by (auto simp: abs_le_iff)
  moreover have "of_int k / 100 - \<bar>x\<bar> = (of_int k - a) / 100"
    unfolding a_def by (simp add: diff_divide_distrib)
  ultimately have e: "\<bar>of_int k / 100 - \<bar>x\<bar>\<bar> \<le> 1 / 200"
    by (simp only: abs_divide) simp
  have x: "x = sgn x * \<bar>x\<bar>" by (simp add: sgn_mult_abs)
  have t: "toFixed2 away x = sgn x * (of_int k / 100)"
    by (simp add: toFixed2_def Let_def k_def n_def a_def)
  have "toFixed2 away x - x = sgn x * (of_int k / 100 - \<bar>x\<bar>)"
    by (simp only: t right_diff_distrib x[symmetric])
  then have "\<bar>toFixed2 away x - x\<bar> = \<bar>sgn x\<bar> * \<bar>of_int k / 100 - \<bar>x\<bar>\<bar>" by (simp add: abs_mult)
  also have "\<dots> \<le> 1 * \<bar>of_int k / 100 - \<bar>x\<bar>\<bar>"
    by (rule mult_right_mono) (auto simp: abs_sgn_eq)
  finally show ?thesis using e by simp
qed

text \<open>Two amounts rounded to cents, one the quotient of the other by \<open>d\<close> before the
  rounding.\<close>

lemma cents_quotient_bound:
  fixes c d u v :: rat
  assumes d: "0 < d" and v: "\<bar>v - c / d\<bar> \<le> 1 / 200" and u: "\<bar>c - u\<bar> \<le> 1 / 200"
  shows "\<bar>v - u / d\<bar> \<le> (1 + 1 / d) / 200"
proof -
  have "\<bar>v - u / d\<bar> \<le> \<bar>v - c / d\<bar> + \<bar>(c - u) / d\<bar>"
    by (simp add: diff_divide_distrib)
  also have "\<dots> \<le> 1 / 200 + (1 / 200) / d"
  proof (rule add_mono)
    show "\<bar>v - c / d\<bar> \<le> 1 / 200" by (rule v)
    from u have "\<bar>c - u\<bar> / d \<le> (1 / 200) / d"
      using d by (intro divide_right_mono) simp_all
    then show "\<bar>(c - u) / d\<bar> \<le> (1 / 200) / d"
      using d by (simp only: abs_divide abs_of_pos)
  qed
  also have "\<dots> = (1 + 1 / d) / 200"
    by (simp add: add_divide_distrib)
  finally show ?thesis .
qed

text \<open>
  Claim C2: \<open>totalPrice\<close> is \<open>finalUnitPrice\<close> times the quantity, rounded to cents. The
  handlers of the quotation view that change the quantity or the price of a line
  (\<^verbatim>\<open>handleBOMUpdate\<close>) set \<^verbatim>\<open>item.totalPrice = item.finalUnitPrice * item.quantity\<close>. The
  engine does not keep to that: it multiplies the sell price before it is rounded. For
  three cabinets at list price 10 and a margin of 35 percent the sell price is 15.3846...,
  so the engine returns 15.38 for \<open>finalUnitPrice\<close> and 46.15 for \<open>totalPrice\<close>, where
  three times 15.38 is 46.14. No amount of this input is half a cent between two cents.
\<close>

theorem total_price_at_failing_input:
  "map finalUnitPrice
     (calculateProjectPricing keepOrder halfUp [baseItem ''B15'' ''Base 15'' 3]
        (mockMfg [(''B15'', [(''Standard'', 10)])] []) ''standard'' None
        (Some (financialsOf None (Some 35))) None) = [1538 / 100] \<and>
   map quantity
     (calculateProjectPricing keepOrder halfUp [baseItem ''B15'' ''Base 15'' 3]
        (mockMfg [(''B15'', [(''Standard'', 10)])] []) ''standard'' None
        (Some (financialsOf None (Some 35))) None) = [3] \<and>
   map totalPrice
     (calculateProjectPricing keepOrder halfUp [baseItem ''B15'' ''Base 15'' 3]
        (mockMfg [(''B15'', [(''Standard'', 10)])] []) ''standard'' None
        (Some (financialsOf None (Some 35))) None) = [4615 / 100] \<and>
   \<not> list_all totalIsRoundedProduct
       (calculateProjectPricing keepOrder halfUp [baseItem ''B15'' ''Base 15'' 3]
          (mockMfg [(''B15'', [(''Standard'', 10)])] []) ''standard'' None
          (Some (financialsOf None (Some 35))) None)"
proof (intro conjI)
  show "map finalUnitPrice
     (calculateProjectPricing keepOrder halfUp [baseItem ''B15'' ''Base 15'' 3]
        (mockMfg [(''B15'', [(''Standard'', 10)])] []) ''standard'' None
        (Some (financialsOf None (Some 35))) None) = [1538 / 100]"
    by code_simp
  show "map quantity
     (calculateProjectPricing keepOrder halfUp [baseItem ''B15'' ''Base 15'' 3]
        (mockMfg [(''B15'', [(''Standard'', 10)])] []) ''standard'' None
        (Some (financialsOf None (Some 35))) None) = [3]"
    by code_simp
  show "map totalPrice
     (calculateProjectPricing keepOrder halfUp [baseItem ''B15'' ''Base 15'' 3]
        (mockMfg [(''B15'', [(''Standard'', 10)])] []) ''standard'' None
        (Some (financialsOf None (Some 35))) None) = [4615 / 100]"
    by code_simp
  show "\<not> list_all totalIsRoundedProduct
       (calculateProjectPricing keepOrder halfUp [baseItem ''B15'' ''Base 15'' 3]
          (mockMfg [(''B15'', [(''Standard'', 10)])] []) ''standard'' None
          (Some (financialsOf None (Some 35))) None)"
    by code_simp
qed

subsection \<open>Percentage options\<close>

lemma fst_applyPercentageOption:
  "fst (applyPercentageOption base st opt) =
   fst st + (if pricingType opt = Percentage then base * pctFraction (optPrice opt) else 0)"
  by (simp add: applyPercentageOption_def Let_def)

lemma fst_foldl_applyPercentageOption:
  "fst (foldl (applyPercentageOption base) st opts) =
   fst st + (\<Sum>opt\<leftarrow>filter (\<lambda>x. pricingType x = Percentage) opts.
               base * pctFraction (optPrice opt))"
  by (induction opts arbitrary: st) (simp_all add: fst_applyPercentageOption)

text \<open>
  Claim C3: a percentage option adds the resolved base price times \<open>p\<close> to the running
  \<open>optionsPrice\<close>, where \<open>p\<close> is the stored price if that is at most 1 and a hundredth of
  it otherwise (an option with a long name and a surcharge of 0 is skipped, which adds the
  same 0). Over the loop, the options price of an item is what the modifications and fixed
  options gave plus the sum of these amounts over the active percentage options. With the
  stored value 15 and the base price 200 the option of the repository's script adds 30,
  and the line item of B15 at list price 200 has the options price 30.
\<close>

theorem percentage_option_amount:
  "fst (applyPercentageOption base st opt) =
     fst st + (if pricingType opt = Percentage
               then base * (if optPrice opt \<le> 1 then optPrice opt else optPrice opt / 100)
               else 0) \<and>
   pOptions (computePricing m t s f r item) =
     fst (fixedPhase item (activeOptions item m s r)) +
     (\<Sum>opt\<leftarrow>filter (\<lambda>x. pricingType x = Percentage) (activeOptions item m s r).
        pBase (computePricing m t s f r item) *
        (if optPrice opt \<le> 1 then optPrice opt else optPrice opt / 100)) \<and>
   fst (applyPercentageOption 200 (0, []) paintedFinish) = 30 \<and>
   map optionsPrice
     (calculateProjectPricing lc up [baseItem ''B15'' ''Base 15'' 1]
        (mockMfg [(''B15'', [(''Standard'', 200)])] [paintedFinish]) ''standard''
        (Some (specsWithFinish ''Finish: Painted'')) None None) = [30]"
proof (intro conjI)
  have p: "pctFraction x = (if x \<le> 1 then x else x / 100)" for x
    by (simp add: pctFraction_def)
  show "fst (applyPercentageOption base st opt) =
     fst st + (if pricingType opt = Percentage
               then base * (if optPrice opt \<le> 1 then optPrice opt else optPrice opt / 100)
               else 0)"
    by (simp only: fst_applyPercentageOption p)
  show "pOptions (computePricing m t s f r item) =
     fst (fixedPhase item (activeOptions item m s r)) +
     (\<Sum>opt\<leftarrow>filter (\<lambda>x. pricingType x = Percentage) (activeOptions item m s r).
        pBase (computePricing m t s f r item) *
        (if optPrice opt \<le> 1 then optPrice opt else optPrice opt / 100))"
    by (simp only: computePricing_fields(3) fst_foldl_applyPercentageOption p)
  show "fst (applyPercentageOption 200 (0, []) paintedFinish) = 30"
    by code_simp
  show "map optionsPrice
     (calculateProjectPricing lc up [baseItem ''B15'' ''Base 15'' 1]
        (mockMfg [(''B15'', [(''Standard'', 200)])] [paintedFinish]) ''standard''
        (Some (specsWithFinish ''Finish: Painted'')) None None) = [30]"
    by code_simp
qed

subsection \<open>Margin and sell price\<close>

text \<open>
  Claim C4, as stated: \<open>finalUnitPrice\<close> is \<open>unitCost\<close> divided by one minus the margin
  fraction. On the fields of a line item this fails, also when the quotient is rounded to
  cents: the engine divides the unit cost before it is rounded. With the factor 0.45 and
  the margin 35, a list price of 10.01 gives the unit cost 4.5045, so \<open>unitCost\<close> is 4.50
  and \<open>finalUnitPrice\<close> is 6.93, where 4.50 / 0.65 is 6.923... No amount of this input is
  half a cent between two cents.
\<close>

theorem sell_price_counterexample:
  "\<not> list_all sellIsCostOverMargin
       (calculateProjectPricing keepOrder halfUp [baseItem ''B15'' ''Base 15'' 1]
          (mockMfg [(''B15'', [(''Standard'', 1001 / 100)])] []) ''standard'' None
          (Some (financialsOf (Some (45 / 100)) (Some 35))) None)"
  by code_simp

text \<open>
  Claim C4, amended: for every line item, the margin is read as a fraction (a value above
  1 is divided by 100; the field \<open>margin\<close> holds the fraction times 100) and the unit cost
  is base price plus options price, times the pricing factor; \<open>unitCost\<close> holds the unit
  cost rounded to cents. If the fraction is at least 1, \<open>finalUnitPrice\<close> equals
  \<open>unitCost\<close>. Otherwise \<open>finalUnitPrice\<close> is the unit cost, not rounded, divided by one
  minus the fraction, rounded to cents; it differs from \<open>unitCost\<close> divided by one minus
  the fraction by at most half a cent and half a cent divided by one minus the fraction.
  With the factor 0.45, the margin 35 and a list price of 1000 the unit cost is 450 and the
  final unit price is 692.31.
\<close>

theorem sell_price_from_margin:
  "(li \<in> set (calculateProjectPricing lc up items m t s f r) \<longrightarrow>
      (\<exists>item \<in> set items. \<not> isGarbageItem item \<and> li = priceItem up m t s f r item \<and>
         (let p = computePricing m t s f r item;
              mg = marginOf f (pTier p);
              md = (if 1 < mg then mg / 100 else mg)
          in pCost p = (pBase p + pOptions p) * pFactor p \<and>
             margin li = md * 100 \<and>
             unitCost li = toFixed2 (up item CostAmount) (pCost p) \<and>
             (if 1 \<le> md then finalUnitPrice li = unitCost li
              else finalUnitPrice li = toFixed2 (up item SellAmount) (pCost p / (1 - md)) \<and>
                   \<bar>finalUnitPrice li - unitCost li / (1 - md)\<bar>
                     \<le> (1 + 1 / (1 - md)) / 200)))) \<and>
   map unitCost
     (calculateProjectPricing lc up [baseItem ''B15'' ''Base 15'' 1]
        (mockMfg [(''B15'', [(''Standard'', 1000)])] []) ''standard'' None
        (Some (financialsOf (Some (45 / 100)) (Some 35))) None) = [450] \<and>
   map finalUnitPrice
     (calculateProjectPricing lc up [baseItem ''B15'' ''Base 15'' 1]
        (mockMfg [(''B15'', [(''Standard'', 1000)])] []) ''standard'' None
        (Some (financialsOf (Some (45 / 100)) (Some 35))) None) = [69231 / 100]"
proof (intro conjI impI)
  assume "li \<in> set (calculateProjectPricing lc up items m t s f r)"
  then obtain item where item: "item \<in> set items" "\<not> isGarbageItem item"
    and li: "li = priceItem up m t s f r item"
    by (auto simp: set_calculateProjectPricing)
  define p where "p = computePricing m t s f r item"
  define md where "md = (if 1 < marginOf f (pTier p) then marginOf f (pTier p) / 100
                         else marginOf f (pTier p))"
  have pm: "pMargin p = md"
    unfolding p_def md_def by (simp add: computePricing_fields(7) marginDecimal_def)
  have cost: "pCost p = (pBase p + pOptions p) * pFactor p"
    unfolding p_def by (rule computePricing_fields(6))
  have mg: "margin li = md * 100"
    unfolding li priceItem_computed_fields by (simp add: pm[unfolded p_def])
  have uc: "unitCost li = toFixed2 (up item CostAmount) (pCost p)"
    unfolding li priceItem_computed_fields p_def by simp
  have sell: "pSell p = (if 1 \<le> md then pCost p else pCost p / (1 - md))"
    unfolding p_def computePricing_fields(8) pm[unfolded p_def] unitSell_def by simp
  have fin: "finalUnitPrice li =
               toFixed2 (up item (if 1 \<le> md then CostAmount else SellAmount)) (pSell p)"
    unfolding li priceItem_computed_fields by (simp add: pm[unfolded p_def] p_def)
  have rest: "if 1 \<le> md then finalUnitPrice li = unitCost li
              else finalUnitPrice li = toFixed2 (up item SellAmount) (pCost p / (1 - md)) \<and>
                   \<bar>finalUnitPrice li - unitCost li / (1 - md)\<bar> \<le> (1 + 1 / (1 - md)) / 200"
  proof (cases "1 \<le> md")
    case True
    then show ?thesis by (simp add: fin sell uc)
  next
    case False
    then have d: "0 < 1 - md" by simp
    have f: "finalUnitPrice li = toFixed2 (up item SellAmount) (pCost p / (1 - md))"
      using False by (simp add: fin sell)
    have 1: "\<bar>finalUnitPrice li - pCost p / (1 - md)\<bar> \<le> 1 / 200"
      unfolding f by (rule toFixed2_error)
    have 2: "\<bar>pCost p - unitCost li\<bar> \<le> 1 / 200"
      unfolding uc using toFixed2_error[of "up item CostAmount" "pCost p"]
      by (simp only: abs_minus_commute)
    have "\<bar>finalUnitPrice li - unitCost li / (1 - md)\<bar> \<le> (1 + 1 / (1 - md)) / 200"
      by (rule cents_quotient_bound[OF d 1 2])
    with f False show ?thesis by simp
  qed
  have "let p = computePricing m t s f r item;
            mg = marginOf f (pTier p);
            md = (if 1 < mg then mg / 100 else mg)
        in pCost p = (pBase p + pOptions p) * pFactor p \<and>
           margin li = md * 100 \<and>
           unitCost li = toFixed2 (up item CostAmount) (pCost p) \<and>
           (if 1 \<le> md then finalUnitPrice li = unitCost li
            else finalUnitPrice li = toFixed2 (up item SellAmount) (pCost p / (1 - md)) \<and>
                 \<bar>finalUnitPrice li - unitCost li / (1 - md)\<bar> \<le> (1 + 1 / (1 - md)) / 200)"
    unfolding Let_def p_def[symmetric] md_def[symmetric]
    using cost mg uc rest by blast
  with item li show "\<exists>item \<in> set items. \<not> isGarbageItem item \<and> li = priceItem up m t s f r item \<and>
         (let p = computePricing m t s f r item;
              mg = marginOf f (pTier p);
              md = (if 1 < mg then mg / 100 else mg)
          in pCost p = (pBase p + pOptions p) * pFactor p \<and>
             margin li = md * 100 \<and>
             unitCost li = toFixed2 (up item CostAmount) (pCost p) \<and>
             (if 1 \<le> md then finalUnitPrice li = unitCost li
              else finalUnitPrice li = toFixed2 (up item SellAmount) (pCost p / (1 - md)) \<and>
                   \<bar>finalUnitPrice li - unitCost li / (1 - md)\<bar>
                     \<le> (1 + 1 / (1 - md)) / 200))"
    by blast
next
  show "map unitCost
     (calculateProjectPricing lc up [baseItem ''B15'' ''Base 15'' 1]
        (mockMfg [(''B15'', [(''Standard'', 1000)])] []) ''standard'' None
        (Some (financialsOf (Some (45 / 100)) (Some 35))) None) = [450]"
    by code_simp
  show "map finalUnitPrice
     (calculateProjectPricing lc up [baseItem ''B15'' ''Base 15'' 1]
        (mockMfg [(''B15'', [(''Standard'', 1000)])] []) ''standard'' None
        (Some (financialsOf (Some (45 / 100)) (Some 35))) None) = [69231 / 100]"
    by code_simp
qed

theorem sell_price_from_margin_witness:
  "priceItem halfUp (mockMfg [(''B15'', [(''Standard'', 1001 / 100)])] []) ''standard'' None
     (Some (financialsOf (Some (45 / 100)) (Some 35))) None (baseItem ''B15'' ''Base 15'' 1)
   \<in> set (calculateProjectPricing keepOrder halfUp [baseItem ''B15'' ''Base 15'' 1]
        (mockMfg [(''B15'', [(''Standard'', 1001 / 100)])] []) ''standard'' None
        (Some (financialsOf (Some (45 / 100)) (Some 35))) None) \<and>
   margin (priceItem halfUp (mockMfg [(''B15'', [(''Standard'', 1001 / 100)])] []) ''standard'' None
     (Some (financialsOf (Some (45 / 100)) (Some 35))) None (baseItem ''B15'' ''Base 15'' 1)) = 35 \<and>
   unitCost (priceItem halfUp (mockMfg [(''B15'', [(''Standard'', 1001 / 100)])] []) ''standard'' None
     (Some (financialsOf (Some (45 / 100)) (Some 35))) None (baseItem ''B15'' ''Base 15'' 1))
   = toFixed2 True (9009 / 2000) \<and>
   finalUnitPrice (priceItem halfUp (mockMfg [(''B15'', [(''Standard'', 1001 / 100)])] []) ''standard'' None
     (Some (financialsOf (Some (45 / 100)) (Some 35))) None (baseItem ''B15'' ''Base 15'' 1))
   = toFixed2 True ((9009 / 2000) / (1 - 35 / 100))"
proof -
  let ?m = "mockMfg [(''B15'', [(''Standard'', 1001 / 100)])] []"
  let ?f = "Some (financialsOf (Some (45 / 100)) (Some 35))"
  let ?it = "baseItem ''B15'' ''Base 15'' 1"
  let ?li = "priceItem halfUp ?m ''standard'' None ?f None ?it"
  let ?p = "computePricing ?m ''standard'' None ?f None ?it"
  have ng: "\<not> isGarbageItem ?it" by code_simp
  have mem: "?li \<in> set (calculateProjectPricing keepOrder halfUp [?it] ?m ''standard'' None ?f None)"
    using ng by (simp add: set_calculateProjectPricing)
  have mg: "marginOf ?f (pTier ?p) = 35" by code_simp
  have cost: "pCost ?p = 9009 / 2000" by code_simp
  from sell_price_from_margin[of ?li keepOrder halfUp "[?it]" ?m "''standard''" None ?f None] mem
  have "\<exists>item \<in> set [?it]. \<not> isGarbageItem item \<and>
          ?li = priceItem halfUp ?m ''standard'' None ?f None item \<and>
       (let p = computePricing ?m ''standard'' None ?f None item;
            mg = marginOf ?f (pTier p); md = (if 1 < mg then mg / 100 else mg)
        in pCost p = (pBase p + pOptions p) * pFactor p \<and>
           margin ?li = md * 100 \<and>
           unitCost ?li = toFixed2 (halfUp item CostAmount) (pCost p) \<and>
           (if 1 \<le> md then finalUnitPrice ?li = unitCost ?li
            else finalUnitPrice ?li = toFixed2 (halfUp item SellAmount) (pCost p / (1 - md)) \<and>
                 \<bar>finalUnitPrice ?li - unitCost ?li / (1 - md)\<bar> \<le> (1 + 1 / (1 - md)) / 200))"
    by blast
  then have "let p = ?p; mg = marginOf ?f (pTier p); md = (if 1 < mg then mg / 100 else mg)
        in pCost p = (pBase p + pOptions p) * pFactor p \<and>
           margin ?li = md * 100 \<and>
           unitCost ?li = toFixed2 (halfUp ?it CostAmount) (pCost p) \<and>
           (if 1 \<le> md then finalUnitPrice ?li = unitCost ?li
            else finalUnitPrice ?li = toFixed2 (halfUp ?it SellAmount) (pCost p / (1 - md)) \<and>
                 \<bar>finalUnitPrice ?li - unitCost ?li / (1 - md)\<bar> \<le> (1 + 1 / (1 - md)) / 200)"
    by (simp only: list.set ball_simps bex_simps singleton_iff insert_iff empty_iff simp_thms bex_triv_one_point2)
  then have "margin ?li = 35 \<and> unitCost ?li = toFixed2 True (9009 / 2000) \<and>
             finalUnitPrice ?li = toFixed2 True ((9009 / 2000) / (1 - 35 / 100))"
    unfolding Let_def mg cost halfUp_def by simp
  with mem show ?thesis by blast
qed

subsection \<open>Items without a match\<close>

lemma mathRound_0: "mathRound 0 = 0"
  by code_simp

text \<open>
  Claim C5, as stated: when no pass matches and the item has an extracted price above 0,
  the base price of the line item equals the extracted price. The line item holds the
  base price rounded to the whole unit: an item extracted with the price 12.50 and no
  match in an empty catalog gets the base price 13.
\<close>

theorem extracted_price_counterexample:
  "\<not> isGarbageItem ((baseItem ''ZZ9'' ''Special part'' 1)\<lparr>extractedPrice := Some (25 / 2)\<rparr>) \<and>
   lookupBasePrice ((baseItem ''ZZ9'' ''Special part'' 1)\<lparr>extractedPrice := Some (25 / 2)\<rparr>) []
     ''Standard'' = None \<and>
   map basePrice
     (calculateProjectPricing keepOrder halfUp
        [(baseItem ''ZZ9'' ''Special part'' 1)\<lparr>extractedPrice := Some (25 / 2)\<rparr>]
        (mockMfg [] []) ''standard'' None None None) = [13] \<and>
   \<not> list_all
       (basePriceIsExtracted ((baseItem ''ZZ9'' ''Special part'' 1)\<lparr>extractedPrice := Some (25 / 2)\<rparr>))
       (calculateProjectPricing keepOrder halfUp
          [(baseItem ''ZZ9'' ''Special part'' 1)\<lparr>extractedPrice := Some (25 / 2)\<rparr>]
          (mockMfg [] []) ''standard'' None None None)"
  by code_simp

text \<open>
  Claim C5, amended: an item that is not garbage and that none of the five passes matches
  still gets a line item, and no error is possible. If the item has an extracted price
  above 0, the base price used in the calculation is that price, the line item holds it
  rounded to the whole unit, and the source is \<^verbatim>\<open>Extracted from PDF\<close>; otherwise the base
  price is 0 and the source is \<^verbatim>\<open>NOT FOUND\<close>.
\<close>

theorem unmatched_item_is_priced:
  assumes "item \<in> set items" and "\<not> isGarbageItem item"
    and "lookupBasePrice item (case catalogOf m of Some c \<Rightarrow> c | None \<Rightarrow> [])
           (effectiveTierName item m t s r) = None"
  shows "priceItem up m t s f r item \<in> set (calculateProjectPricing lc up items m t s f r) \<and>
         (case extractedPrice item of
            Some e \<Rightarrow>
              if 0 < e
              then pBase (computePricing m t s f r item) = e \<and>
                   basePrice (priceItem up m t s f r item) = mathRound e \<and>
                   source (priceItem up m t s f r item) = ''Extracted from PDF''
              else basePrice (priceItem up m t s f r item) = 0 \<and>
                   source (priceItem up m t s f r item) = ''NOT FOUND''
          | None \<Rightarrow>
              basePrice (priceItem up m t s f r item) = 0 \<and>
              source (priceItem up m t s f r item) = ''NOT FOUND'')"
proof -
  let ?p = "computePricing m t s f r item"
  have mem: "priceItem up m t s f r item \<in> set (calculateProjectPricing lc up items m t s f r)"
    using assms(1,2) by (auto simp: set_calculateProjectPricing)
  have rb: "(pBase ?p, pSource ?p, pSku ?p) = resolvedBase item None"
    using computePricing_fields(2)[of m t s f r item] assms(3)
    by (simp add: computePricing_fields(1))
  show ?thesis
  proof (cases "extractedPrice item")
    case None
    with rb mem show ?thesis
      by (simp add: resolvedBase_def priceItem_computed_fields mathRound_0)
  next
    case (Some e)
    with rb mem show ?thesis
      by (cases "0 < e") (simp_all add: resolvedBase_def priceItem_computed_fields mathRound_0)
  qed
qed

theorem unmatched_item_is_priced_witness:
  "basePrice (priceItem halfUp (mockMfg [] []) ''standard'' None None None
      ((baseItem ''ZZ9'' ''Special part'' 1)\<lparr>extractedPrice := Some (25 / 2)\<rparr>)) = mathRound (25 / 2) \<and>
   source (priceItem halfUp (mockMfg [] []) ''standard'' None None None
      ((baseItem ''ZZ9'' ''Special part'' 1)\<lparr>extractedPrice := Some (25 / 2)\<rparr>)) = ''Extracted from PDF'' \<and>
   source (priceItem halfUp (mockMfg [] []) ''standard'' None None None
      (baseItem ''ZZ9'' ''Special part'' 1)) = ''NOT FOUND''"
proof -
  let ?x = "(baseItem ''ZZ9'' ''Special part'' 1)\<lparr>extractedPrice := Some (25 / 2)\<rparr>"
  let ?y = "baseItem ''ZZ9'' ''Special part'' 1"
  have gx: "\<not> isGarbageItem ?x" and gy: "\<not> isGarbageItem ?y" by code_simp+
  have c: "(case catalogOf (mockMfg [] []) of Some c \<Rightarrow> c | None \<Rightarrow> []) = []"
    by (simp add: mockMfg_def)
  have lx: "lookupBasePrice ?x (case catalogOf (mockMfg [] []) of Some c \<Rightarrow> c | None \<Rightarrow> [])
              (effectiveTierName ?x (mockMfg [] []) ''standard'' None None) = None"
    unfolding c by code_simp
  have ly: "lookupBasePrice ?y (case catalogOf (mockMfg [] []) of Some c \<Rightarrow> c | None \<Rightarrow> [])
              (effectiveTierName ?y (mockMfg [] []) ''standard'' None None) = None"
    unfolding c by code_simp
  have ex: "extractedPrice ?x = Some (25 / 2)" and ey: "extractedPrice ?y = None"
    by (simp_all add: baseItem_def)
  from unmatched_item_is_priced[of ?x "[?x]" "mockMfg [] []" "''standard''" None None halfUp None keepOrder,
      OF _ gx lx]
  have 1: "basePrice (priceItem halfUp (mockMfg [] []) ''standard'' None None None ?x) = mathRound (25 / 2) \<and>
           source (priceItem halfUp (mockMfg [] []) ''standard'' None None None ?x) = ''Extracted from PDF''"
    unfolding ex by simp
  from unmatched_item_is_priced[of ?y "[?y]" "mockMfg [] []" "''standard''" None None halfUp None keepOrder,
      OF _ gy ly]
  have 2: "source (priceItem halfUp (mockMfg [] []) ''standard'' None None None ?y) = ''NOT FOUND''"
    unfolding ey by simp
  from 1 2 show ?thesis by blast
qed

subsection \<open>The normalized code of a line item\<close>

lemma getPriceFallback_sku:
  "getPriceFallback entry sku method = Some mt \<Longrightarrow> matchedSku mt = sku"
  by (auto simp: getPriceFallback_def split: list.splits prod.splits option.splits)

lemma getPriceFromItem_sku:
  "getPriceFromItem entry tier sku method = Some mt \<Longrightarrow> matchedSku mt = sku"
  by (auto simp: getPriceFromItem_def getPriceFallback_sku
      split: option.splits prod.splits if_splits)

lemma findCatalogPrice_strict_sku:
  assumes "findCatalogPrice k cat tier True = Some mt"
  shows "matchedSku mt = normalizeLookup k"
  using assms
  by (auto simp: findCatalogPrice_def Let_def getPriceFromItem_sku
      split: option.splits if_splits)

text \<open>
  Claim C8, as stated: the normalized code of every line item is the normalizer's value
  for its original code. The engine overwrites the field with the matched SKU, which
  starts as the original code: the item B15L, normalized to B15 on input, comes out of an
  empty catalog with the normalized code B15L.
\<close>

theorem normalized_code_counterexample:
  "normalizeNKBACode ''B15L'' = ''B15'' \<and>
   map normalizedCode
     (calculateProjectPricing keepOrder halfUp
        [(baseItem ''B15L'' ''Base 15 left'' 1)\<lparr>normalizedCode := ''B15''\<rparr>]
        (mockMfg [] []) ''standard'' None None None) = [''B15L''] \<and>
   \<not> list_all normalizedCodeIsDerived
       (calculateProjectPricing keepOrder halfUp
          [(baseItem ''B15L'' ''Base 15 left'' 1)\<lparr>normalizedCode := ''B15''\<rparr>]
          (mockMfg [] []) ''standard'' None None None)"
  by code_simp

text \<open>
  Claim C8, amended: the normalized code of every line item is the matched SKU of its
  item. It is the original code, unchanged, when no pass matches; it is the SKU that the
  matcher reports otherwise, and when the first pass matches that is the original code in
  the form of the lookup (trimmed, upper case, without white space), not the normalizer's.
\<close>

theorem normalized_code_is_matched_sku:
  assumes "li \<in> set (calculateProjectPricing lc up items m t s f r)"
  shows "\<exists>item \<in> set items. \<not> isGarbageItem item \<and> li = priceItem up m t s f r item \<and>
           originalCode li = originalCode item \<and>
           (let cat = (case catalogOf m of Some c \<Rightarrow> c | None \<Rightarrow> []);
                tier = effectiveTierName item m t s r
            in normalizedCode li =
                 (case lookupBasePrice item cat tier of
                    Some mt \<Rightarrow> matchedSku mt | None \<Rightarrow> originalCode item) \<and>
               (findCatalogPrice (originalCode item) cat tier True \<noteq> None \<longrightarrow>
                  normalizedCode li = normalizeLookup (originalCode item)))"
proof -
  from assms obtain item where item: "item \<in> set items" "\<not> isGarbageItem item"
    and li: "li = priceItem up m t s f r item"
    by (auto simp: set_calculateProjectPricing)
  let ?cat = "case catalogOf m of Some c \<Rightarrow> c | None \<Rightarrow> []"
  let ?tier = "effectiveTierName item m t s r"
  let ?p = "computePricing m t s f r item"
  have rb: "(pBase ?p, pSource ?p, pSku ?p) = resolvedBase item (lookupBasePrice item ?cat ?tier)"
    using computePricing_fields(2)[of m t s f r item] by (simp add: computePricing_fields(1))
  have sku: "pSku ?p = (case lookupBasePrice item ?cat ?tier of
                          Some mt \<Rightarrow> matchedSku mt | None \<Rightarrow> originalCode item)"
    using rb by (auto simp: resolvedBase_def split: option.splits if_splits)
  have first: "normalizedCode li = normalizeLookup (originalCode item)"
    if "findCatalogPrice (originalCode item) ?cat ?tier True \<noteq> None"
  proof -
    from that obtain mt where mt: "findCatalogPrice (originalCode item) ?cat ?tier True = Some mt"
      by blast
    then have "lookupBasePrice item ?cat ?tier = Some mt"
      by (simp add: lookupBasePrice_def orElse_def split: prod.splits)
    with sku findCatalogPrice_strict_sku[OF mt] show ?thesis
      by (simp add: li priceItem_computed_fields)
  qed
  have "normalizedCode li = (case lookupBasePrice item ?cat ?tier of
                          Some mt \<Rightarrow> matchedSku mt | None \<Rightarrow> originalCode item)"
    using sku by (simp add: li priceItem_computed_fields)
  with first item li show ?thesis
    unfolding Let_def by (auto simp: priceItem_item_fields)
qed

theorem normalized_code_is_matched_sku_witness:
  "normalizedCode (priceItem halfUp (mockMfg [] []) ''standard'' None None None
      ((baseItem ''B15L'' ''Base 15 left'' 1)\<lparr>normalizedCode := ''B15''\<rparr>)) = ''B15L'' \<and>
   normalizedCode (priceItem halfUp (mockMfg [(''B15L'', [(''Standard'', 200)])] []) ''standard'' None None None
      (baseItem '' b15l'' ''Base 15 left'' 1)) = ''B15L''"
proof -
  let ?x = "(baseItem ''B15L'' ''Base 15 left'' 1)\<lparr>normalizedCode := ''B15''\<rparr>"
  let ?y = "baseItem '' b15l'' ''Base 15 left'' 1"
  let ?m = "mockMfg [(''B15L'', [(''Standard'', 200)])] []"
  let ?lx = "priceItem halfUp (mockMfg [] []) ''standard'' None None None ?x"
  let ?ly = "priceItem halfUp ?m ''standard'' None None None ?y"
  have gx: "\<not> isGarbageItem ?x" and gy: "\<not> isGarbageItem ?y" by code_simp+
  have mx: "?lx \<in> set (calculateProjectPricing keepOrder halfUp [?x] (mockMfg [] []) ''standard'' None None None)"
    using gx by (simp add: set_calculateProjectPricing)
  have my: "?ly \<in> set (calculateProjectPricing keepOrder halfUp [?y] ?m ''standard'' None None None)"
    using gy by (simp add: set_calculateProjectPricing)
  have lx: "lookupBasePrice ?x (case catalogOf (mockMfg [] []) of Some c \<Rightarrow> c | None \<Rightarrow> [])
              (effectiveTierName ?x (mockMfg [] []) ''standard'' None None) = None"
    by code_simp
  have ox: "originalCode ?x = ''B15L''" by (simp add: baseItem_def)
  have fy: "findCatalogPrice (originalCode ?y) (case catalogOf ?m of Some c \<Rightarrow> c | None \<Rightarrow> [])
              (effectiveTierName ?y ?m ''standard'' None None) True \<noteq> None"
    by code_simp
  have ny: "normalizeLookup (originalCode ?y) = ''B15L''" by code_simp
  from normalized_code_is_matched_sku[OF mx] lx ox
  have 1: "normalizedCode ?lx = ''B15L''" by (simp add: Let_def)
  from normalized_code_is_matched_sku[OF my] obtain item where i: "item \<in> set [?y]"
    and n: "let cat = (case catalogOf ?m of Some c \<Rightarrow> c | None \<Rightarrow> []);
                tier = effectiveTierName item ?m ''standard'' None None
            in normalizedCode ?ly =
                 (case lookupBasePrice item cat tier of
                    Some mt \<Rightarrow> matchedSku mt | None \<Rightarrow> originalCode item) \<and>
               (findCatalogPrice (originalCode item) cat tier True \<noteq> None \<longrightarrow>
                  normalizedCode ?ly = normalizeLookup (originalCode item))"
    by blast
  from i have iy: "item = ?y" by simp
  from n[unfolded Let_def iy] fy have "normalizedCode ?ly = normalizeLookup (originalCode ?y)"
    by blast
  with ny have 2: "normalizedCode ?ly = ''B15L''" by (simp only:)
  from 1 2 show ?thesis by blast
qed

subsection \<open>A code that is a catalog key\<close>

lemma lookupBasePrice_None_iff:
  "lookupBasePrice item cat tier = None \<longleftrightarrow>
     findCatalogPrice (originalCode item) cat tier True = None \<and>
     firstKeyMatch ''Exact'' cat tier (fst (generateSmartKeys item)) = None \<and>
     firstKeyMatch ''Similar'' cat tier (snd (generateSmartKeys item)) = None \<and>
     findCatalogPrice (originalCode item) cat tier False = None \<and>
     globalPrefixMatch (originalCode item) cat tier = None"
  by (auto simp: lookupBasePrice_def orElse_def split: prod.splits option.splits)

lemma find_Some_in_set: "find P xs = Some x \<Longrightarrow> x \<in> set xs"
  by (induction xs) (auto split: if_splits)

lemma getPriceFallback_nonempty:
  assumes "entry \<noteq> []"
  shows "\<exists>mt. getPriceFallback entry sku ''Exact'' = Some mt \<and>
              prefix ''Catalog (Exact '' (matchSource mt) \<and> price mt \<in> snd ` set entry"
proof (cases entry)
  case Nil
  with assms show ?thesis by simp
next
  case (Cons a rest)
  obtain k p where a: "a = (k, p)" by (cases a)
  show ?thesis
  proof (cases rest)
    case Nil
    with Cons a show ?thesis by (simp add: getPriceFallback_def)
  next
    case (Cons b rest')
    let ?g = "find (\<lambda>(k, p). includesStr (toLowerCase k) ''price'' \<or>
                               includesStr (toLowerCase k) ''list'') entry"
    show ?thesis
    proof (cases ?g)
      case None
      with Cons \<open>entry = a # rest\<close> a show ?thesis by (simp add: getPriceFallback_def)
    next
      case (Some kp)
      obtain gk gp where kp: "kp = (gk, gp)" by (cases kp)
      from Some kp have "(gk, gp) \<in> set entry" by (auto dest: find_Some_in_set)
      then have "gp \<in> snd ` set entry" by force
      with Some kp Cons \<open>entry = a # rest\<close> a show ?thesis
        by (simp add: getPriceFallback_def)
    qed
  qed
qed

lemma getPriceFromItem_nonempty:
  assumes "entry \<noteq> []"
  shows "\<exists>mt. getPriceFromItem entry tier sku ''Exact'' = Some mt \<and>
              prefix ''Catalog (Exact '' (matchSource mt) \<and> price mt \<in> snd ` set entry \<and>
              (\<forall>p. map_of entry tier = Some p \<longrightarrow>
                     price mt = p \<and> matchSource mt = ''Catalog (Exact Tier)'') \<and>
              (\<forall>k p. map_of entry tier = None \<and>
                       find (\<lambda>(k, p). includesStr (toLowerCase k) (toLowerCase tier) \<or>
                                       includesStr (toLowerCase tier) (toLowerCase k)) entry
                         = Some (k, p) \<and> k \<noteq> [] \<longrightarrow>
                       price mt = p \<and>
                       matchSource mt = ''Catalog (Exact Fuzzy '' @ quoted k @ '')'')"
proof (cases "map_of entry tier")
  case (Some p)
  then have "p \<in> snd ` set entry" by (force dest: map_of_SomeD)
  with Some show ?thesis by (simp add: getPriceFromItem_def)
next
  case None
  let ?fz = "find (\<lambda>(k, p). includesStr (toLowerCase k) (toLowerCase tier) \<or>
                              includesStr (toLowerCase tier) (toLowerCase k)) entry"
  show ?thesis
  proof (cases ?fz)
    case fzNone: None
    with None getPriceFallback_nonempty[OF assms, of sku] show ?thesis
      by (simp add: getPriceFromItem_def)
  next
    case (Some kp)
    obtain k p where kp: "kp = (k, p)" by (cases kp)
    from Some kp have "(k, p) \<in> set entry" by (auto dest: find_Some_in_set)
    then have p: "p \<in> snd ` set entry" by force
    show ?thesis
    proof (cases "k = []")
      case True
      with None Some kp getPriceFallback_nonempty[OF assms, of sku] show ?thesis
        by (simp add: getPriceFromItem_def)
    next
      case False
      with None Some kp p show ?thesis by (simp add: getPriceFromItem_def)
    qed
  qed
qed

text \<open>
  Claim C7, as stated: an item whose original code equals a catalog key gets a source that
  reports an exact match and the catalog value as base price. Three inputs show where this
  stops: a catalog price of 10.50 gives the base price 11, the line item holding the base
  price rounded to the whole unit; the key \<^verbatim>\<open>UNKNOWN\<close> is never looked up, so that item is
  \<^verbatim>\<open>NOT FOUND\<close>; and the lower-case key \<^verbatim>\<open>b15\<close> is not found by the exact lookup of the
  upper-case code but by the scan of pass 5, whose source does not say exact.
\<close>

theorem exact_key_counterexample:
  "map basePrice
     (calculateProjectPricing keepOrder halfUp [baseItem ''B15'' ''Base 15'' 1]
        (mockMfg [(''B15'', [(''Standard'', 21 / 2)])] []) ''standard'' None None None) = [11] \<and>
   map source
     (calculateProjectPricing keepOrder halfUp [baseItem ''UNKNOWN'' ''Base 15'' 1]
        (mockMfg [(''UNKNOWN'', [(''Standard'', 100)])] []) ''standard'' None None None)
     = [''NOT FOUND''] \<and>
   map source
     (calculateProjectPricing keepOrder halfUp [baseItem ''b15'' ''Base 15'' 1]
        (mockMfg [(''b15'', [(''Standard'', 100)])] []) ''standard'' None None None)
     = [''Catalog (Catalog (Global Prefix Match '' @ quoted ''b15'' @ '') Tier)'']"
  by code_simp

text \<open>
  Claim C7, amended: for every item that is not garbage and whose original code is a key
  of the catalog in the form of the lookup (trimmed, upper case, without white space), not
  empty and not \<^verbatim>\<open>UNKNOWN\<close>, with at least one price in its entry, the source of the line
  item starts with \<^verbatim>\<open>Catalog (Exact\<close> and the base price is the catalog value for the
  resolved tier, rounded to the whole unit. The resolved tier is the column of the entry
  that \<^verbatim>\<open>getPriceFromItem\<close> reads for the effective tier name, and source and base price
  of the line item are the source and the rounded price of that match: the column of that
  name, with the source \<^verbatim>\<open>Catalog (Exact Tier)\<close>; without such a column, the first column
  whose name contains the tier name or is contained in it, ignoring case, if that name is
  not empty, with the source \<^verbatim>\<open>Catalog (Exact Fuzzy 'column')\<close>; and else the column of
  the fallback (the only column, the first column named like a price or a list, the first
  column). With the columns Oak 100, Standard Plus 200 and Cherry 300 and the tier Standard
  the base price is 200.
\<close>

theorem exact_key_is_matched:
  assumes "item \<in> set items" and "\<not> isGarbageItem item"
    and "catalogOf m = Some cat" and "map_of cat (originalCode item) = Some entry"
    and "entry \<noteq> []"
    and "normalizeLookup (originalCode item) = originalCode item"
    and "originalCode item \<noteq> []" and "originalCode item \<noteq> ''UNKNOWN''"
  shows "priceItem up m t s f r item \<in> set (calculateProjectPricing lc up items m t s f r) \<and>
         prefix ''Catalog (Exact '' (source (priceItem up m t s f r item)) \<and>
         (\<exists>mt. getPriceFromItem entry (effectiveTierName item m t s r) (originalCode item) ''Exact''
                 = Some mt \<and>
               price mt \<in> snd ` set entry \<and>
               basePrice (priceItem up m t s f r item) = mathRound (price mt) \<and>
               source (priceItem up m t s f r item) = matchSource mt) \<and>
         (\<forall>p. map_of entry (effectiveTierName item m t s r) = Some p \<longrightarrow>
                basePrice (priceItem up m t s f r item) = mathRound p \<and>
                source (priceItem up m t s f r item) = ''Catalog (Exact Tier)'') \<and>
         (\<forall>k p. map_of entry (effectiveTierName item m t s r) = None \<and>
                  find (\<lambda>(k, p). includesStr (toLowerCase k)
                                     (toLowerCase (effectiveTierName item m t s r)) \<or>
                                  includesStr (toLowerCase (effectiveTierName item m t s r))
                                     (toLowerCase k)) entry = Some (k, p) \<and>
                  k \<noteq> [] \<longrightarrow>
                  basePrice (priceItem up m t s f r item) = mathRound p \<and>
                  source (priceItem up m t s f r item) = ''Catalog (Exact Fuzzy '' @ quoted k @ '')'') \<and>
         (map_of entry (effectiveTierName item m t s r) = None \<and>
          (case find (\<lambda>(k, p). includesStr (toLowerCase k)
                                     (toLowerCase (effectiveTierName item m t s r)) \<or>
                                  includesStr (toLowerCase (effectiveTierName item m t s r))
                                     (toLowerCase k)) entry of
             Some (k, p) \<Rightarrow> k = [] | None \<Rightarrow> True) \<longrightarrow>
          (\<exists>mt. getPriceFallback entry (originalCode item) ''Exact'' = Some mt \<and>
                basePrice (priceItem up m t s f r item) = mathRound (price mt) \<and>
                source (priceItem up m t s f r item) = matchSource mt)) \<and>
         normalizedCode (priceItem up m t s f r item) = originalCode item"
proof -
  let ?tier = "effectiveTierName item m t s r"
  let ?p = "computePricing m t s f r item"
  let ?code = "originalCode item"
  let ?li = "priceItem up m t s f r item"
  let ?fz = "find (\<lambda>(k, p). includesStr (toLowerCase k) (toLowerCase ?tier) \<or>
                              includesStr (toLowerCase ?tier) (toLowerCase k)) entry"
  from getPriceFromItem_nonempty[OF assms(5), of ?tier ?code]
  obtain mt where mt: "getPriceFromItem entry ?tier ?code ''Exact'' = Some mt"
    and src: "prefix ''Catalog (Exact '' (matchSource mt)"
    and pr: "price mt \<in> snd ` set entry"
    and tier: "\<forall>p. map_of entry ?tier = Some p \<longrightarrow>
                 price mt = p \<and> matchSource mt = ''Catalog (Exact Tier)''"
    and fuzzy: "\<forall>k p. map_of entry ?tier = None \<and> ?fz = Some (k, p) \<and> k \<noteq> [] \<longrightarrow>
                  price mt = p \<and> matchSource mt = ''Catalog (Exact Fuzzy '' @ quoted k @ '')''"
    by blast
  have "findCatalogPrice ?code cat ?tier True = Some mt"
    using assms(4,6,7,8) mt by (simp add: findCatalogPrice_def Let_def)
  then have "lookupBasePrice item cat ?tier = Some mt"
    by (simp add: lookupBasePrice_def orElse_def split: prod.splits)
  with computePricing_fields(2)[of m t s f r item] assms(3)
  have rb: "(pBase ?p, pSource ?p, pSku ?p) = (price mt, matchSource mt, matchedSku mt)"
    by (simp add: computePricing_fields(1) resolvedBase_def)
  have sku: "matchedSku mt = ?code" using mt by (rule getPriceFromItem_sku)
  have bp: "basePrice ?li = mathRound (price mt)" and so: "source ?li = matchSource mt"
    using rb by (simp_all add: priceItem_computed_fields)
  have mem: "?li \<in> set (calculateProjectPricing lc up items m t s f r)"
    using assms(1,2) by (auto simp: set_calculateProjectPricing)
  have 1: "prefix ''Catalog (Exact '' (source ?li)"
    using src by (simp only: so)
  have 2: "\<exists>mt. getPriceFromItem entry ?tier ?code ''Exact'' = Some mt \<and>
               price mt \<in> snd ` set entry \<and>
               basePrice ?li = mathRound (price mt) \<and> source ?li = matchSource mt"
    using mt pr bp so by blast
  have 3: "\<forall>p. map_of entry ?tier = Some p \<longrightarrow>
                basePrice ?li = mathRound p \<and> source ?li = ''Catalog (Exact Tier)''"
    using tier by (simp only: bp so) blast
  have 4: "\<forall>k p. map_of entry ?tier = None \<and> ?fz = Some (k, p) \<and> k \<noteq> [] \<longrightarrow>
                  basePrice ?li = mathRound p \<and>
                  source ?li = ''Catalog (Exact Fuzzy '' @ quoted k @ '')''"
    using fuzzy by (simp only: bp so) blast
  have 5: "map_of entry ?tier = None \<and>
           (case ?fz of Some (k, p) \<Rightarrow> k = [] | None \<Rightarrow> True) \<longrightarrow>
           (\<exists>mt. getPriceFallback entry ?code ''Exact'' = Some mt \<and>
                 basePrice ?li = mathRound (price mt) \<and> source ?li = matchSource mt)"
  proof
    assume a: "map_of entry ?tier = None \<and>
               (case ?fz of Some (k, p) \<Rightarrow> k = [] | None \<Rightarrow> True)"
    then have "getPriceFromItem entry ?tier ?code ''Exact'' = getPriceFallback entry ?code ''Exact''"
      by (auto simp: getPriceFromItem_def split: option.splits)
    with mt bp so show "\<exists>mt. getPriceFallback entry ?code ''Exact'' = Some mt \<and>
                 basePrice ?li = mathRound (price mt) \<and> source ?li = matchSource mt"
      by simp
  qed
  have 6: "normalizedCode ?li = originalCode item"
    using rb sku by (simp add: priceItem_computed_fields)
  from mem 1 2 3 4 5 6 show ?thesis by blast
qed

theorem exact_key_is_matched_witness:
  "basePrice (priceItem halfUp (mockMfg [(''B15'', [(''Standard'', 21 / 2)])] []) ''standard'' None None
        None (baseItem ''B15'' ''Base 15'' 1)) = mathRound (21 / 2) \<and>
   source (priceItem halfUp (mockMfg [(''B15'', [(''Standard'', 21 / 2)])] []) ''standard'' None None
        None (baseItem ''B15'' ''Base 15'' 1)) = ''Catalog (Exact Tier)'' \<and>
   basePrice
     (priceItem halfUp
        (mockMfg [(''B15'', [(''Oak'', 100), (''Standard Plus'', 200), (''Cherry'', 300)])] [])
        ''standard'' None None None (baseItem ''B15'' ''Base 15'' 1)) = mathRound 200 \<and>
   source
     (priceItem halfUp
        (mockMfg [(''B15'', [(''Oak'', 100), (''Standard Plus'', 200), (''Cherry'', 300)])] [])
        ''standard'' None None None (baseItem ''B15'' ''Base 15'' 1))
     = ''Catalog (Exact Fuzzy '' @ quoted ''Standard Plus'' @ '')''"
proof -
  let ?it = "baseItem ''B15'' ''Base 15'' 1"
  let ?e1 = "[(''Standard'', 21 / 2 :: rat)]"
  let ?e2 = "[(''Oak'', 100 :: rat), (''Standard Plus'', 200), (''Cherry'', 300)]"
  let ?m1 = "mockMfg [(''B15'', ?e1)] []"
  let ?m2 = "mockMfg [(''B15'', ?e2)] []"
  have g: "\<not> isGarbageItem ?it" by code_simp
  have c1: "catalogOf ?m1 = Some [(''B15'', ?e1)]" and c2: "catalogOf ?m2 = Some [(''B15'', ?e2)]"
    by (simp_all add: mockMfg_def)
  have e1: "map_of [(''B15'', ?e1)] (originalCode ?it) = Some ?e1"
    and e2: "map_of [(''B15'', ?e2)] (originalCode ?it) = Some ?e2"
    by (simp_all add: baseItem_def)
  have n: "normalizeLookup (originalCode ?it) = originalCode ?it" by code_simp
  have o: "originalCode ?it \<noteq> []" "originalCode ?it \<noteq> ''UNKNOWN''" by (simp_all add: baseItem_def)
  have t1: "map_of ?e1 (effectiveTierName ?it ?m1 ''standard'' None None) = Some (21 / 2)"
    by code_simp
  have t2: "map_of ?e2 (effectiveTierName ?it ?m2 ''standard'' None None) = None"
    by code_simp
  have f2: "find (\<lambda>(k, p). includesStr (toLowerCase k)
                               (toLowerCase (effectiveTierName ?it ?m2 ''standard'' None None)) \<or>
                            includesStr (toLowerCase (effectiveTierName ?it ?m2 ''standard'' None None))
                               (toLowerCase k)) ?e2 = Some (''Standard Plus'', 200)"
    by code_simp
  have mem: "?it \<in> set [?it]" and ne1: "?e1 \<noteq> []" and ne2: "?e2 \<noteq> []" by simp_all
  from exact_key_is_matched[of ?it "[?it]" ?m1 "[(''B15'', ?e1)]" ?e1 halfUp "''standard''"
      None None None keepOrder, OF mem g c1 e1 ne1 n o]
  have "\<forall>p. map_of ?e1 (effectiveTierName ?it ?m1 ''standard'' None None) = Some p \<longrightarrow>
            basePrice (priceItem halfUp ?m1 ''standard'' None None None ?it) = mathRound p \<and>
            source (priceItem halfUp ?m1 ''standard'' None None None ?it) = ''Catalog (Exact Tier)''"
    by (elim conjE)
  with t1
  have 1: "basePrice (priceItem halfUp ?m1 ''standard'' None None None ?it) = mathRound (21 / 2) \<and>
           source (priceItem halfUp ?m1 ''standard'' None None None ?it) = ''Catalog (Exact Tier)''"
    by blast
  from exact_key_is_matched[of ?it "[?it]" ?m2 "[(''B15'', ?e2)]" ?e2 halfUp "''standard''"
      None None None keepOrder, OF mem g c2 e2 ne2 n o]
  have "\<forall>k p. map_of ?e2 (effectiveTierName ?it ?m2 ''standard'' None None) = None \<and>
              find (\<lambda>(k, p). includesStr (toLowerCase k)
                               (toLowerCase (effectiveTierName ?it ?m2 ''standard'' None None)) \<or>
                            includesStr (toLowerCase (effectiveTierName ?it ?m2 ''standard'' None None))
                               (toLowerCase k)) ?e2 = Some (k, p) \<and> k \<noteq> [] \<longrightarrow>
              basePrice (priceItem halfUp ?m2 ''standard'' None None None ?it) = mathRound p \<and>
              source (priceItem halfUp ?m2 ''standard'' None None None ?it)
                = ''Catalog (Exact Fuzzy '' @ quoted k @ '')''"
    by (elim conjE)
  with t2 f2
  have 2: "basePrice (priceItem halfUp ?m2 ''standard'' None None None ?it) = mathRound 200 \<and>
           source (priceItem halfUp ?m2 ''standard'' None None None ?it)
             = ''Catalog (Exact Fuzzy '' @ quoted ''Standard Plus'' @ '')''"
    by blast
  from 1 2 show ?thesis by blast
qed

subsection \<open>Percentage options and the applicability rules\<close>

lemma snd_applyPercentageOption_mono:
  "set (snd st) \<subseteq> set (snd (applyPercentageOption base st opt))"
  by (auto simp: applyPercentageOption_def Let_def)

lemma snd_foldl_applyPercentageOption_mono:
  "set (snd st) \<subseteq> set (snd (foldl (applyPercentageOption base) st opts))"
proof (induction opts arbitrary: st)
  case Nil
  then show ?case by simp
next
  case (Cons a opts)
  have "set (snd st) \<subseteq> set (snd (applyPercentageOption base st a))"
    by (rule snd_applyPercentageOption_mono)
  also have "\<dots> \<subseteq> set (snd (foldl (applyPercentageOption base) (applyPercentageOption base st a) opts))"
    by (rule Cons.IH)
  finally show ?case by simp
qed

lemma percentage_entry_logged:
  assumes "opt \<in> set opts" and "pricingType opt = Percentage"
    and "\<not> (50 < length (optName opt) \<and> base * pctFraction (optPrice opt) = 0)"
  shows "\<lparr>appliedName = optName opt @ '' ('' @ toFixed0 (pctFraction (optPrice opt) * 100) @ ''%)'',
          appliedPrice = base * pctFraction (optPrice opt), sourceSection = optSection opt\<rparr>
         \<in> set (snd (foldl (applyPercentageOption base) st opts))"
  using assms(1)
proof (induction opts arbitrary: st)
  case Nil
  then show ?case by simp
next
  case (Cons a opts)
  show ?case
  proof (cases "a = opt")
    case True
    have "\<lparr>appliedName = optName opt @ '' ('' @ toFixed0 (pctFraction (optPrice opt) * 100) @ ''%)'',
          appliedPrice = base * pctFraction (optPrice opt), sourceSection = optSection opt\<rparr>
         \<in> set (snd (applyPercentageOption base st opt))"
      using assms(2,3) by (auto simp: applyPercentageOption_def Let_def)
    with snd_foldl_applyPercentageOption_mono[of "applyPercentageOption base st opt" base opts] True
    show ?thesis by auto
  next
    case False
    with Cons.prems have "opt \<in> set opts" by simp
    from Cons.IH[OF this] show ?thesis by simp
  qed
qed

text \<open>
  Claim C10: the applicability rules (drawer section on a base cabinet only, hinge section
  not on fillers and panels, "wall" and "base" in the name) are checked for the fixed
  options only. Whatever the type of an item that is not garbage, every active percentage
  option is applied to it: its surcharge, base price times the fraction, is logged under
  the name of the option with the percentage, and the options price is the price of the
  fixed phase plus all these surcharges. The one exception is an option whose name is
  longer than 50 characters and whose surcharge is 0, which the loop skips. An option that
  the rules exclude is left out by the fixed phase.
\<close>

theorem percentage_options_bypass_rules:
  assumes "item \<in> set items" and "\<not> isGarbageItem item"
    and "opt \<in> set (activeOptions item m s r)" and "pricingType opt = Percentage"
  shows "priceItem up m t s f r item \<in> set (calculateProjectPricing lc up items m t s f r) \<and>
         (let base = pBase (computePricing m t s f r item);
              addPrice = base * (if 1 < optPrice opt then optPrice opt / 100 else optPrice opt);
              skipped = (50 < length (optName opt) \<and> addPrice = 0)
          in (\<not> skipped \<longrightarrow>
                \<lparr>appliedName = optName opt @ '' ('' @
                    toFixed0 ((if 1 < optPrice opt then optPrice opt / 100 else optPrice opt) * 100)
                    @ ''%)'',
                 appliedPrice = addPrice, sourceSection = optSection opt\<rparr>
                \<in> set (appliedOptions (priceItem up m t s f r item))) \<and>
             (skipped \<longrightarrow> applyPercentageOption base st opt = st) \<and>
             (\<not> applies item opt \<longrightarrow> applyFixedOption item st opt = st) \<and>
             pOptions (computePricing m t s f r item) =
               fst (fixedPhase item (activeOptions item m s r)) +
               (\<Sum>x\<leftarrow>filter (\<lambda>x. pricingType x = Percentage) (activeOptions item m s r).
                  base * (if 1 < optPrice x then optPrice x / 100 else optPrice x)))"
proof -
  let ?p = "computePricing m t s f r item"
  have mem: "priceItem up m t s f r item \<in> set (calculateProjectPricing lc up items m t s f r)"
    using assms(1,2) by (auto simp: set_calculateProjectPricing)
  have logged: "\<lparr>appliedName = optName opt @ '' ('' @ toFixed0 (pctFraction (optPrice opt) * 100) @ ''%)'',
          appliedPrice = pBase ?p * pctFraction (optPrice opt), sourceSection = optSection opt\<rparr>
         \<in> set (appliedOptions (priceItem up m t s f r item))"
    if "\<not> (50 < length (optName opt) \<and> pBase ?p * pctFraction (optPrice opt) = 0)"
    unfolding priceItem_computed_fields computePricing_fields(4)
    by (rule percentage_entry_logged[OF assms(3,4) that])
  have skip: "applyPercentageOption (pBase ?p) st opt = st"
    if "50 < length (optName opt) \<and> pBase ?p * pctFraction (optPrice opt) = 0"
    using that assms(4) by (simp add: applyPercentageOption_def Let_def)
  have fixed: "applyFixedOption item st opt = st" if "\<not> applies item opt"
    using that by (simp add: applyFixedOption_def)
  have total: "pOptions ?p = fst (fixedPhase item (activeOptions item m s r)) +
               (\<Sum>x\<leftarrow>filter (\<lambda>x. pricingType x = Percentage) (activeOptions item m s r).
                  pBase ?p * pctFraction (optPrice x))"
    by (simp only: computePricing_fields(3) fst_foldl_applyPercentageOption)
  from mem logged skip fixed total show ?thesis
    unfolding Let_def pctFraction_def by blast
qed

theorem percentage_options_bypass_rules_witness:
  "\<not> applies wallItem baseDoorUpgrade \<and>
   \<lparr>appliedName = ''Base Door Upgrade (10%)'', appliedPrice = 20, sourceSection = ''E-Drawer''\<rparr>
   \<in> set (appliedOptions
        (priceItem halfUp (mockMfg [(''W3030'', [(''Standard'', 200)])] [baseDoorUpgrade]) ''standard''
           (Some (specsSelecting ''opt-2'')) None None wallItem))"
proof -
  let ?m = "mockMfg [(''W3030'', [(''Standard'', 200)])] [baseDoorUpgrade]"
  let ?s = "Some (specsSelecting ''opt-2'')"
  let ?p = "computePricing ?m ''standard'' ?s None None wallItem"
  have na: "\<not> applies wallItem baseDoorUpgrade" by code_simp
  have g: "\<not> isGarbageItem wallItem" by code_simp
  have a: "baseDoorUpgrade \<in> set (activeOptions wallItem ?m ?s None)" by code_simp
  have pt: "pricingType baseDoorUpgrade = Percentage" by (simp add: baseDoorUpgrade_def)
  have b: "pBase ?p = 200" by code_simp
  have pr: "optPrice baseDoorUpgrade = 10" and nm: "optName baseDoorUpgrade = ''Base Door Upgrade''"
    and sc: "optSection baseDoorUpgrade = ''E-Drawer''"
    by (simp_all add: baseDoorUpgrade_def)
  have tf: "toFixed0 (10 / 100 * 100) = ''10''" by code_simp
  from percentage_options_bypass_rules[of wallItem "[wallItem]" baseDoorUpgrade ?m ?s None
      halfUp "''standard''" None keepOrder "(0, [])", OF _ g a pt]
  have "\<lparr>appliedName = ''Base Door Upgrade'' @ '' ('' @ toFixed0 (10 / 100 * 100) @ ''%)'',
         appliedPrice = 200 * (10 / 100), sourceSection = ''E-Drawer''\<rparr>
        \<in> set (appliedOptions (priceItem halfUp ?m ''standard'' ?s None None wallItem))"
    unfolding Let_def b pr nm sc by simp
  then have "\<lparr>appliedName = ''Base Door Upgrade (10%)'', appliedPrice = 20,
               sourceSection = ''E-Drawer''\<rparr>
        \<in> set (appliedOptions (priceItem halfUp ?m ''standard'' ?s None None wallItem))"
    unfolding tf by simp
  with na show ?thesis by blast
qed

subsection \<open>The normalizer is not idempotent\<close>

text \<open>
  Claim C1, as stated: \<open>normalizeNKBACode (normalizeNKBACode x) = normalizeNKBACode x\<close>
  for every text \<open>x\<close>. The suffix \<^verbatim>\<open>HD\<close> is removed once per call, so a code that ends in
  \<^verbatim>\<open>HDHD\<close> needs two calls: \<^verbatim>\<open>B15HDHD\<close> becomes \<^verbatim>\<open>B15HD\<close>, and that becomes \<^verbatim>\<open>B15\<close>.
  Likewise the spurious 10 before a two-digit size is removed once per call:
  \<^verbatim>\<open>B101015\<close> becomes \<^verbatim>\<open>B1015\<close>, and that becomes \<^verbatim>\<open>B15\<close>.
\<close>

theorem normalize_twice_counterexample:
  "normalizeNKBACode (normalizeNKBACode ''B15HDHD'') \<noteq> normalizeNKBACode ''B15HDHD'' \<and>
   normalizeNKBACode (normalizeNKBACode ''B101015'') \<noteq> normalizeNKBACode ''B101015''"
  by code_simp

subsection \<open>Plain codes\<close>

text \<open>A plain code, capital letters followed by digits without the patterns that the
  normalizer rewrites, is returned unchanged.\<close>

lemma upper_not_digit: "isUpper c \<Longrightarrow> \<not> isDigit c"
  by (auto simp: isUpper_def isDigit_def)

lemma upper_not_space: "isUpper c \<Longrightarrow> \<not> isSpace c"
  by (auto simp: isUpper_def isSpace_def)

lemma digit_not_space: "isDigit c \<Longrightarrow> \<not> isSpace c"
  by (auto simp: isDigit_def isSpace_def)

lemma toUpperChar_upper: "isUpper c \<Longrightarrow> toUpperChar c = c"
  unfolding isUpper_def by (simp, elim disjE) (simp_all add: toUpperChar_def)

lemma toUpperChar_digit: "isDigit c \<Longrightarrow> toUpperChar c = c"
  unfolding isDigit_def by (simp, elim disjE) (simp_all add: toUpperChar_def)

lemma replaceAll_id:
  "(\<And>t. t \<noteq> [] \<Longrightarrow> suffix t s \<Longrightarrow> m t = None) \<Longrightarrow> replaceAll m s = s"
proof (induction s)
  case Nil
  then show ?case by simp
next
  case (Cons c cs)
  have "m (c # cs) = None" by (rule Cons.prems) simp_all
  moreover have "replaceAll m cs = cs"
    by (rule Cons.IH) (auto intro: Cons.prems suffix_ConsI)
  ultimately show ?case by simp
qed

lemma replaceFirst_id:
  "(\<And>t. suffix t s \<Longrightarrow> m t = None) \<Longrightarrow> replaceFirst m s = s"
proof (induction s)
  case Nil
  then show ?case by simp
next
  case (Cons c cs)
  have "m (c # cs) = None" by (rule Cons.prems) simp
  moreover have "replaceFirst m cs = cs"
    by (rule Cons.IH) (auto intro: Cons.prems suffix_ConsI)
  ultimately show ?case by simp
qed

lemma plainCode_shape:
  assumes "plainCode s"
  obtains ls ds where "s = ls @ ds" "lettersDigits ls ds" "ls \<noteq> []" "ds \<noteq> []"
    "\<not> includesStr ls ''TD''" "\<not> includesStr ls ''ROT''" "\<not> startsWith ls ''DHW''"
    "startsWith ds ''0'' \<and> length ds < 3 \<or> startsWith ds ''10'' \<and> length ds < 4 \<or>
     \<not> startsWith ds ''0'' \<and> \<not> startsWith ds ''10''"
proof -
  let ?ls = "takeWhile isUpper s" and ?ds = "dropWhile isUpper s"
  have s: "s = ?ls @ ?ds" by simp
  have u: "\<forall>c \<in> set ?ls. isUpper c" by (auto dest: set_takeWhileD)
  from assms have rest: "?ls \<noteq> []" "?ds \<noteq> []" "list_all isDigit ?ds"
    "\<not> includesStr ?ls ''TD''" "\<not> includesStr ?ls ''ROT''" "\<not> startsWith ?ls ''DHW''"
    "startsWith ?ds ''0'' \<and> length ?ds < 3 \<or> startsWith ?ds ''10'' \<and> length ?ds < 4 \<or>
     \<not> startsWith ?ds ''0'' \<and> \<not> startsWith ?ds ''10''"
    by (simp_all add: plainCode_def spanC_def)
  from u rest(3) have ld: "lettersDigits ?ls ?ds" by (simp add: lettersDigits_def list_all_iff)
  show ?thesis by (rule that[OF s ld rest(1,2,4,5,6,7)])
qed

lemma suffix_lettersDigits:
  assumes "lettersDigits ls ds" and "suffix t (ls @ ds)"
  obtains u v where "t = u @ v" "lettersDigits u v" "suffix u ls" "suffix v ds" "u = [] \<or> v = ds"
proof -
  from assms(2) consider "suffix t ds" | u where "suffix u ls" "t = u @ ds"
    by (auto simp: suffix_append)
  then show ?thesis
  proof cases
    case 1
    then have "\<forall>c \<in> set t. isDigit c"
      using assms(1) by (auto simp: lettersDigits_def dest: set_mono_suffix)
    then have "lettersDigits [] t" by (simp add: lettersDigits_def)
    with 1 show ?thesis by (intro that[of "[]" t]) simp_all
  next
    case 2
    then have "\<forall>c \<in> set u. isUpper c"
      using assms(1) by (auto simp: lettersDigits_def dest: set_mono_suffix)
    with assms(1) have "lettersDigits u ds" by (simp add: lettersDigits_def)
    with 2 show ?thesis by (intro that[of u ds]) simp_all
  qed
qed

lemma span_lettersDigits:
  assumes "lettersDigits u v"
  shows "takeWhile isUpper (u @ v) = u" and "dropWhile isUpper (u @ v) = v"
    and "takeWhile isSpace (u @ v) = []" and "dropWhile isSpace (u @ v) = u @ v"
    and "takeWhile isDigit (u @ v) = (if u = [] then v else [])"
    and "dropWhile isDigit (u @ v) = (if u = [] then [] else u @ v)"
proof -
  from assms have u: "\<forall>c \<in> set u. isUpper c" and v: "\<forall>c \<in> set v. isDigit c"
    by (simp_all add: lettersDigits_def)
  have v': "v = [] \<or> \<not> isUpper (hd v)"
    using v upper_not_digit by (cases v) auto
  show "takeWhile isUpper (u @ v) = u"
    using u v' by (cases v) (auto simp: takeWhile_append2 takeWhile_eq_all_conv upper_not_digit)
  show "dropWhile isUpper (u @ v) = v"
    using u v' by (cases v) (auto simp: dropWhile_append2 upper_not_digit)
  have hd: "u @ v = [] \<or> \<not> isSpace (hd (u @ v))"
    using u v upper_not_space digit_not_space by (cases u; cases v) auto
  then show "takeWhile isSpace (u @ v) = []" by (cases "u @ v") auto
  from hd show "dropWhile isSpace (u @ v) = u @ v" by (cases "u @ v") auto
  show "takeWhile isDigit (u @ v) = (if u = [] then v else [])"
    using u v upper_not_digit by (cases u) (auto simp: takeWhile_eq_all_conv)
  show "dropWhile isDigit (u @ v) = (if u = [] then [] else u @ v)"
    using u v upper_not_digit by (cases u) (auto simp: dropWhile_eq_Nil_conv)
qed


lemma lettersDigits_chars:
  "lettersDigits u v \<Longrightarrow> c \<in> set (u @ v) \<Longrightarrow> isUpper c \<or> isDigit c"
  by (auto simp: lettersDigits_def)

lemma toUpperCase_lettersDigits: "lettersDigits u v \<Longrightarrow> toUpperCase (u @ v) = u @ v"
  unfolding toUpperCase_def
  by (rule map_idI) (auto simp: lettersDigits_def toUpperChar_upper toUpperChar_digit)

lemma trim_no_space:
  assumes "\<forall>c \<in> set s. \<not> isSpace c"
  shows "trim s = s"
proof -
  have "dropWhile isSpace s = s" using assms by (cases s) auto
  moreover have "dropWhile isSpace (rev s) = rev s" using assms by (cases "rev s") auto
  ultimately show ?thesis by (simp add: trim_def)
qed

lemma lettersDigits_no_space: "lettersDigits u v \<Longrightarrow> \<forall>c \<in> set (u @ v). \<not> isSpace c"
  by (auto simp: lettersDigits_def upper_not_space digit_not_space)

lemma replaceAll_lit_id:
  assumes "c \<notin> set s"
  shows "replaceAll (lit (c # w) r) s = s"
proof (rule replaceAll_id)
  fix t assume "t \<noteq> []" "suffix t s"
  then have "hd t \<in> set s" by (cases t) (auto dest: set_mono_suffix)
  with assms have "hd t \<noteq> c" by auto
  with \<open>t \<noteq> []\<close> show "lit (c # w) r t = None" by (cases t) (auto simp: lit_def)
qed

lemma replaceAll_reSpaces_id:
  assumes "\<forall>c \<in> set s. \<not> isSpace c"
  shows "replaceAll (reSpaces r) s = s"
proof (rule replaceAll_id)
  fix t assume "t \<noteq> []" "suffix t s"
  with assms have "\<not> isSpace (hd t)" by (cases t) (auto dest: set_mono_suffix)
  with \<open>t \<noteq> []\<close> show "reSpaces r t = None" by (cases t) (auto simp: reSpaces_def)
qed

lemma replaceAll_reLetterSpaceDigit_id:
  assumes "\<forall>c \<in> set s. \<not> isSpace c"
  shows "replaceAll reLetterSpaceDigit s = s"
proof (rule replaceAll_id)
  fix t assume "t \<noteq> []" "suffix t s"
  then obtain c cs where t: "t = c # cs" by (cases t) auto
  from \<open>suffix t s\<close> have "set t \<subseteq> set s" by (rule set_mono_suffix)
  then have "set cs \<subseteq> set s" by (auto simp: t)
  with assms have "\<forall>x \<in> set cs. \<not> isSpace x" by auto
  then have "takeWhile isSpace cs = []" by (cases cs) auto
  then show "reLetterSpaceDigit t = None"
    by (simp add: t reLetterSpaceDigit_def spanC_def split: list.splits)
qed

lemma removeDotsNotAfterDigit_id: "CHR ''.'' \<notin> set s \<Longrightarrow> removeDotsNotAfterDigit p s = s"
  by (induction s arbitrary: p) auto

lemma removeDotsNotBeforeDigit_id: "CHR ''.'' \<notin> set s \<Longrightarrow> removeDotsNotBeforeDigit s = s"
  by (induction s) auto

lemma replaceFirst_atEnd_id:
  assumes "\<forall>w \<in> set ws. \<not> suffix w s"
  shows "replaceFirst (atEnd ws r) s = s"
proof (rule replaceFirst_id)
  fix t assume "suffix t s"
  with assms have "t \<notin> set ws" by auto
  then show "atEnd ws r t = None" by (simp add: atEnd_def)
qed

lemma no_suffix_after_digit:
  assumes "lettersDigits u v" and "v \<noteq> []" and "w \<noteq> []" and "\<not> isDigit (last w)"
  shows "\<not> suffix w (u @ v)"
proof
  assume "suffix w (u @ v)"
  then obtain p where "u @ v = p @ w" by (auto simp: suffix_def)
  with assms(3) have "last (u @ v) = last w" by simp
  moreover have "last (u @ v) \<in> set v" using assms(2) by simp
  ultimately show False using assms(1,4) by (auto simp: lettersDigits_def)
qed

lemma prefix_letters:
  assumes "lettersDigits u v" and "\<forall>c \<in> set w. isUpper c" and "prefix w (u @ v)"
  shows "prefix w u"
proof -
  from assms(3) consider "prefix w u" | w' where "w = u @ w'" "prefix w' v"
    by (auto simp: prefix_append)
  then show ?thesis
  proof cases
    case 1
    then show ?thesis .
  next
    case 2
    have "w' = []"
    proof (rule ccontr)
      assume "w' \<noteq> []"
      then have "hd w' \<in> set w'" by simp
      with 2 have "hd w' \<in> set w" "hd w' \<in> set v" by (auto dest: set_mono_prefix)
      with assms(1,2) show False by (auto simp: lettersDigits_def upper_not_digit)
    qed
    with 2 show ?thesis by simp
  qed
qed

lemma no_letters_pattern:
  assumes "lettersDigits ls ds" and "\<not> includesStr ls w" and "\<forall>c \<in> set w. isUpper c"
    and "suffix t (ls @ ds)"
  shows "\<not> prefix w t"
proof
  assume p: "prefix w t"
  from assms(1,4) obtain u v where t: "t = u @ v" "lettersDigits u v" "suffix u ls"
    by (rule suffix_lettersDigits)
  from prefix_letters[OF t(2) assms(3) p[unfolded t(1)]] have "prefix w u" .
  with t(3) have "sublist w ls" by (auto simp: sublist_altdef')
  with assms(2) show False by (simp add: includesStr_def)
qed


lemma reDepthNotation_None:
  assumes "lettersDigits ls ds" and "suffix t (ls @ ds)"
  shows "reDepthNotation t = None"
proof (cases t)
  case Nil
  then show ?thesis by (simp add: reDepthNotation_def spanC_def)
next
  case (Cons c s1)
  from assms obtain u v where t: "t = u @ v" "lettersDigits u v"
    by (rule suffix_lettersDigits)
  from assms(2) Cons have "suffix s1 (ls @ ds)" by (auto dest: suffix_ConsD)
  with assms(1) obtain u1 v1 where s1: "s1 = u1 @ v1" "lettersDigits u1 v1"
    by (rule suffix_lettersDigits)
  have a: "spanC isSpace t = ([], c # s1)"
    using span_lettersDigits(3,4)[OF t(2)] by (simp add: spanC_def t(1)[symmetric] Cons)
  have b: "spanC isSpace s1 = ([], s1)"
    using span_lettersDigits(3,4)[OF s1(2)] by (simp add: spanC_def s1(1)[symmetric])
  have c: "spanC isDigit s1 = (if u1 = [] then (v1, []) else ([], s1))"
    using span_lettersDigits(5,6)[OF s1(2)] by (simp add: spanC_def s1(1)[symmetric])
  show ?thesis
    by (cases "u1 = []") (simp_all add: reDepthNotation_def a b c, simp_all add: spanC_def)
qed

lemma reTrayDivider_None:
  assumes "lettersDigits ls ds" and "\<not> includesStr ls ''TD''" and "suffix t (ls @ ds)"
  shows "reTrayDivider t = None"
proof -
  from assms(1,3) obtain u v where t: "t = u @ v" "lettersDigits u v"
    by (rule suffix_lettersDigits)
  have up: "\<forall>c \<in> set ''TD''. isUpper c" by (simp add: isUpper_def)
  have np: "\<not> prefix ''TD'' t" by (rule no_letters_pattern[OF assms(1,2) up assms(3)])
  have c: "spanC isDigit t = (if u = [] then (v, []) else ([], t))"
    using span_lettersDigits(5,6)[OF t(2)] by (simp add: spanC_def t(1)[symmetric])
  show ?thesis using np by (cases "u = []") (simp_all add: reTrayDivider_def c)
qed

lemma reConstruction_None:
  assumes "lettersDigits ls ds" and "suffix t (ls @ ds)" and "tag \<noteq> []"
  shows "reConstruction tag t = None"
proof -
  from assms(1,2) obtain u v where t: "t = u @ v" "lettersDigits u v"
    by (rule suffix_lettersDigits)
  have c: "spanC isDigit t = (if u = [] then (v, []) else ([], t))"
    using span_lettersDigits(5,6)[OF t(2)] by (simp add: spanC_def t(1)[symmetric])
  show ?thesis using assms(3) by (cases "u = []") (simp_all add: reConstruction_def c)
qed

lemma testLettersThenDigits_plain:
  assumes "lettersDigits ls ds"
    and "startsWith ds ''0'' \<and> length ds < 3 \<or> startsWith ds ''10'' \<and> length ds < 4 \<or>
         \<not> startsWith ds ''0'' \<and> \<not> startsWith ds ''10''"
  shows "\<not> testLettersThenDigits ''10'' (ls @ ds)" and "\<not> testLettersThenDigits ''0'' (ls @ ds)"
proof -
  have sp: "spanC isUpper (ls @ ds) = (ls, ds)"
    using span_lettersDigits(1,2)[OF assms(1)] by (simp add: spanC_def)
  have short: "length xs < 2 \<Longrightarrow> (case xs of d1 # d2 # _ \<Rightarrow> f d1 d2 | _ \<Rightarrow> None) = None"
    for xs :: string and f :: "char \<Rightarrow> char \<Rightarrow> (nat \<times> string) option"
    by (cases xs; cases "tl xs") auto
  have p: "prefix ''10'' ds \<Longrightarrow> \<not> prefix ''0'' ds" "prefix ''0'' ds \<Longrightarrow> \<not> prefix ''10'' ds"
    by (cases ds; auto)+
  from assms(2) show "\<not> testLettersThenDigits ''10'' (ls @ ds)"
    unfolding testLettersThenDigits_def reLettersThenDigits_def sp startsWith_def
    using p by (auto simp: short)
  from assms(2) show "\<not> testLettersThenDigits ''0'' (ls @ ds)"
    unfolding testLettersThenDigits_def reLettersThenDigits_def sp startsWith_def
    using p by (auto simp: short)
qed

lemma plainCode_fixed:
  assumes "plainCode s"
  shows "normalizeNKBACode s = s"
proof -
  from assms obtain ls ds where s: "s = ls @ ds" and ld: "lettersDigits ls ds"
    and ne: "ls \<noteq> []" "ds \<noteq> []"
    and pat: "\<not> includesStr ls ''TD''" "\<not> includesStr ls ''ROT''" "\<not> startsWith ls ''DHW''"
    and size: "startsWith ds ''0'' \<and> length ds < 3 \<or> startsWith ds ''10'' \<and> length ds < 4 \<or>
               \<not> startsWith ds ''0'' \<and> \<not> startsWith ds ''10''"
    by (rule plainCode_shape)
  have sne: "s \<noteq> []" using ne s by simp
  have nsp: "\<forall>c \<in> set s. \<not> isSpace c" unfolding s by (rule lettersDigits_no_space[OF ld])
  have chars: "c \<in> set s \<Longrightarrow> isUpper c \<or> isDigit c" for c
    unfolding s by (rule lettersDigits_chars[OF ld])
  have notin: "\<not> isUpper c \<Longrightarrow> \<not> isDigit c \<Longrightarrow> c \<notin> set s" for c using chars by blast
  have e1: "trim (toUpperCase s) = s"
    using toUpperCase_lettersDigits[OF ld] trim_no_space[OF nsp] by (simp add: s)
  have e2: "replaceAll (lit ''$'' ''B'') s = s"
    by (rule replaceAll_lit_id, rule notin) (simp_all add: isUpper_def isDigit_def)
  have e3: "replaceAll (lit [CHR 0xE2, CHR 0x82, CHR 0xAC] ''E'') s = s"
    by (rule replaceAll_lit_id, rule notin) (simp_all add: isUpper_def isDigit_def)
  have e4: "replaceAll (lit ''@'' ''0'') s = s"
    by (rule replaceAll_lit_id, rule notin) (simp_all add: isUpper_def isDigit_def)
  have e5: "trim (replaceAll (reSpaces '' '') s) = s"
    by (simp add: replaceAll_reSpaces_id[OF nsp] trim_no_space[OF nsp])
  have e6: "replaceAll reLetterSpaceDigit s = s"
    by (rule replaceAll_reLetterSpaceDigit_id[OF nsp])
  have e7: "\<not> testLettersThenDigits ''10'' s" "\<not> testLettersThenDigits ''0'' s"
    unfolding s by (rule testLettersThenDigits_plain[OF ld size])+
  have ns: "w \<noteq> [] \<Longrightarrow> \<not> isDigit (last w) \<Longrightarrow> \<not> suffix w s" for w
    unfolding s by (rule no_suffix_after_digit[OF ld ne(2)])
  have e8: "replaceFirst (atEnd [''-2B'', ''2B''] []) s = s"
    by (rule replaceFirst_atEnd_id) (simp add: ns isDigit_def)
  have e9: "replaceFirst (atEnd [''(L)'', ''(R)''] []) s = s"
    by (rule replaceFirst_atEnd_id) (simp add: ns isDigit_def)
  have e10: "replaceAll reDepthNotation s = s"
    by (rule replaceAll_id) (simp add: reDepthNotation_None[OF ld] s)
  have e11: "replaceAll reTrayDivider s = s"
    by (rule replaceAll_id) (simp add: reTrayDivider_None[OF ld pat(1)] s)
  have up: "\<forall>c \<in> set ''ROT''. isUpper c" "\<forall>c \<in> set ''DHW''. isUpper c"
    by (simp_all add: isUpper_def)
  have e12: "replaceAll (lit ''ROT'' []) s = s"
  proof (rule replaceAll_id)
    fix t assume "t \<noteq> []" "suffix t s"
    then have "\<not> prefix ''ROT'' t"
      unfolding s by (intro no_letters_pattern[OF ld pat(2) up(1)])
    then show "lit ''ROT'' [] t = None" by (simp add: lit_def)
  qed
  have e13: "removeDotsNotBeforeDigit (removeDotsNotAfterDigit None s) = s"
  proof -
    have "CHR ''.'' \<notin> set s" by (rule notin) (simp_all add: isUpper_def isDigit_def)
    then show ?thesis by (simp add: removeDotsNotAfterDigit_id removeDotsNotBeforeDigit_id)
  qed
  have e14: "replaceFirst (reConstruction tag) s = s" if "tag \<noteq> []" for tag
    by (rule replaceFirst_id) (simp add: reConstruction_None[OF ld _ that] s)
  have e15: "replaceFirst (atEnd [''HD''] []) s = s"
    by (rule replaceFirst_atEnd_id) (simp add: ns isDigit_def)
  have e16: "\<not> startsWith s ''DHW''"
  proof
    assume "startsWith s ''DHW''"
    then have "prefix ''DHW'' (ls @ ds)" by (simp add: startsWith_def s)
    from prefix_letters[OF ld up(2) this] pat(3) show False by (simp add: startsWith_def)
  qed
  have e17: "\<not> (\<exists>d \<in> set ''0123456789''. endsWith s [d, CHR ''L''] \<or>
                  endsWith s [d, CHR ''R''] \<or> endsWith s [d, CHR ''-'', CHR ''L''] \<or>
                  endsWith s [d, CHR ''-'', CHR ''R''])"
    unfolding endsWith_def by (simp add: ns isDigit_def)
  have e18: "replaceFirst (atEnd [''-LH'', ''LH''] []) s = s"
    by (rule replaceFirst_atEnd_id) (simp add: ns isDigit_def)
  have e19: "replaceFirst (atEnd [''-RH'', ''RH''] []) s = s"
    by (rule replaceFirst_atEnd_id) (simp add: ns isDigit_def)
  have e20: "replaceFirst (atEnd [''-FEL'', ''-FER'', ''-FE'', ''FEL'', ''FER'', ''FE''] []) s = s"
    by (rule replaceFirst_atEnd_id) (simp add: ns isDigit_def)
  have e21: "replaceFirst (atEnd [''-FE'', ''FE''] []) s = s"
    by (rule replaceFirst_atEnd_id) (simp add: ns isDigit_def)
  have t: "''AH'' \<noteq> []" "''VH'' \<noteq> []" "''PH'' \<noteq> []" by simp_all
  show ?thesis
    unfolding normalizeNKBACode_def Let_def
    by (simp only: sne if_False e1 e2 e3 e4 e5 e6 e7 e8 e9 e10 e11 e12 e13 e14[OF t(1)]
        e14[OF t(2)] e14[OF t(3)] e15 e16 e17 e18 e19 e20 e21)
qed


subsection \<open>The fixed points of the normalizer\<close>

text \<open>The normalizer runs its steps one after the other.\<close>

lemma normalize_steps:
  "normalizeNKBACode s = foldl (\<lambda>code step. step code) s normalizerSteps"
proof (cases "s = []")
  case True
  show ?thesis unfolding True by code_simp
next
  case False
  then show ?thesis
    unfolding normalizeNKBACode_def normalizerSteps_def Let_def foldl.simps by simp
qed

lemma textWeight_simps [simp]:
  "textWeight [] = 0"
  "textWeight (c # cs) = charWeight c + textWeight cs"
  "textWeight (a @ b) = textWeight a + textWeight b"
  by (simp_all add: textWeight_def)

lemma charWeight_pos: "0 < charWeight c"
  by (simp add: charWeight_def)

lemma textWeight_pos: "s \<noteq> [] \<Longrightarrow> 0 < textWeight s"
  by (cases s) (simp_all add: charWeight_pos)

lemma textWeight_0_iff [simp]: "textWeight s = 0 \<longleftrightarrow> s = []"
  using textWeight_pos[of s] by (cases "s = []") simp_all

lemma textWeight_ge_length: "length s \<le> textWeight s"
proof (induction s)
  case Nil
  show ?case by simp
next
  case (Cons c cs)
  with charWeight_pos[of c] show ?case by simp
qed

lemma textWeight_take_drop: "textWeight (take n s) + textWeight (drop n s) = textWeight s"
  using textWeight_simps(3)[of "take n s" "drop n s"] by simp

lemma textWeight_rev: "textWeight (rev s) = textWeight s"
  by (induction s) simp_all

lemma lowering_replaceAll:
  assumes "shrinking m" and "consuming m"
  shows "lowering (replaceAll m)"
proof -
  have "textWeight (replaceAll m s) \<le> textWeight s \<and>
        (textWeight (replaceAll m s) = textWeight s \<longrightarrow> replaceAll m s = s)" for s
  proof (induction "length s" arbitrary: s rule: less_induct)
    case less
    show ?case
    proof (cases s)
      case Nil
      then show ?thesis by simp
    next
      case (Cons c cs)
      show ?thesis
      proof (cases "m (c # cs)")
        case None
        have "length cs < length s" using Cons by simp
        from less[OF this] None show ?thesis unfolding Cons by simp
      next
        case (Some nr)
        obtain n r where nr: "nr = (n, r)" by (cases nr)
        from Some nr have mt: "m (c # cs) = Some (n, r)" by simp
        from assms(2) mt have n: "0 < n" unfolding consuming_def by blast
        from assms(1) mt
        have r: "r = take n (c # cs) \<or> textWeight r < textWeight (take n (c # cs))"
          unfolding shrinking_def by blast
        from n have d: "drop n (c # cs) = drop (n - 1) cs" by (cases n) simp_all
        have "length (drop (n - 1) cs) < length s" using Cons by simp
        from less[OF this]
        have ih: "textWeight (replaceAll m (drop (n - 1) cs)) \<le> textWeight (drop (n - 1) cs) \<and>
                  (textWeight (replaceAll m (drop (n - 1) cs)) = textWeight (drop (n - 1) cs) \<longrightarrow>
                   replaceAll m (drop (n - 1) cs) = drop (n - 1) cs)" .
        have eq: "replaceAll m (c # cs) = r @ replaceAll m (drop (n - 1) cs)"
          using mt by simp
        have w: "textWeight (c # cs) = textWeight (take n (c # cs)) + textWeight (drop (n - 1) cs)"
          using textWeight_take_drop[of n "c # cs"] d by simp
        from r show ?thesis
        proof
          assume rt: "r = take n (c # cs)"
          have "replaceAll m (drop (n - 1) cs) = drop (n - 1) cs \<Longrightarrow>
                r @ replaceAll m (drop (n - 1) cs) = c # cs"
            using rt d append_take_drop_id[of n "c # cs"] by simp
          with ih show ?thesis unfolding Cons eq w rt[symmetric] by auto
        next
          assume "textWeight r < textWeight (take n (c # cs))"
          with ih show ?thesis unfolding Cons eq w by simp
        qed
      qed
    qed
  qed
  then show ?thesis unfolding lowering_def by blast
qed

lemma lowering_replaceFirst:
  assumes "shrinking m"
  shows "lowering (replaceFirst m)"
proof -
  have "textWeight (replaceFirst m s) \<le> textWeight s \<and>
        (textWeight (replaceFirst m s) = textWeight s \<longrightarrow> replaceFirst m s = s)" for s
  proof (induction s)
    case Nil
    show ?case
    proof (cases "m []")
      case None
      then show ?thesis by simp
    next
      case (Some nr)
      obtain n r where nr: "nr = (n, r)" by (cases nr)
      from Some nr have mt: "m [] = Some (n, r)" by simp
      from assms mt have "r = take n [] \<or> textWeight r < textWeight (take n [])"
        unfolding shrinking_def by blast
      then have "r = []" by simp
      with Some nr show ?thesis by simp
    qed
  next
    case (Cons c cs)
    show ?case
    proof (cases "m (c # cs)")
      case None
      with Cons show ?thesis by simp
    next
      case (Some nr)
      obtain n r where nr: "nr = (n, r)" by (cases nr)
      from Some nr have mt: "m (c # cs) = Some (n, r)" by simp
      from assms mt
      have r: "r = take n (c # cs) \<or> textWeight r < textWeight (take n (c # cs))"
        unfolding shrinking_def by blast
      have eq: "replaceFirst m (c # cs) = r @ drop n (c # cs)"
        using Some nr by simp
      have w: "textWeight (c # cs) = textWeight (take n (c # cs)) + textWeight (drop n (c # cs))"
        using textWeight_take_drop[of n "c # cs"] by simp
      from r show ?thesis
      proof
        assume rt: "r = take n (c # cs)"
        then have "r @ drop n (c # cs) = c # cs" by simp
        then show ?thesis unfolding eq by simp
      next
        assume "textWeight r < textWeight (take n (c # cs))"
        then show ?thesis unfolding eq w by simp
      qed
    qed
  qed
  then show ?thesis unfolding lowering_def by blast
qed


lemma shrinking_lit: "textWeight r < textWeight w \<Longrightarrow> shrinking (lit w r)"
  unfolding shrinking_def lit_def by (auto simp: prefix_def split: if_splits)

lemma consuming_lit: "w \<noteq> [] \<Longrightarrow> consuming (lit w r)"
  unfolding consuming_def lit_def by (auto split: if_splits)

lemma shrinking_atEnd: "shrinking (atEnd ws [])"
  unfolding shrinking_def atEnd_def by (auto split: if_splits)

lemma charWeight_space: "charWeight (CHR '' '') = 1"
  by (simp add: charWeight_def)

lemma charWeight_other_space: "isSpace c \<Longrightarrow> c \<noteq> CHR '' '' \<Longrightarrow> charWeight c = 2"
  by (simp add: charWeight_def)

lemma shrinking_reSpaces: "shrinking (reSpaces '' '')"
  unfolding shrinking_def
proof (intro allI impI)
  fix t n r
  assume a: "reSpaces '' '' t = Some (n, r)"
  define ws where "ws = takeWhile isSpace t"
  from a have n: "n = length ws" and r: "r = '' ''" and ne: "ws \<noteq> []"
    unfolding reSpaces_def Let_def ws_def by (auto split: if_splits)
  have tk: "take n t = ws" unfolding n ws_def by (rule takeWhile_eq_take[symmetric])
  have sp: "\<forall>c \<in> set ws. isSpace c" unfolding ws_def by (auto dest: set_takeWhileD)
  show "r = take n t \<or> textWeight r < textWeight (take n t)"
  proof (cases ws)
    case Nil
    with ne show ?thesis by simp
  next
    case (Cons c rest)
    show ?thesis
    proof (cases rest)
      case Nil
      show ?thesis
      proof (cases "c = CHR '' ''")
        case True
        with Nil Cons tk r show ?thesis by simp
      next
        case False
        from sp Cons have "isSpace c" by simp
        with False have "charWeight c = 2" by (simp add: charWeight_other_space)
        with Nil Cons tk r show ?thesis by (simp add: charWeight_space)
      qed
    next
      case (Cons d rest')
      have "2 \<le> textWeight ws"
        using textWeight_ge_length[of ws] \<open>ws = c # rest\<close> Cons by simp
      with tk r show ?thesis by (simp add: charWeight_space)
    qed
  qed
qed

lemma consuming_reSpaces: "consuming (reSpaces r)"
  unfolding consuming_def reSpaces_def Let_def by (auto split: if_splits)

lemma shrinking_reLetterSpaceDigit: "shrinking reLetterSpaceDigit"
  unfolding shrinking_def
proof (intro allI impI)
  fix t n r
  assume a: "reLetterSpaceDigit t = Some (n, r)"
  then obtain c cs where t: "t = c # cs" unfolding reLetterSpaceDigit_def by (cases t) simp_all
  define ws where "ws = takeWhile isSpace cs"
  from a t obtain d rest where dw: "dropWhile isSpace cs = d # rest"
    and ne: "ws \<noteq> []" and n: "n = length ws + 2" and r: "r = [c, d]"
    unfolding reLetterSpaceDigit_def spanC_def ws_def
    by (auto split: list.splits if_splits)
  have cs: "cs = ws @ d # rest"
    unfolding ws_def dw[symmetric] by simp
  have tk: "take n t = c # ws @ [d]" unfolding t n cs by simp
  from ne have "0 < textWeight ws" by (rule textWeight_pos)
  then show "r = take n t \<or> textWeight r < textWeight (take n t)"
    unfolding tk r by simp
qed

lemma consuming_reLetterSpaceDigit: "consuming reLetterSpaceDigit"
  unfolding consuming_def reLetterSpaceDigit_def spanC_def
  by (auto split: list.splits if_splits)

lemma shrinking_reLettersThenDigits:
  assumes "mid \<noteq> []"
  shows "shrinking (reLettersThenDigits mid)"
  unfolding shrinking_def
proof (intro allI impI)
  fix t n r
  assume a: "reLettersThenDigits mid t = Some (n, r)"
  define ls where "ls = takeWhile isUpper t"
  define rest where "rest = dropWhile isUpper t"
  from a obtain d1 d2 x where pm: "prefix mid rest"
    and dr: "drop (length mid) rest = d1 # d2 # x"
    and n: "n = length ls + length mid + 2" and r: "r = ls @ [d1, d2]"
    unfolding reLettersThenDigits_def spanC_def ls_def rest_def
    by (auto split: list.splits if_splits)
  from pm obtain y where y: "rest = mid @ y" unfolding prefix_def by blast
  with dr have "y = d1 # d2 # x" by simp
  with y have rest: "rest = mid @ d1 # d2 # x" by simp
  have t: "t = ls @ mid @ d1 # d2 # x"
    unfolding rest[symmetric] ls_def rest_def by simp
  have tk: "take n t = ls @ mid @ [d1, d2]" unfolding t n by simp
  from assms have "0 < textWeight mid" by (rule textWeight_pos)
  then show "r = take n t \<or> textWeight r < textWeight (take n t)"
    unfolding tk r by simp
qed

lemma shrinking_removal:
  assumes "\<And>t n r. m t = Some (n, r) \<Longrightarrow> r = [] \<and> 0 < n \<and> t \<noteq> []"
  shows "shrinking m"
  unfolding shrinking_def
proof (intro allI impI)
  fix t n r
  assume "m t = Some (n, r)"
  from assms[OF this] have r: "r = []" and n: "0 < n" and t: "t \<noteq> []" by simp_all
  from n t have "take n t \<noteq> []" by simp
  then have "0 < textWeight (take n t)" by (rule textWeight_pos)
  then show "r = take n t \<or> textWeight r < textWeight (take n t)" unfolding r by simp
qed

lemma shrinking_reDepthNotation: "shrinking reDepthNotation"
proof (rule shrinking_removal)
  fix t n r
  assume "reDepthNotation t = Some (n, r)"
  then show "r = [] \<and> 0 < n \<and> t \<noteq> []"
    unfolding reDepthNotation_def spanC_def
    by (auto split: list.splits if_splits)
qed

lemma consuming_reDepthNotation: "consuming reDepthNotation"
  unfolding consuming_def reDepthNotation_def spanC_def
  by (auto split: list.splits if_splits)

lemma shrinking_reTrayDivider: "shrinking reTrayDivider"
proof (rule shrinking_removal)
  fix t n r
  assume "reTrayDivider t = Some (n, r)"
  then show "r = [] \<and> 0 < n \<and> t \<noteq> []"
    unfolding reTrayDivider_def spanC_def
    by (auto split: if_splits)
qed

lemma consuming_reTrayDivider: "consuming reTrayDivider"
  unfolding consuming_def reTrayDivider_def spanC_def
  by (auto split: if_splits)

lemma shrinking_reConstruction:
  assumes "tag \<noteq> []"
  shows "shrinking (reConstruction tag)"
  unfolding shrinking_def
proof (intro allI impI)
  fix t n r
  assume a: "reConstruction tag t = Some (n, r)"
  define ds where "ds = takeWhile isDigit t"
  define rest where "rest = dropWhile isDigit t"
  from a have pm: "prefix tag rest" and n: "n = length t" and r: "r = ds"
    unfolding reConstruction_def spanC_def ds_def rest_def Let_def
    by (auto split: if_splits)
  from pm assms have "rest \<noteq> []" by auto
  then have "0 < textWeight rest" by (rule textWeight_pos)
  moreover have "t = ds @ rest" unfolding ds_def rest_def by simp
  then have "textWeight t = textWeight ds + textWeight rest"
    using textWeight_simps(3)[of ds rest] by simp
  ultimately show "r = take n t \<or> textWeight r < textWeight (take n t)"
    unfolding n r by simp
qed

lemma lowering_if: "lowering g \<Longrightarrow> lowering (\<lambda>code. if P code then g code else code)"
  unfolding lowering_def by simp

lemma toUpperChar_lower:
  "c \<in> set ''abcdefghijklmnopqrstuvwxyz'' \<Longrightarrow>
   charWeight c = 2 \<and> charWeight (toUpperChar c) = 1"
  by (simp, elim disjE) (simp_all add: toUpperChar_def charWeight_def isSpace_def)

lemma toUpperChar_other:
  "c \<notin> set ''abcdefghijklmnopqrstuvwxyz'' \<Longrightarrow> toUpperChar c = c"
  by (simp add: toUpperChar_def)

lemma lowering_toUpperCase: "lowering toUpperCase"
proof -
  have "textWeight (toUpperCase s) \<le> textWeight s \<and>
        (textWeight (toUpperCase s) = textWeight s \<longrightarrow> toUpperCase s = s)" for s
  proof (induction s)
    case Nil
    show ?case by (simp add: toUpperCase_def)
  next
    case (Cons c cs)
    show ?case
    proof (cases "c \<in> set ''abcdefghijklmnopqrstuvwxyz''")
      case True
      from toUpperChar_lower[OF True] Cons show ?thesis
        by (simp add: toUpperCase_def)
    next
      case False
      from toUpperChar_other[OF False] Cons show ?thesis
        by (simp add: toUpperCase_def)
    qed
  qed
  then show ?thesis unfolding lowering_def by blast
qed

lemma dropWhile_weight:
  "textWeight (dropWhile P s) \<le> textWeight s \<and>
   (textWeight (dropWhile P s) = textWeight s \<longrightarrow> dropWhile P s = s)"
proof (induction s)
  case Nil
  show ?case by simp
next
  case (Cons c cs)
  with charWeight_pos[of c] show ?case by simp
qed

lemma lowering_trim: "lowering trim"
  unfolding lowering_def
proof
  fix s
  let ?a = "dropWhile isSpace s"
  let ?b = "dropWhile isSpace (rev ?a)"
  have a: "textWeight ?a \<le> textWeight s" "textWeight ?a = textWeight s \<longrightarrow> ?a = s"
    using dropWhile_weight[of isSpace s] by simp_all
  have b: "textWeight ?b \<le> textWeight ?a" "textWeight ?b = textWeight ?a \<longrightarrow> ?b = rev ?a"
    using dropWhile_weight[of isSpace "rev ?a"] by (simp_all add: textWeight_rev)
  have t: "trim s = rev ?b" by (simp add: trim_def)
  have w: "textWeight (trim s) = textWeight ?b" unfolding t by (rule textWeight_rev)
  show "textWeight (trim s) \<le> textWeight s \<and>
        (textWeight (trim s) = textWeight s \<longrightarrow> trim s = s)"
  proof
    show "textWeight (trim s) \<le> textWeight s" using a(1) b(1) w by simp
    show "textWeight (trim s) = textWeight s \<longrightarrow> trim s = s"
    proof
      assume "textWeight (trim s) = textWeight s"
      with a(1) b(1) w have 1: "textWeight ?b = textWeight ?a" and 2: "textWeight ?a = textWeight s"
        by simp_all
      from b(2) 1 have "?b = rev ?a" by simp
      then have "trim s = ?a" unfolding t by simp
      with a(2) 2 show "trim s = s" by simp
    qed
  qed
qed

lemma removeDotsNotAfterDigit_weight:
  "textWeight (removeDotsNotAfterDigit p s) \<le> textWeight s \<and>
   (textWeight (removeDotsNotAfterDigit p s) = textWeight s \<longrightarrow> removeDotsNotAfterDigit p s = s)"
proof (induction s arbitrary: p)
  case Nil
  show ?case by simp
next
  case (Cons c cs)
  from Cons[of "Some c"] Cons[of "Some (CHR ''.'')"] charWeight_pos[of c]
    charWeight_pos[of "CHR ''.''"]
  show ?case by auto
qed

lemma removeDotsNotBeforeDigit_weight:
  "textWeight (removeDotsNotBeforeDigit s) \<le> textWeight s \<and>
   (textWeight (removeDotsNotBeforeDigit s) = textWeight s \<longrightarrow> removeDotsNotBeforeDigit s = s)"
proof (induction s)
  case Nil
  show ?case by simp
next
  case (Cons c cs)
  with charWeight_pos[of c] charWeight_pos[of "CHR ''.''"] show ?case by auto
qed

lemma lowering_normalizerSteps: "list_all lowering normalizerSteps"
  unfolding normalizerSteps_def list.pred_inject
proof (intro conjI TrueI)
  show "lowering toUpperCase" by (rule lowering_toUpperCase)
  show "lowering trim" by (rule lowering_trim)
  show "lowering trim" by (rule lowering_trim)
  show "lowering (replaceAll (lit ''$'' ''B''))"
    by (intro lowering_replaceAll shrinking_lit consuming_lit) (simp_all add: charWeight_def isSpace_def)
  show "lowering (replaceAll (lit [CHR 0xE2, CHR 0x82, CHR 0xAC] ''E''))"
    by (intro lowering_replaceAll shrinking_lit consuming_lit) (simp_all add: charWeight_def isSpace_def)
  show "lowering (replaceAll (lit ''@'' ''0''))"
    by (intro lowering_replaceAll shrinking_lit consuming_lit) (simp_all add: charWeight_def isSpace_def)
  show "lowering (replaceAll (reSpaces '' ''))"
    by (intro lowering_replaceAll shrinking_reSpaces consuming_reSpaces)
  show "lowering (replaceAll reLetterSpaceDigit)"
    by (intro lowering_replaceAll shrinking_reLetterSpaceDigit consuming_reLetterSpaceDigit)
  show "lowering (\<lambda>code. if testLettersThenDigits ''10'' code
              then replaceFirst (reLettersThenDigits ''10'') code else code)"
    by (intro lowering_if lowering_replaceFirst shrinking_reLettersThenDigits) simp
  show "lowering (\<lambda>code. if testLettersThenDigits ''0'' code
              then replaceFirst (reLettersThenDigits ''0'') code else code)"
    by (intro lowering_if lowering_replaceFirst shrinking_reLettersThenDigits) simp
  show "lowering (replaceFirst (atEnd [''-2B'', ''2B''] []))"
    by (intro lowering_replaceFirst shrinking_atEnd)
  show "lowering (replaceFirst (atEnd [''(L)'', ''(R)''] []))"
    by (intro lowering_replaceFirst shrinking_atEnd)
  show "lowering (replaceAll reDepthNotation)"
    by (intro lowering_replaceAll shrinking_reDepthNotation consuming_reDepthNotation)
  show "lowering (replaceAll reTrayDivider)"
    by (intro lowering_replaceAll shrinking_reTrayDivider consuming_reTrayDivider)
  show "lowering (replaceAll (lit ''ROT'' []))"
    by (intro lowering_replaceAll shrinking_lit consuming_lit) (simp_all add: charWeight_def isSpace_def)
  show "lowering (removeDotsNotAfterDigit None)"
    unfolding lowering_def using removeDotsNotAfterDigit_weight by blast
  show "lowering removeDotsNotBeforeDigit"
    unfolding lowering_def using removeDotsNotBeforeDigit_weight by blast
  show "lowering (replaceFirst (reConstruction ''AH''))"
    by (intro lowering_replaceFirst shrinking_reConstruction) simp
  show "lowering (replaceFirst (reConstruction ''VH''))"
    by (intro lowering_replaceFirst shrinking_reConstruction) simp
  show "lowering (replaceFirst (reConstruction ''PH''))"
    by (intro lowering_replaceFirst shrinking_reConstruction) simp
  show "lowering (replaceFirst (atEnd [''HD''] []))"
    by (intro lowering_replaceFirst shrinking_atEnd)
  show "lowering (\<lambda>code. if startsWith code ''DHW''
              then replaceFirst (lit ''DHW'' ''DW'') code else code)"
    by (intro lowering_if lowering_replaceFirst shrinking_lit) (simp add: charWeight_def isSpace_def)
  show "lowering (\<lambda>code. if (\<exists>d \<in> set ''0123456789''. endsWith code [d, CHR ''L''] \<or>
                     endsWith code [d, CHR ''R''] \<or> endsWith code [d, CHR ''-'', CHR ''L''] \<or>
                     endsWith code [d, CHR ''-'', CHR ''R''])
              then replaceFirst (atEnd [''-L'', ''-R'', ''L'', ''R''] []) code else code)"
    by (intro lowering_if lowering_replaceFirst shrinking_atEnd)
  show "lowering (replaceFirst (atEnd [''-LH'', ''LH''] []))"
    by (intro lowering_replaceFirst shrinking_atEnd)
  show "lowering (replaceFirst (atEnd [''-RH'', ''RH''] []))"
    by (intro lowering_replaceFirst shrinking_atEnd)
  show "lowering (replaceFirst (atEnd [''-FEL'', ''-FER'', ''-FE'', ''FEL'', ''FER'', ''FE''] []))"
    by (intro lowering_replaceFirst shrinking_atEnd)
  show "lowering (replaceFirst (atEnd [''-FE'', ''FE''] []))"
    by (intro lowering_replaceFirst shrinking_atEnd)
  show "list_all lowering []" by simp
qed

lemma foldl_steps_weight:
  "list_all lowering steps \<Longrightarrow>
   textWeight (foldl (\<lambda>code step. step code) s steps) \<le> textWeight s"
proof (induction steps arbitrary: s)
  case Nil
  show ?case by simp
next
  case (Cons g gs)
  from Cons.prems have g: "lowering g" and gs: "list_all lowering gs" by simp_all
  from g have "textWeight (g s) \<le> textWeight s" unfolding lowering_def by blast
  with Cons.IH[OF gs, of "g s"] show ?case by simp
qed

lemma foldl_steps_fixed:
  "list_all lowering steps \<Longrightarrow>
   foldl (\<lambda>code step. step code) s steps = s \<longleftrightarrow> list_all (\<lambda>step. step s = s) steps"
proof (induction steps)
  case Nil
  show ?case by simp
next
  case (Cons g gs)
  from Cons.prems have g: "lowering g" and gs: "list_all lowering gs" by simp_all
  show ?case
  proof
    assume fx: "foldl (\<lambda>code step. step code) s (g # gs) = s"
    have "textWeight s = textWeight (foldl (\<lambda>code step. step code) (g s) gs)"
      using fx by simp
    also have "\<dots> \<le> textWeight (g s)" by (rule foldl_steps_weight[OF gs])
    finally have "textWeight s \<le> textWeight (g s)" .
    with g have "g s = s" unfolding lowering_def by (meson le_antisym)
    with fx Cons.IH[OF gs] show "list_all (\<lambda>step. step s = s) (g # gs)" by simp
  next
    assume "list_all (\<lambda>step. step s = s) (g # gs)"
    with Cons.IH[OF gs] show "foldl (\<lambda>code step. step code) s (g # gs) = s" by simp
  qed
qed

lemma normalize_fixed_iff: "normalizeNKBACode s = s \<longleftrightarrow> settled s"
  unfolding normalize_steps settled_def
  by (rule foldl_steps_fixed[OF lowering_normalizerSteps])

lemma normalize_weight: "textWeight (normalizeNKBACode s) \<le> textWeight s"
  unfolding normalize_steps by (rule foldl_steps_weight[OF lowering_normalizerSteps])




lemma replaceFirst_changes:
  assumes "strict m" and "suffix t s" and "m t \<noteq> None"
  shows "replaceFirst m s \<noteq> s"
  using assms(2)
proof (induction s)
  case Nil
  then have "t = []" by simp
  with assms(3) obtain n r where "m [] = Some (n, r)" by auto
  with assms(1) have "textWeight r < textWeight (take n [])" unfolding strict_def by blast
  then show ?case by simp
next
  case (Cons c cs)
  show ?case
  proof (cases "m (c # cs)")
    case None
    with assms(3) have "t \<noteq> c # cs" by auto
    with Cons.prems have "suffix t cs" by (auto simp: suffix_Cons)
    from Cons.IH[OF this] None show ?thesis by simp
  next
    case (Some nr)
    obtain n r where nr: "nr = (n, r)" by (cases nr)
    from Some nr have mt: "m (c # cs) = Some (n, r)" by simp
    with assms(1) have "textWeight r < textWeight (take n (c # cs))"
      unfolding strict_def by blast
    then have lt: "textWeight (r @ drop n (c # cs)) < textWeight (c # cs)"
      using textWeight_take_drop[of n "c # cs"] by simp
    have "r @ drop n (c # cs) \<noteq> c # cs"
    proof
      assume "r @ drop n (c # cs) = c # cs"
      then have "textWeight (r @ drop n (c # cs)) = textWeight (c # cs)" by (rule arg_cong)
      with lt show False by linarith
    qed
    with mt show ?thesis by simp
  qed
qed

lemma strict_shrinking: "strict m \<Longrightarrow> shrinking m"
  unfolding strict_def shrinking_def by blast

lemma strict_consuming: "strict m \<Longrightarrow> consuming m"
  unfolding strict_def consuming_def
proof (intro allI impI)
  fix t n r
  assume "\<forall>t n r. m t = Some (n, r) \<longrightarrow> textWeight r < textWeight (take n t)"
    and "m t = Some (n, r)"
  then have "textWeight r < textWeight (take n t)" by blast
  then show "0 < n" by (cases n) simp_all
qed

lemma replaceAll_fixedD:
  assumes "strict m" and "replaceAll m s = s" and "suffix t s" and "t \<noteq> []"
  shows "m t = None"
  using assms(2,3)
proof (induction s)
  case Nil
  with assms(4) show ?case by simp
next
  case (Cons c cs)
  have low: "lowering (replaceAll m)"
    by (intro lowering_replaceAll strict_shrinking strict_consuming assms(1))
  have none: "m (c # cs) = None"
  proof (rule ccontr)
    assume "m (c # cs) \<noteq> None"
    then obtain n r where mt: "m (c # cs) = Some (n, r)" by auto
    with assms(1) have w: "textWeight r < textWeight (take n (c # cs))"
      unfolding strict_def by blast
    then have n: "0 < n" by (cases n) simp_all
    then have d: "drop n (c # cs) = drop (n - 1) cs" by (cases n) simp_all
    have "textWeight (replaceAll m (drop (n - 1) cs)) \<le> textWeight (drop (n - 1) cs)"
      using low unfolding lowering_def by blast
    with w have "textWeight (r @ replaceAll m (drop (n - 1) cs)) < textWeight (c # cs)"
      using textWeight_take_drop[of n "c # cs"] d by simp
    with mt have "textWeight (replaceAll m (c # cs)) < textWeight (c # cs)" by simp
    with Cons.prems(1) show False by simp
  qed
  with Cons.prems(1) have fx: "replaceAll m cs = cs" by simp
  show ?case
  proof (cases "t = c # cs")
    case True
    with none show ?thesis by simp
  next
    case False
    with Cons.prems(2) have "suffix t cs" by (auto simp: suffix_Cons)
    from Cons.IH[OF fx this] show ?thesis .
  qed
qed

lemma replaceFirst_fixedD:
  assumes "strict m" and "replaceFirst m s = s" and "suffix t s"
  shows "m t = None"
  using replaceFirst_changes[OF assms(1,3)] assms(2) by blast

lemma strict_lit: "textWeight r < textWeight w \<Longrightarrow> strict (lit w r)"
  unfolding strict_def lit_def by (auto simp: prefix_def split: if_splits)

lemma strict_atEnd: "[] \<notin> set ws \<Longrightarrow> strict (atEnd ws [])"
  unfolding strict_def atEnd_def by (auto split: if_splits intro!: textWeight_pos)

lemma strict_reTrayDivider: "strict reTrayDivider"
  unfolding strict_def
proof (intro allI impI)
  fix t n r
  assume "reTrayDivider t = Some (n, r)"
  then have "r = [] \<and> 0 < n \<and> t \<noteq> []"
    unfolding reTrayDivider_def spanC_def by (auto split: if_splits)
  then show "textWeight r < textWeight (take n t)" by (simp add: textWeight_pos)
qed

lemma sublist_suffix_prefix: "sublist w s \<Longrightarrow> \<exists>t. suffix t s \<and> prefix w t"
  unfolding sublist_def suffix_def prefix_def by blast

lemma replaceAll_lit_fixedD:
  assumes "textWeight r < textWeight w" and "replaceAll (lit w r) s = s"
  shows "\<not> includesStr s w"
proof
  assume "includesStr s w"
  then obtain t where t: "suffix t s" "prefix w t"
    unfolding includesStr_def by (auto dest: sublist_suffix_prefix)
  from assms(1) have "w \<noteq> []" by auto
  with t(2) have "t \<noteq> []" by auto
  from replaceAll_fixedD[OF strict_lit[OF assms(1)] assms(2) t(1) this] t(2)
  show False by (simp add: lit_def)
qed

lemma replaceFirst_atEnd_fixedD:
  assumes "replaceFirst (atEnd ws []) s = s" and "[] \<notin> set ws" and "w \<in> set ws"
  shows "\<not> endsWith s w"
proof
  assume "endsWith s w"
  then have "suffix w s" by (simp add: endsWith_def)
  from replaceFirst_fixedD[OF strict_atEnd[OF assms(2)] assms(1) this] assms(3)
  show False by (simp add: atEnd_def)
qed

lemma toUpperCase_fixedD:
  assumes "toUpperCase s = s" and "c \<in> set s"
  shows "c \<notin> set ''abcdefghijklmnopqrstuvwxyz''"
proof
  assume "c \<in> set ''abcdefghijklmnopqrstuvwxyz''"
  from toUpperChar_lower[OF this] have ne: "toUpperChar c \<noteq> c" by auto
  from assms have "toUpperChar c = c"
    unfolding toUpperCase_def by (induction s) auto
  with ne show False by simp
qed

lemma trim_fixedD:
  assumes "trim s = s" and "s \<noteq> []"
  shows "\<not> isSpace (hd s) \<and> \<not> isSpace (last s)"
proof -
  let ?a = "dropWhile isSpace s"
  let ?b = "dropWhile isSpace (rev ?a)"
  have "length s = length (trim s)" using assms(1) by simp
  also have "\<dots> = length ?b" by (simp add: trim_def)
  also have "\<dots> \<le> length ?a" using length_dropWhile_le[of isSpace "rev ?a"] by simp
  finally have "length s \<le> length ?a" .
  with length_dropWhile_le[of isSpace s] have "length ?a = length s" by simp
  then have a: "?a = s"
    by (metis append_eq_conv_conj append_self_conv2 length_0_conv length_append
        add_diff_cancel_right' takeWhile_dropWhile_id length_greater_0_conv less_irrefl_nat
        add_cancel_right_left)
  then have 1: "\<not> isSpace (hd s)" using assms(2) by (simp add: dropWhile_eq_self_iff)
  from assms(1) a have "rev (dropWhile isSpace (rev s)) = s" by (simp add: trim_def)
  then have "dropWhile isSpace (rev s) = rev s" by (metis rev_rev_ident)
  then have 2: "\<not> isSpace (last s)" using assms(2)
    by (simp add: dropWhile_eq_self_iff hd_rev)
  from 1 2 show ?thesis by simp
qed

lemma settled_stepD: "settled s \<Longrightarrow> step \<in> set normalizerSteps \<Longrightarrow> step s = s"
  unfolding settled_def list_all_iff by blast

lemma settled_reading:
  assumes "settled s"
  shows "\<forall>c \<in> set s. c \<notin> set ''abcdefghijklmnopqrstuvwxyz$@''"
    and "s \<noteq> [] \<longrightarrow> \<not> isSpace (hd s) \<and> \<not> isSpace (last s)"
    and "\<forall>w \<in> set [''2B'', ''(L)'', ''(R)'', ''HD'', ''LH'', ''RH'', ''FE'', ''FEL'', ''FER''].
           \<not> endsWith s w"
    and "\<not> includesStr s ''TD''" and "\<not> includesStr s ''ROT''" and "\<not> startsWith s ''DHW''"
proof -
  note st = settled_stepD[OF assms]
  have up: "toUpperCase s = s" by (rule st) (simp add: normalizerSteps_def)
  have tr: "trim s = s" by (rule st) (simp add: normalizerSteps_def)
  have dollar: "replaceAll (lit ''$'' ''B'') s = s" by (rule st) (simp add: normalizerSteps_def)
  have at: "replaceAll (lit ''@'' ''0'') s = s" by (rule st) (simp add: normalizerSteps_def)
  have rot: "replaceAll (lit ''ROT'' []) s = s" by (rule st) (simp add: normalizerSteps_def)
  have td: "replaceAll reTrayDivider s = s" by (rule st) (simp add: normalizerSteps_def)
  have e1: "replaceFirst (atEnd [''-2B'', ''2B''] []) s = s"
    by (rule st) (simp add: normalizerSteps_def)
  have e2: "replaceFirst (atEnd [''(L)'', ''(R)''] []) s = s"
    by (rule st) (simp add: normalizerSteps_def)
  have e3: "replaceFirst (atEnd [''HD''] []) s = s"
    by (rule st) (simp add: normalizerSteps_def)
  have e4: "replaceFirst (atEnd [''-LH'', ''LH''] []) s = s"
    by (rule st) (simp add: normalizerSteps_def)
  have e5: "replaceFirst (atEnd [''-RH'', ''RH''] []) s = s"
    by (rule st) (simp add: normalizerSteps_def)
  have e6: "replaceFirst (atEnd [''-FEL'', ''-FER'', ''-FE'', ''FEL'', ''FER'', ''FE''] []) s = s"
    by (rule st) (simp add: normalizerSteps_def)
  have dhw: "(if startsWith s ''DHW'' then replaceFirst (lit ''DHW'' ''DW'') s else s) = s"
    by (rule st[of "\<lambda>code. if startsWith code ''DHW''
                               then replaceFirst (lit ''DHW'' ''DW'') code else code"])
       (simp add: normalizerSteps_def)
  have w1: "textWeight ''B'' < textWeight ''$''" "textWeight ''0'' < textWeight ''@''"
    "textWeight [] < textWeight ''ROT''" "textWeight ''DW'' < textWeight ''DHW''"
    by (simp_all add: charWeight_def isSpace_def)
  have "\<not> includesStr s ''$''" by (rule replaceAll_lit_fixedD[OF w1(1) dollar])
  moreover have "\<not> includesStr s ''@''" by (rule replaceAll_lit_fixedD[OF w1(2) at])
  ultimately have sym: "CHR ''$'' \<notin> set s" "CHR ''@'' \<notin> set s"
    by (simp_all add: includesStr_single)
  show "\<forall>c \<in> set s. c \<notin> set ''abcdefghijklmnopqrstuvwxyz$@''"
  proof
    fix c assume c: "c \<in> set s"
    from toUpperCase_fixedD[OF up c] sym c
    show "c \<notin> set ''abcdefghijklmnopqrstuvwxyz$@''" by auto
  qed
  show "s \<noteq> [] \<longrightarrow> \<not> isSpace (hd s) \<and> \<not> isSpace (last s)"
    using trim_fixedD[OF tr] by blast
  show "\<forall>w \<in> set [''2B'', ''(L)'', ''(R)'', ''HD'', ''LH'', ''RH'', ''FE'', ''FEL'', ''FER''].
           \<not> endsWith s w"
    using replaceFirst_atEnd_fixedD[OF e1, of "''2B''"]
      replaceFirst_atEnd_fixedD[OF e2, of "''(L)''"] replaceFirst_atEnd_fixedD[OF e2, of "''(R)''"]
      replaceFirst_atEnd_fixedD[OF e3, of "''HD''"]
      replaceFirst_atEnd_fixedD[OF e4, of "''LH''"] replaceFirst_atEnd_fixedD[OF e5, of "''RH''"]
      replaceFirst_atEnd_fixedD[OF e6, of "''FE''"] replaceFirst_atEnd_fixedD[OF e6, of "''FEL''"]
      replaceFirst_atEnd_fixedD[OF e6, of "''FER''"]
    by simp
  show "\<not> includesStr s ''ROT''" by (rule replaceAll_lit_fixedD[OF w1(3) rot])
  show "\<not> includesStr s ''TD''"
  proof
    assume "includesStr s ''TD''"
    then obtain t where t: "suffix t s" "prefix ''TD'' t"
      unfolding includesStr_def by (auto dest: sublist_suffix_prefix)
    then have ne: "t \<noteq> []" by auto
    from t(2) have "reTrayDivider t \<noteq> None"
      by (auto simp: reTrayDivider_def spanC_def prefix_def isDigit_def)
    with replaceAll_fixedD[OF strict_reTrayDivider td t(1) ne] show False by simp
  qed
  show "\<not> startsWith s ''DHW''"
  proof
    assume a: "startsWith s ''DHW''"
    with dhw have fx: "replaceFirst (lit ''DHW'' ''DW'') s = s" by simp
    from a have "lit ''DHW'' ''DW'' s \<noteq> None" by (simp add: lit_def startsWith_def)
    with replaceFirst_fixedD[OF strict_lit[OF w1(4)] fx suffix_order.refl] show False by simp
  qed
qed

text \<open>
  Claim C1, amended: normalizing twice gives the same as normalizing once exactly for the
  texts whose normalized form is settled, that is, left unchanged by every single step of
  the normalizer applied to it on its own; the settled codes are the codes that the
  normalizer returns unchanged. Every plain code (capital letters followed by digits
  without the patterns that the normalizer rewrites) is settled. A settled code has no
  lower-case letter, \<^verbatim>\<open>$\<close> or \<^verbatim>\<open>@\<close>, no white space at either end, none of the endings
  2B, (L), (R), HD, LH, RH, FE, FEL and FER, no TD or ROT inside and no DHW in front.
\<close>

theorem normalize_twice_iff_settled:
  "(normalizeNKBACode (normalizeNKBACode x) = normalizeNKBACode x \<longleftrightarrow>
      settled (normalizeNKBACode x)) \<and>
   (normalizeNKBACode s = s \<longleftrightarrow> settled s) \<and>
   (plainCode s \<longrightarrow> settled s) \<and>
   (settled s \<longrightarrow>
      (\<forall>c \<in> set s. c \<notin> set ''abcdefghijklmnopqrstuvwxyz$@'') \<and>
      (s \<noteq> [] \<longrightarrow> \<not> isSpace (hd s) \<and> \<not> isSpace (last s)) \<and>
      (\<forall>w \<in> set [''2B'', ''(L)'', ''(R)'', ''HD'', ''LH'', ''RH'', ''FE'', ''FEL'', ''FER''].
         \<not> endsWith s w) \<and>
      \<not> includesStr s ''TD'' \<and> \<not> includesStr s ''ROT'' \<and> \<not> startsWith s ''DHW'')"
proof (intro conjI impI)
  show "normalizeNKBACode (normalizeNKBACode x) = normalizeNKBACode x \<longleftrightarrow>
          settled (normalizeNKBACode x)"
    by (rule normalize_fixed_iff)
  show "normalizeNKBACode s = s \<longleftrightarrow> settled s" by (rule normalize_fixed_iff)
  show "settled s" if "plainCode s"
    using plainCode_fixed[OF that] by (simp only: normalize_fixed_iff)
next
  assume st: "settled s"
  show "\<forall>c \<in> set s. c \<notin> set ''abcdefghijklmnopqrstuvwxyz$@''"
    by (rule settled_reading(1)[OF st])
  show "s \<noteq> [] \<Longrightarrow> \<not> isSpace (hd s)" and "s \<noteq> [] \<Longrightarrow> \<not> isSpace (last s)"
    using settled_reading(2)[OF st] by simp_all
  show "\<forall>w \<in> set [''2B'', ''(L)'', ''(R)'', ''HD'', ''LH'', ''RH'', ''FE'', ''FEL'', ''FER''].
          \<not> endsWith s w"
    by (rule settled_reading(3)[OF st])
  show "\<not> includesStr s ''TD''" by (rule settled_reading(4)[OF st])
  show "\<not> includesStr s ''ROT''" by (rule settled_reading(5)[OF st])
  show "\<not> startsWith s ''DHW''" by (rule settled_reading(6)[OF st])
qed

theorem normalize_twice_iff_settled_witness:
  "normalizeNKBACode (normalizeNKBACode ''7045'') = normalizeNKBACode ''7045'' \<and>
   normalizeNKBACode (normalizeNKBACode ''FILLER'') = normalizeNKBACode ''FILLER'' \<and>
   normalizeNKBACode (normalizeNKBACode ''3DB21'') = normalizeNKBACode ''3DB21'' \<and>
   normalizeNKBACode (normalizeNKBACode ''W3030-24'') = normalizeNKBACode ''W3030-24'' \<and>
   normalizeNKBACode (normalizeNKBACode ''VDB24-3'') = normalizeNKBACode ''VDB24-3'' \<and>
   normalizeNKBACode (normalizeNKBACode ''B24D'') = normalizeNKBACode ''B24D'' \<and>
   normalizeNKBACode (normalizeNKBACode ''SB33 BUTT'') = normalizeNKBACode ''SB33 BUTT'' \<and>
   normalizeNKBACode (normalizeNKBACode ''BOEHD'') = normalizeNKBACode ''BOEHD'' \<and>
   normalizeNKBACode (normalizeNKBACode ''MW.HOOD'') = normalizeNKBACode ''MW.HOOD'' \<and>
   normalizeNKBACode (normalizeNKBACode ''vdb24ah-3'') = normalizeNKBACode ''vdb24ah-3'' \<and>
   plainCode ''B15'' \<and> settled ''B15'' \<and> normalizeNKBACode ''B15'' = ''B15'' \<and>
   \<not> endsWith ''B15'' ''HD'' \<and>
   \<not> settled (normalizeNKBACode ''B15HDHD'')"
proof -
  have 1: "settled (normalizeNKBACode ''7045'')" by code_simp
  have 2: "settled (normalizeNKBACode ''FILLER'')" by code_simp
  have 3: "settled (normalizeNKBACode ''3DB21'')" by code_simp
  have 4: "settled (normalizeNKBACode ''W3030-24'')" by code_simp
  have 5: "settled (normalizeNKBACode ''VDB24-3'')" by code_simp
  have 6: "settled (normalizeNKBACode ''B24D'')" by code_simp
  have 7: "settled (normalizeNKBACode ''SB33 BUTT'')" by code_simp
  have 8: "settled (normalizeNKBACode ''BOEHD'')" by code_simp
  have 9: "settled (normalizeNKBACode ''MW.HOOD'')" by code_simp
  have 10: "settled (normalizeNKBACode ''vdb24ah-3'')" by code_simp
  have p: "plainCode ''B15''" by code_simp
  have n: "normalizeNKBACode (normalizeNKBACode ''B15HDHD'') \<noteq> normalizeNKBACode ''B15HDHD''"
    by code_simp
  note t = normalize_twice_iff_settled
  from t[of _ "''B15''"] p have s: "settled ''B15''" by blast
  from t[of _ "''B15''"] s have f: "normalizeNKBACode ''B15'' = ''B15''" by blast
  from t[of _ "''B15''"] s
  have e: "\<forall>w \<in> set [''2B'', ''(L)'', ''(R)'', ''HD'', ''LH'', ''RH'', ''FE'', ''FEL'', ''FER''].
             \<not> endsWith ''B15'' w" by blast
  then have h: "\<not> endsWith ''B15'' ''HD''" by simp
  from t[of "''B15HDHD''"] n have u: "\<not> settled (normalizeNKBACode ''B15HDHD'')" by blast
  from t[of "''7045''"] 1 t[of "''FILLER''"] 2 t[of "''3DB21''"] 3 t[of "''W3030-24''"] 4
    t[of "''VDB24-3''"] 5 t[of "''B24D''"] 6 t[of "''SB33 BUTT''"] 7 t[of "''BOEHD''"] 8
    t[of "''MW.HOOD''"] 9 t[of "''vdb24ah-3''"] 10 p s f h u
  show ?thesis by blast
qed

subsection \<open>The keys of the vanity code\<close>

lemma exactKeys_pushKey: "prefix (exactKeys st) (exactKeys (pushKey c k st))"
  by (cases c) (simp_all add: pushKey_def)

lemma add_grows: "prefix (exactKeys st) (exactKeys (add k c a st))"
proof (induction k c a st rule: add.induct)
  case (1 k category allowNeighbors st0)
  show ?case
  proof (cases "k = [] \<or> removeSpaces (toUpperCase k) \<in> set (processed st0)")
    case True
    then show ?thesis by (subst add.simps) (auto simp: Let_def)
  next
    case False
    then have k: "k \<noteq> []" and np: "removeSpaces (toUpperCase k) \<notin> set (processed st0)"
      by auto
    define upper where "upper = removeSpaces (toUpperCase k)"
    define st1 where "st1 = pushKey category upper st0"
    define st2 where "st2 = (case matchLettersDigits upper of
                       Some (ls, ds) \<Rightarrow>
                         (let hyphenated = ls @ ''-'' @ ds in
                          if hyphenated \<in> set (processed st1) then st1
                          else pushKey category hyphenated st1)
                     | None \<Rightarrow> st1)"
    define st3 where "st3 = (if includesStr upper ''-'' then
                       (let base = takeWhile (\<lambda>c. c \<noteq> CHR ''-'') upper;
                            suffix = drop (length base + 1) upper in
                        if length suffix \<le> 3 \<or> suffix = ''BUTT'' \<or> suffix = ''2B'' \<or>
                           (suffix \<noteq> [] \<and> list_all isDigit suffix)
                        then add base category allowNeighbors st2 else st2)
                     else st2)"
    note np' = np[folded upper_def]
    have p1: "prefix (exactKeys st0) (exactKeys st1)"
      unfolding st1_def by (rule exactKeys_pushKey)
    have p2: "prefix (exactKeys st1) (exactKeys st2)"
      unfolding st2_def by (auto simp: Let_def exactKeys_pushKey split: option.splits)
    have p3: "prefix (exactKeys st2) (exactKeys st3)"
      unfolding st3_def Let_def
      using "1.IH"(1)[OF k upper_def np' st1_def st2_def _ refl refl]
      by auto
    have p03: "prefix (exactKeys st0) (exactKeys st3)"
      using p1 p2 p3 by (meson prefix_order.trans)
    show ?thesis
    proof (cases "allowNeighbors \<and> (\<exists>pre wStr. matchWidth upper = Some (pre, wStr) \<and> pre \<in> set neighborPrefixes)")
      case False
      have "add k category allowNeighbors st0 =
              (if allowNeighbors then
                 (case matchWidth upper of
                    Some (pre, wStr) \<Rightarrow>
                      if pre \<in> set neighborPrefixes then
                        (let w = parseInt wStr;
                             st4 = add (pre @ showInt (w - 3)) Similar False st3;
                             st5 = add (pre @ showInt (w + 3)) Similar False st4;
                             st6 = add (pre @ showInt (w - 6)) Similar False st5;
                             st7 = add (pre @ showInt (w + 6)) Similar False st6;
                             st8 = (if pre = ''SB''
                                    then add (''VSB'' @ showInt w) Similar False
                                           (add (''B'' @ showInt w) Similar False st7)
                                    else st7);
                             st9 = (if pre = ''VSB''
                                    then add (''VDB'' @ showInt w) Similar False
                                           (add (''SB'' @ showInt w) Similar False st8)
                                    else st8)
                         in st9)
                      else st3
                  | None \<Rightarrow> st3)
               else st3)"
        apply (subst add.simps)
        unfolding st3_def st2_def st1_def
        apply (simp only: Let_def upper_def[symmetric] k np' if_True if_False simp_thms)
        done
      also have "\<dots> = st3"
        using False by (cases "matchWidth upper") auto
      finally have "add k category allowNeighbors st0 = st3" .
      with p03 show ?thesis by simp
    next
      case True
      then obtain pre wStr where an: allowNeighbors and mw: "matchWidth upper = Some (pre, wStr)"
        and pn: "pre \<in> set neighborPrefixes" by blast
      define w where "w = parseInt wStr"
      define st4 where "st4 = add (pre @ showInt (w - 3)) Similar False st3"
      define st5 where "st5 = add (pre @ showInt (w + 3)) Similar False st4"
      define st6 where "st6 = add (pre @ showInt (w - 6)) Similar False st5"
      define st7 where "st7 = add (pre @ showInt (w + 6)) Similar False st6"
      define st7b where "st7b = add (''B'' @ showInt w) Similar False st7"
      define st8 where "st8 = (if pre = ''SB'' then add (''VSB'' @ showInt w) Similar False st7b else st7)"
      define st8b where "st8b = add (''SB'' @ showInt w) Similar False st8"
      define st9 where "st9 = (if pre = ''VSB'' then add (''VDB'' @ showInt w) Similar False st8b else st8)"
      note ih = "1.IH"(2-)[OF k upper_def np' st1_def st2_def st3_def an mw refl pn w_def]
      have p4: "prefix (exactKeys st3) (exactKeys st4)" unfolding st4_def by (rule ih(1))
      have p5: "prefix (exactKeys st4) (exactKeys st5)" unfolding st5_def by (rule ih(2)[OF st4_def])
      have p6: "prefix (exactKeys st5) (exactKeys st6)"
        unfolding st6_def by (rule ih(3)[OF st4_def st5_def])
      have p7: "prefix (exactKeys st6) (exactKeys st7)"
        unfolding st7_def by (rule ih(4)[OF st4_def st5_def st6_def])
      have p8: "prefix (exactKeys st7) (exactKeys st8)"
      proof (cases "pre = ''SB''")
        case False
        then show ?thesis by (simp add: st8_def)
      next
        case True
        have a: "prefix (exactKeys st7) (exactKeys st7b)"
          unfolding st7b_def by (rule ih(5)[OF st4_def st5_def st6_def st7_def True])
        have b: "prefix (exactKeys st7b) (exactKeys (add (''VSB'' @ showInt w) Similar False st7b))"
          unfolding st7b_def by (rule ih(6)[OF st4_def st5_def st6_def st7_def True])
        from a b True show ?thesis unfolding st8_def by (auto intro: prefix_order.trans)
      qed
      have p9: "prefix (exactKeys st8) (exactKeys st9)"
      proof (cases "pre = ''VSB''")
        case False
        then show ?thesis by (simp add: st9_def)
      next
        case True
        have st8': "st8 = (if pre = ''SB'' then add (''VSB'' @ showInt w) Similar False
                              (add (''B'' @ showInt w) Similar False st7) else st7)"
          by (simp add: st8_def st7b_def)
        have a: "prefix (exactKeys st8) (exactKeys st8b)"
          unfolding st8b_def by (rule ih(7)[OF st4_def st5_def st6_def st7_def st8' True])
        have b: "prefix (exactKeys st8b) (exactKeys (add (''VDB'' @ showInt w) Similar False st8b))"
          unfolding st8b_def by (rule ih(8)[OF st4_def st5_def st6_def st7_def st8' True])
        from a b True show ?thesis unfolding st9_def by (auto intro: prefix_order.trans)
      qed
      have "add k category allowNeighbors st0 = st9"
        apply (subst add.simps)
        unfolding st9_def st8b_def st8_def st7b_def st7_def st6_def st5_def st4_def w_def
          st3_def st2_def st1_def
        apply (simp only: Let_def upper_def[symmetric] k np' an mw pn if_True if_False
            option.case prod.case simp_thms)
        done
      with p03 p4 p5 p6 p7 p8 p9 show ?thesis by (auto intro: prefix_order.trans)
    qed
  qed
qed

lemma grows_add: "prefix K (exactKeys st) \<Longrightarrow> prefix K (exactKeys (add k c a st))"
  using add_grows prefix_order.trans by blast

lemma grows_addAll: "prefix K (exactKeys st) \<Longrightarrow> prefix K (exactKeys (addAll c a ks st))"
  unfolding addAll_def by (induction ks arbitrary: st) (simp_all add: grows_add)

lemma let_inv: "Q e \<Longrightarrow> (\<And>x. Q x \<Longrightarrow> P (f x)) \<Longrightarrow> P (Let e f)"
  by simp

lemma vanity_keys:
  assumes "originalCode item = ''VDB24AH-3''"
  shows "prefix [''VDB24AH-3'', ''VDB24AH'', ''VDB24''] (fst (generateSmartKeys item))"
proof -
  let ?K = "[''VDB24AH-3'', ''VDB24AH'', ''VDB24'']"
  have c: "normalizeNKBACode ''VDB24AH-3'' = ''VDB24''" by code_simp
  have ns: "includesStr ''VDB24AH-3'' '' '' = False" by code_simp
  have s2: "prefix ?K (exactKeys (add ''VDB24'' Exact True (add ''VDB24AH-3'' Exact True
              \<lparr>processed = [], exactKeys = [], similarKeys = []\<rparr>)))"
    by code_simp
  show ?thesis
    unfolding generateSmartKeys_def assms c
    apply (subst Let_def)
    apply (subst Let_def)
    apply (subst Let_def)
    apply (subst Let_def)
    apply (subst Let_def)
    apply (subst Let_def)
    apply (simp only: ns if_False)
    apply (rule let_inv[where Q = "\<lambda>st. prefix ?K (exactKeys st)" and P = "\<lambda>t. prefix ?K (fst t)"])
     apply (simp add: s2 grows_add)
    apply (rule let_inv[where Q = "\<lambda>st. prefix ?K (exactKeys st)" and P = "\<lambda>t. prefix ?K (fst t)"],
        (auto simp: Let_def intro!: grows_add grows_addAll split: option.splits prod.splits)[1])+
    apply simp
    done
qed

lemma getPriceFromItem_single:
  "\<exists>src. getPriceFromItem [(k, p)] tier sku method =
           Some \<lparr>price = p, matchSource = src, matchedSku = sku\<rparr>"
  by (auto simp: getPriceFromItem_def getPriceFallback_def split: option.splits if_splits)

lemma vanity_lookup:
  assumes "originalCode item = ''VDB24AH-3''"
  shows "lookupBasePrice item vanityCatalog tier =
           Some \<lparr>price = 400, matchSource = ''Catalog (Exact Match '' @ quoted ''VDB24'' @ '')'',
                 matchedSku = ''VDB24''\<rparr>"
proof -
  from vanity_keys[OF assms] obtain rest
    where keys: "fst (generateSmartKeys item) = [''VDB24AH-3'', ''VDB24AH'', ''VDB24''] @ rest"
    by (auto simp: prefix_def)
  have n1: "normalizeLookup ''VDB24AH-3'' = ''VDB24AH-3''"
    and n2: "normalizeLookup ''VDB24AH'' = ''VDB24AH''"
    and n3: "normalizeLookup ''VDB24'' = ''VDB24''"
    by code_simp+
  have f1: "findCatalogPrice ''VDB24AH-3'' vanityCatalog tier True = None"
    by (simp add: findCatalogPrice_def n1 vanityCatalog_def Let_def isDigit_def)
  have f2: "findCatalogPrice ''VDB24AH'' vanityCatalog tier True = None"
    by (simp add: findCatalogPrice_def n2 vanityCatalog_def Let_def isDigit_def)
  have f3: "findCatalogPrice ''VDB24'' vanityCatalog tier True =
              getPriceFromItem [(''Standard'', 400)] tier ''VDB24'' ''Exact''"
    by (simp add: findCatalogPrice_def n3 vanityCatalog_def Let_def)
  from getPriceFromItem_single[of "''Standard''" 400 tier "''VDB24''" "''Exact''"]
  obtain src where g: "getPriceFromItem [(''Standard'', 400)] tier ''VDB24'' ''Exact'' =
                         Some \<lparr>price = 400, matchSource = src, matchedSku = ''VDB24''\<rparr>"
    by blast
  have "firstKeyMatch ''Exact'' vanityCatalog tier (fst (generateSmartKeys item)) =
          Some \<lparr>price = 400, matchSource = ''Catalog (Exact Match '' @ quoted ''VDB24'' @ '')'',
                matchedSku = ''VDB24''\<rparr>"
    unfolding keys by (simp add: f1 f2 f3 g)
  moreover obtain ex si where gk: "generateSmartKeys item = (ex, si)"
    by (cases "generateSmartKeys item")
  ultimately have "firstKeyMatch ''Exact'' vanityCatalog tier ex =
          Some \<lparr>price = 400, matchSource = ''Catalog (Exact Match '' @ quoted ''VDB24'' @ '')'',
                matchedSku = ''VDB24''\<rparr>"
    by simp
  then show ?thesis
    by (simp only: lookupBasePrice_def gk assms f1 orElse_def prod.case option.case)
qed

text \<open>
  Claim C6: with the catalog VDB24 (400) and VDB24-3 (450), every item with the original
  code VDB24AH-3 that is not garbage is priced from the entry VDB24, whatever its other
  fields, the tier and the specifications. Pass 1 finds nothing for the original code;
  pass 2 tries the exact keys VDB24AH-3, VDB24AH and then VDB24, the normalized code, which
  is in the catalog. The source of the line item is \<^verbatim>\<open>Catalog (Exact Match 'VDB24')\<close>, not
  \<^verbatim>\<open>NOT FOUND\<close>, and its base price is 400.
\<close>

theorem vanity_code_is_matched:
  assumes "item \<in> set items" and "originalCode item = ''VDB24AH-3''"
    and "\<not> isGarbageItem item" and "catalogOf m = Some vanityCatalog"
  shows "priceItem up m t s f r item \<in> set (calculateProjectPricing lc up items m t s f r) \<and>
         source (priceItem up m t s f r item) = ''Catalog (Exact Match '' @ quoted ''VDB24'' @ '')'' \<and>
         source (priceItem up m t s f r item) \<noteq> ''NOT FOUND'' \<and>
         basePrice (priceItem up m t s f r item) = 400 \<and>
         normalizedCode (priceItem up m t s f r item) = ''VDB24''"
proof -
  let ?p = "computePricing m t s f r item"
  have mem: "priceItem up m t s f r item \<in> set (calculateProjectPricing lc up items m t s f r)"
    using assms(1,3) by (auto simp: set_calculateProjectPricing)
  from computePricing_fields(2)[of m t s f r item] assms(4) vanity_lookup[OF assms(2)]
  have rb: "(pBase ?p, pSource ?p, pSku ?p) =
              (400, ''Catalog (Exact Match '' @ quoted ''VDB24'' @ '')'', ''VDB24'')"
    by (simp add: resolvedBase_def)
  have r400: "mathRound 400 = 400" by code_simp
  have q: "''Catalog (Exact Match '' @ quoted ''VDB24'' @ '')'' \<noteq> ''NOT FOUND''"
    by (simp add: quoted_def)
  from rb mem r400 q show ?thesis by (simp add: priceItem_computed_fields)
qed

theorem vanity_code_is_matched_witness:
  "\<not> isGarbageItem vanityItem \<and>
   source (priceItem halfUp (mockMfg vanityCatalog []) ''standard'' None None None vanityItem)
     = ''Catalog (Exact Match '' @ quoted ''VDB24'' @ '')'' \<and>
   basePrice (priceItem halfUp (mockMfg vanityCatalog []) ''standard'' None None None vanityItem) = 400 \<and>
   map basePrice (calculateProjectPricing keepOrder halfUp [vanityItem] (mockMfg vanityCatalog [])
      ''standard'' None None None) = [400]"
proof -
  have g: "\<not> isGarbageItem vanityItem" by code_simp
  have o: "originalCode vanityItem = ''VDB24AH-3''" by (simp add: vanityItem_def)
  have c: "catalogOf (mockMfg vanityCatalog []) = Some vanityCatalog" by (simp add: mockMfg_def)
  have e: "map basePrice (calculateProjectPricing keepOrder halfUp [vanityItem] (mockMfg vanityCatalog [])
      ''standard'' None None None) = [400]" by code_simp
  from vanity_code_is_matched[of vanityItem "[vanityItem]" "mockMfg vanityCatalog []"
      halfUp "''standard''" None None None keepOrder, OF _ o g c] g e
  show ?thesis by simp
qed

end
